(* ===== verification/Prelude.thy ===== *)
theory Prelude
  imports Main "HOL-Library.State_Monad"
begin

text \<open>
  Shared vocabulary of the development.

  \<^item> Effects. The operator talks to the Kubernetes API server and to Helm, whose code is not
    part of the repository. A handler is a program in the state monad whose state is the
    \<^emph>\<open>trace\<close>, the list of external calls made so far. A call appends its event and receives a
    response that may be any function of the trace before it, so a model quantified over the
    response functions covers every behaviour of the outside world, interference included.
  \<^item> Panics. A Go run-time panic is the value \<open>Panicked\<close> of the type \<open>outcome\<close>.
  \<^item> A small logic for traces: \<open>extends m\<close> (a program only appends to the trace),
    \<open>emits P m\<close> (every appended event satisfies \<open>P\<close>), with one introduction rule for each
    construct, in the collection \<open>emits_intros\<close>.
  \<^item> The locale \<open>entry_store\<close>: what the code relies on when it uses a Go map.
\<close>

named_theorems emits_intros "introduction rules of the trace logic"
named_theorems run_simps "evaluation of trace programs"
named_theorems record_simps "definitions of small pure operations on the API records"

section \<open>Panics\<close>

datatype 'a outcome = Returned 'a | Panicked

section \<open>Programs over a trace of external calls\<close>

type_synonym ('e, 'a) prog = "('e list, 'a) state"

definition call :: "'e \<Rightarrow> ('e list \<Rightarrow> 'a) \<Rightarrow> ('e, 'a) prog" where
  "call e resp = State (\<lambda>tr. (resp tr, tr @ [e]))"

definition result_of :: "('e, 'a) prog \<Rightarrow> 'e list \<Rightarrow> 'a" where
  "result_of m tr = fst (run_state m tr)"

definition events_of :: "('e, 'a) prog \<Rightarrow> 'e list \<Rightarrow> 'e list" where
  "events_of m tr = drop (length tr) (snd (run_state m tr))"

definition emits :: "('e \<Rightarrow> bool) \<Rightarrow> ('e, 'a) prog \<Rightarrow> bool" where
  "emits P m \<longleftrightarrow> (\<forall>tr. \<exists>es. snd (run_state m tr) = tr @ es \<and> list_all P es)"

abbreviation extends :: "('e, 'a) prog \<Rightarrow> bool" where
  "extends m \<equiv> emits (\<lambda>_. True) m"

lemma run_state_call [simp, run_simps]: "run_state (call e resp) tr = (resp tr, tr @ [e])"
  by (simp add: call_def)

subsection \<open>The trace logic\<close>

lemma emits_return [emits_intros]: "emits P (State_Monad.return x)"
  by (simp add: emits_def)

lemma emits_call [emits_intros]: "P e \<Longrightarrow> emits P (call e resp)"
  by (simp add: emits_def)

lemma emits_bind [emits_intros]:
  assumes "emits P m" and "\<And>x. emits P (f x)"
  shows "emits P (State_Monad.bind m f)"
  unfolding emits_def
proof
  fix tr
  obtain x tr' where m: "run_state m tr = (x, tr')" by fastforce
  obtain es where es: "tr' = tr @ es" "list_all P es"
    using assms(1) m unfolding emits_def by (metis snd_conv)
  obtain es' where es': "snd (run_state (f x) tr') = tr' @ es'" "list_all P es'"
    using assms(2) unfolding emits_def by blast
  show "\<exists>es. snd (run_state (State_Monad.bind m f) tr) = tr @ es \<and> list_all P es"
    by (rule exI [of _ "es @ es'"]) (use m es es' in simp)
qed

lemma emits_if [emits_intros]:
  "(b \<Longrightarrow> emits P m) \<Longrightarrow> (\<not> b \<Longrightarrow> emits P n) \<Longrightarrow> emits P (if b then m else n)"
  by simp

lemma emits_case_option [emits_intros]:
  "(x = None \<Longrightarrow> emits P m) \<Longrightarrow> (\<And>y. x = Some y \<Longrightarrow> emits P (f y)) \<Longrightarrow>
   emits P (case x of None \<Rightarrow> m | Some y \<Rightarrow> f y)"
  by (cases x) auto

lemma emits_case_sum [emits_intros]:
  "(\<And>e. x = Inl e \<Longrightarrow> emits P (f e)) \<Longrightarrow> (\<And>y. x = Inr y \<Longrightarrow> emits P (g y)) \<Longrightarrow>
   emits P (case x of Inl e \<Rightarrow> f e | Inr y \<Rightarrow> g y)"
  by (cases x) auto

lemma emits_case_prod [emits_intros]:
  "(\<And>a b. x = (a, b) \<Longrightarrow> emits P (f a b)) \<Longrightarrow> emits P (case x of (a, b) \<Rightarrow> f a b)"
  by (cases x) auto

lemma emits_case_outcome [emits_intros]:
  "(\<And>y. x = Returned y \<Longrightarrow> emits P (f y)) \<Longrightarrow> (x = Panicked \<Longrightarrow> emits P m) \<Longrightarrow>
   emits P (case x of Returned y \<Rightarrow> f y | Panicked \<Rightarrow> m)"
  by (cases x) auto

lemma emits_case_list [emits_intros]:
  "(x = [] \<Longrightarrow> emits P m) \<Longrightarrow> (\<And>y ys. x = y # ys \<Longrightarrow> emits P (f y ys)) \<Longrightarrow>
   emits P (case x of [] \<Rightarrow> m | y # ys \<Rightarrow> f y ys)"
  by (cases x) auto

lemma emits_Let [emits_intros]: "(\<And>y. y = x \<Longrightarrow> emits P (f y)) \<Longrightarrow> emits P (let y = x in f y)"
  by simp

lemma emits_mono: "emits P m \<Longrightarrow> (\<And>e. P e \<Longrightarrow> Q e) \<Longrightarrow> emits Q m"
  unfolding emits_def by (metis (mono_tags, lifting) list.pred_mono_strong)

lemma emits_extends: "emits P m \<Longrightarrow> extends m"
  by (erule emits_mono) simp

lemma emits_conj: "emits P m \<Longrightarrow> emits Q m \<Longrightarrow> emits (\<lambda>e. P e \<and> Q e) m"
  unfolding emits_def by (metis (no_types, lifting) list_all_length same_append_eq)

subsection \<open>Results and events of a program\<close>

lemma run_extends: "extends m \<Longrightarrow> run_state m tr = (result_of m tr, tr @ events_of m tr)"
  unfolding emits_def result_of_def events_of_def
  by (metis append_eq_conv_conj prod.collapse)

lemma events_emits: "emits P m \<Longrightarrow> list_all P (events_of m tr)"
  unfolding emits_def events_of_def by (metis append_eq_conv_conj)

lemma result_return [simp, run_simps]: "result_of (State_Monad.return x) tr = x"
  and events_return [simp, run_simps]: "events_of (State_Monad.return x) tr = []"
  by (simp_all add: result_of_def events_of_def)

lemma result_call [simp, run_simps]: "result_of (call e resp) tr = resp tr"
  and events_call [simp, run_simps]: "events_of (call e resp) tr = [e]"
  by (simp_all add: result_of_def events_of_def)

lemma result_bind:
  "extends m \<Longrightarrow>
   result_of (State_Monad.bind m f) tr = result_of (f (result_of m tr)) (tr @ events_of m tr)"
  by (simp add: result_of_def [of "State_Monad.bind m f"] run_extends split: prod.splits)
     (simp add: result_of_def)

lemma events_bind:
  assumes "extends m" and "\<And>x. extends (f x)"
  shows "events_of (State_Monad.bind m f) tr =
    events_of m tr @ events_of (f (result_of m tr)) (tr @ events_of m tr)"
  unfolding events_of_def [of "State_Monad.bind m f"]
  by (simp add: run_extends [OF assms(1)] run_extends [OF assms(2)])

lemma result_bind_call [run_simps]:
  "result_of (State_Monad.bind (call e resp) f) tr = result_of (f (resp tr)) (tr @ [e])"
  by (simp add: result_of_def)

lemma events_bind_call [run_simps]:
  "(\<And>x. extends (f x)) \<Longrightarrow>
   events_of (State_Monad.bind (call e resp) f) tr = e # events_of (f (resp tr)) (tr @ [e])"
  by (simp add: events_bind emits_intros)

text \<open>\<open>ran m r tr es\<close>: among the events \<open>es\<close> after the trace \<open>tr\<close> is a run of \<open>m\<close> with result \<open>r\<close>.\<close>

definition ran :: "('e, 'a) prog \<Rightarrow> 'a \<Rightarrow> 'e list \<Rightarrow> 'e list \<Rightarrow> bool" where
  "ran m r tr es \<longleftrightarrow> (\<exists>es1 es2. es = es1 @ events_of m (tr @ es1) @ es2 \<and> result_of m (tr @ es1) = r)"

lemma ran_append: "ran m r tr es \<Longrightarrow> ran m r tr (es @ fs)"
  unfolding ran_def by (metis append.assoc)

lemma ran_last: "result_of m (tr @ es) = r \<Longrightarrow> ran m r tr (es @ events_of m (tr @ es))"
  unfolding ran_def by (metis append_Nil2)

lemma ran_shift: "ran m r (tr @ es) fs \<Longrightarrow> ran m r tr (es @ fs)"
  unfolding ran_def by (metis append.assoc)

subsection \<open>Sequencing a program over a list\<close>

text \<open>
  The \<open>for _, x := range xs\<close> loops of the handlers that append one result per element to a slice.
  A panic in the body leaves the loop at once.
\<close>

fun for_each :: "('x \<Rightarrow> ('e, 'a outcome) prog) \<Rightarrow> 'x list \<Rightarrow> ('e, 'a list outcome) prog" where
  "for_each f [] = State_Monad.return (Returned [])"
| "for_each f (x # xs) = do {
     y \<leftarrow> f x;
     case y of
       Panicked \<Rightarrow> State_Monad.return Panicked
     | Returned v \<Rightarrow> do {
         ys \<leftarrow> for_each f xs;
         case ys of
           Panicked \<Rightarrow> State_Monad.return Panicked
         | Returned vs \<Rightarrow> State_Monad.return (Returned (v # vs))
       }
   }"

lemma emits_for_each: "(\<And>x. x \<in> set xs \<Longrightarrow> emits P (f x)) \<Longrightarrow> emits P (for_each f xs)"
  by (induction xs) (auto intro!: emits_intros)

text \<open>
  \<open>trace_op\<close> is the contract of an operation on one item that a loop applies to many: it only
  appends to the trace, and what it appends is its own business with that item.
\<close>

locale trace_op =
  fixes op :: "'x \<Rightarrow> ('e, 'a) prog" and own :: "'x \<Rightarrow> 'e \<Rightarrow> bool"
  assumes emits_own: "emits (own x) (op x)"
begin

lemma op_extends [intro, simp]: "extends (op x)"
  by (rule emits_extends [OF emits_own])

lemma op_mono: "(\<And>e. own x e \<Longrightarrow> P e) \<Longrightarrow> emits P (op x)"
  by (rule emits_mono [OF emits_own])

end

locale trace_loop = trace_op op own
  for op :: "'x \<Rightarrow> ('e, 'a outcome) prog" and own :: "'x \<Rightarrow> 'e \<Rightarrow> bool"
begin

lemma loop_own: "emits (\<lambda>e. \<exists>x \<in> set xs. own x e) (for_each op xs)"
  by (rule emits_for_each) (auto intro: op_mono)

lemma loop_extends [intro, simp]: "extends (for_each op xs)"
  by (rule emits_extends [OF loop_own])

lemma loop_results:
  "result_of (for_each op xs) tr = Returned ys \<Longrightarrow>
   length ys = length xs \<and> (\<forall>i < length xs. \<exists>tr'. result_of (op (xs ! i)) tr' = Returned (ys ! i))"
proof (induction xs arbitrary: tr ys)
  case Nil
  then show ?case by simp
next
  case (Cons x xs)
  let ?tr' = "tr @ events_of (op x) tr"
  from Cons.prems obtain v vs where v: "result_of (op x) tr = Returned v"
    and vs: "result_of (for_each op xs) ?tr' = Returned vs" and ys: "ys = v # vs"
    by (auto simp: result_bind split: outcome.splits)
  from v ys Cons.IH [OF vs] show ?case
    by (auto simp: nth_Cons split: nat.splits)
qed

lemma loop_total:
  assumes "\<And>x tr. x \<in> set xs \<Longrightarrow> \<exists>y. result_of (op x) tr = Returned y \<and> P x y"
  shows "\<exists>ys. result_of (for_each op xs) tr = Returned ys \<and> list_all2 P xs ys"
  using assms
proof (induction xs arbitrary: tr)
  case (Cons x xs)
  let ?tr' = "tr @ events_of (op x) tr"
  obtain y where y: "result_of (op x) tr = Returned y" "P x y" using Cons.prems by force
  obtain ys where "result_of (for_each op xs) ?tr' = Returned ys" "list_all2 P xs ys"
    using Cons.IH [of ?tr'] Cons.prems by auto
  with y show ?case by (auto simp: result_bind)
qed simp

lemma loop_events:
  assumes "\<And>x tr. x \<in> set xs \<Longrightarrow> list_all Q (events_of (op x) tr)"
  shows "list_all Q (events_of (for_each op xs) tr)"
  using assms
proof (induction xs arbitrary: tr)
  case (Cons x xs)
  have "list_all Q (events_of (op x) tr)"
    and "list_all Q (events_of (for_each op xs) (tr @ events_of (op x) tr))"
    using Cons by auto
  then show ?case
    by (cases "result_of (op x) tr")
       (auto simp: events_bind emits_intros split: outcome.splits)
qed simp

text \<open>A loop that returns has run its body for every element.\<close>

lemma loop_includes:
  assumes "result_of (for_each op xs) tr = Returned ys" and "x \<in> set xs"
  shows "\<exists>t. set (events_of (op x) t) \<subseteq> set (events_of (for_each op xs) tr)"
  using assms
proof (induction xs arbitrary: tr ys)
  case (Cons z xs)
  let ?t = "tr @ events_of (op z) tr"
  from Cons.prems(1) obtain v vs where v: "result_of (op z) tr = Returned v"
    and vs: "result_of (for_each op xs) ?t = Returned vs"
    by (auto simp: result_bind split: outcome.splits)
  then have ev: "events_of (for_each op (z # xs)) tr = events_of (op z) tr @ events_of (for_each op xs) ?t"
    by (simp add: events_bind emits_intros)
  show ?case
  proof (cases "x = z")
    case True
    then show ?thesis unfolding ev by auto
  next
    case False
    with Cons.prems(2) Cons.IH [OF vs] show ?thesis unfolding ev by auto
  qed
qed simp

lemma loop_append:
  "result_of (for_each op xs) tr = Returned ys \<Longrightarrow> events_of (for_each op (xs @ zs)) tr =
     events_of (for_each op xs) tr @ events_of (for_each op zs) (tr @ events_of (for_each op xs) tr)"
proof (induction xs arbitrary: tr ys)
  case (Cons x xs)
  obtain v vs where v: "result_of (op x) tr = Returned v"
    "result_of (for_each op xs) (tr @ events_of (op x) tr) = Returned vs"
    using Cons.prems by (auto simp: result_bind split: outcome.splits)
  with Cons.IH [OF v(2)] show ?case by (simp add: events_bind emits_intros split: outcome.splits)
qed simp

text \<open>An invariant of the traces that every run of the body keeps is kept by the loop.\<close>

lemma loop_run:
  assumes "\<And>x t. x \<in> set xs \<Longrightarrow> I t \<Longrightarrow> \<exists>y. result_of (op x) t = Returned y \<and> P x y \<and> I (t @ events_of (op x) t)"
    and "I tr"
  shows "\<exists>ys. result_of (for_each op xs) tr = Returned ys \<and> list_all2 P xs ys \<and> I (tr @ events_of (for_each op xs) tr)"
  using assms
proof (induction xs arbitrary: tr)
  case (Cons x xs)
  let ?t = "tr @ events_of (op x) tr"
  obtain y where y: "result_of (op x) tr = Returned y" "P x y" and "I ?t" using Cons.prems by force
  with Cons.IH [of ?t] Cons.prems(1) obtain ys where "result_of (for_each op xs) ?t = Returned ys"
    "list_all2 P xs ys" "I (?t @ events_of (for_each op xs) ?t)" by auto
  with y show ?case by (auto simp: result_bind events_bind emits_intros)
qed simp

lemma loop_invariant:
  assumes "\<And>x t. x \<in> set xs \<Longrightarrow> I t \<Longrightarrow> (\<exists>y. result_of (op x) t = Returned y) \<and> I (t @ events_of (op x) t)"
    and "I tr"
  shows "(\<exists>ys. result_of (for_each op xs) tr = Returned ys) \<and> I (tr @ events_of (for_each op xs) tr)"
  using loop_run [of xs I "\<lambda>_ _. True" tr] assms by simp blast

text \<open>What the body brings about for its own element, and no other run of it undoes, holds of every
  element after the loop.\<close>

lemma loop_establishes:
  assumes "\<And>x t. x \<in> set xs \<Longrightarrow> J t \<Longrightarrow> (\<exists>y. result_of (op x) t = Returned y) \<and>
      J (t @ events_of (op x) t) \<and> P x (t @ events_of (op x) t)"
    and "\<And>x y t. x \<in> set xs \<Longrightarrow> y \<in> set xs \<Longrightarrow> x \<noteq> y \<Longrightarrow> P x t \<Longrightarrow> J t \<Longrightarrow> P x (t @ events_of (op y) t)"
    and "distinct xs" and "J tr"
  shows "(\<exists>ys. result_of (for_each op xs) tr = Returned ys) \<and> J (tr @ events_of (for_each op xs) tr) \<and>
    (\<forall>x \<in> set xs. P x (tr @ events_of (for_each op xs) tr))"
  using assms
proof (induction xs arbitrary: tr)
  case (Cons x xs)
  let ?t = "tr @ events_of (op x) tr"
  obtain y where y: "result_of (op x) tr = Returned y" and J: "J ?t" and P: "P x ?t" using Cons.prems by force
  have "(\<exists>ys. result_of (for_each op xs) ?t = Returned ys) \<and> J (?t @ events_of (for_each op xs) ?t) \<and>
      (\<forall>x \<in> set xs. P x (?t @ events_of (for_each op xs) ?t))"
    using Cons.IH [of ?t] Cons.prems J by auto
  moreover have "(\<exists>ys. result_of (for_each op xs) ?t = Returned ys) \<and>
      J (?t @ events_of (for_each op xs) ?t) \<and> P x (?t @ events_of (for_each op xs) ?t)"
  proof (rule loop_invariant [of _ "\<lambda>t. J t \<and> P x t"])
    fix z t assume z: "z \<in> set xs" "J t \<and> P x t"
    then have "x \<noteq> z" using Cons.prems(3) by auto
    with z show "(\<exists>y. result_of (op z) t = Returned y) \<and> J (t @ events_of (op z) t) \<and> P x (t @ events_of (op z) t)"
      using Cons.prems(1) [of z t] Cons.prems(2) [of x z t] by auto
  qed (simp add: J P)
  ultimately show ?case using y by (auto simp: result_bind events_bind emits_intros)
qed simp

end

section \<open>Go maps\<close>

lemma map_of_rev_distinct: "distinct (map fst es) \<Longrightarrow> map_of (rev es) = map_of es"
  by (induction es) (auto simp: map_add_def fun_eq_iff map_of_eq_None_iff [symmetric]
      split: option.splits dest: map_of_SomeD)

text \<open>
  A Go map is modelled by the list of its entries in the order one \<open>range\<close> loop visits them.
  Go leaves that order open, so nothing may depend on it. \<open>entry_store\<close> is the interface the code
  relies on: reading after writing. The client lemmas are about the loops \<open>for k, v := range m
  { out[k] = v }\<close>.
\<close>

locale entry_store =
  fixes lookup :: "'m \<Rightarrow> 'k \<Rightarrow> 'v option"
    and store :: "'k \<Rightarrow> 'v \<Rightarrow> 'm \<Rightarrow> 'm"
    and blank :: "'m"
  assumes lookup_blank: "lookup blank k = None"
    and lookup_store: "lookup (store k v m) k' = (if k' = k then Some v else lookup m k')"
begin

lemma lookup_store_all:
  "lookup (fold (\<lambda>(k, v). store k v) es m) k =
   (case map_of (rev es) k of None \<Rightarrow> lookup m k | Some v \<Rightarrow> Some v)"
  by (induction es arbitrary: m)
     (auto simp: lookup_store map_add_def split: option.splits)

lemma copy_lookup: "distinct (map fst es) \<Longrightarrow>
    lookup (fold (\<lambda>(k, v). store k v) es blank) k = map_of es k"
  by (simp add: lookup_store_all lookup_blank map_of_rev_distinct split: option.splits)

lemma stored_keys:
  "lookup (fold (\<lambda>x. store (f x) (g x)) xs m) k \<noteq> None \<longleftrightarrow> k \<in> f ` set xs \<or> lookup m k \<noteq> None"
  by (induction xs arbitrary: m) (auto simp: lookup_store)

end

section \<open>Lists\<close>

text \<open>\<open>append(xs[:i], xs[i+1:]...)\<close>: the list without its element at index \<open>i\<close>.\<close>

definition remove_at :: "nat \<Rightarrow> 'a list \<Rightarrow> 'a list" where
  "remove_at i xs = take i xs @ drop (Suc i) xs"

lemma remove_at_append [simp]: "remove_at (length xs) (xs @ y # ys) = xs @ ys"
  by (simp add: remove_at_def)

lemma take_nth_drop: "i < length xs \<Longrightarrow> xs = take i xs @ xs ! i # drop (Suc i) xs"
  by (rule id_take_nth_drop)

lemma list_all2_right: "list_all2 (\<lambda>x. Q) xs ys \<Longrightarrow> length ys = length xs \<and> list_all Q ys"
  by (induction xs ys rule: list_all2_induct) auto

end
