(* ===== verification/Go_Values.thy ===== *)
theory Go_Values
  imports Prelude "HOL-Library.AList" "HOL-Library.Word"
begin

text \<open>
  The part of Go the controllers compute with.

  \<^item> \<open>gval\<close>: the dynamic values (\<open>any\<close>) found in Helm value trees. A \<open>float64\<close> is its IEEE bit
    pattern (\<open>f64\<close>), a \<open>map[string]any\<close> is \<open>VMap\<close> of its entries, or \<open>VMap None\<close> when the map is
    nil; \<open>VOpaque\<close> is any other Go value (for instance a pointer to a message).
  \<^item> \<open>wf_gval\<close>: no map holds a key twice, at any depth. Every Go value satisfies it.
  \<^item> \<open>deep_equal\<close>: \<open>reflect.DeepEqual\<close> on such values.
  \<^item> \<open>abs_gval\<close>: the value a tree denotes once the order of its map entries is forgotten.
  \<^item> \<open>Itoa\<close> (\<open>strconv.Itoa\<close>) and \<open>to_int32\<close> (the conversion \<open>int32(n)\<close>).
\<close>

section \<open>Numbers\<close>

type_synonym f64 = "64 word"

definition f64_is_nan :: "f64 \<Rightarrow> bool" where
  "f64_is_nan b \<longleftrightarrow> take_bit 11 (drop_bit 52 b) = 2047 \<and> take_bit 52 b \<noteq> 0"

definition f64_is_zero :: "f64 \<Rightarrow> bool" where
  "f64_is_zero b \<longleftrightarrow> take_bit 63 b = 0"

definition f64_eq :: "f64 \<Rightarrow> f64 \<Rightarrow> bool" where
  "f64_eq a b \<longleftrightarrow> \<not> f64_is_nan a \<and> \<not> f64_is_nan b \<and> (a = b \<or> f64_is_zero a \<and> f64_is_zero b)"

text \<open>Bit patterns on which \<open>==\<close> is identity: not a NaN and not minus zero.\<close>

definition f64_plain :: "f64 \<Rightarrow> bool" where
  "f64_plain b \<longleftrightarrow> \<not> f64_is_nan b \<and> (f64_is_zero b \<longrightarrow> b = 0)"

lemma f64_eq_plain: "f64_plain a \<Longrightarrow> f64_plain b \<Longrightarrow> f64_eq a b \<longleftrightarrow> a = b"
  by (auto simp: f64_eq_def f64_plain_def)

subsection \<open>\<open>strconv.Itoa\<close> and \<open>int32(n)\<close>\<close>

definition digit_char :: "nat \<Rightarrow> char" where
  "digit_char d = char_of (48 + d)"

fun nat_digits :: "nat \<Rightarrow> string" where
  "nat_digits n = (if n < 10 then [digit_char n] else nat_digits (n div 10) @ [digit_char (n mod 10)])"

declare nat_digits.simps [simp del]

definition Itoa :: "int \<Rightarrow> string" where
  "Itoa i = (if i < 0 then ''-'' @ nat_digits (nat (- i)) else nat_digits (nat i))"

text \<open>Reading a decimal numeral back, the reference for \<open>Itoa\<close>.\<close>

definition read_digits :: "string \<Rightarrow> nat" where
  "read_digits = foldl (\<lambda>n c. 10 * n + (of_char c - 48)) 0"

definition read_int :: "string \<Rightarrow> int" where
  "read_int s = (case s of [] \<Rightarrow> 0 | c # cs \<Rightarrow>
     if c = CHR ''-'' then - int (read_digits cs) else int (read_digits s))"

definition to_int32 :: "nat \<Rightarrow> 32 word" where
  "to_int32 n = word_of_nat n"

lemma to_int32_0 [simp]: "to_int32 0 = 0"
  by (simp add: to_int32_def)

lemma of_char_digit [simp]: "d < 10 \<Longrightarrow> (of_char (digit_char d) :: nat) = 48 + d"
  by (simp add: digit_char_def)

lemma read_digits_snoc: "read_digits (s @ [c]) = 10 * read_digits s + (of_char c - 48)"
  by (simp add: read_digits_def)

lemma read_nat_digits: "read_digits (nat_digits n) = n"
proof (induction n rule: nat_digits.induct)
  case (1 n)
  show ?case
  proof (cases "n < 10")
    case True
    then show ?thesis by (simp add: nat_digits.simps [of n] read_digits_def)
  next
    case False
    with 1 show ?thesis by (simp add: nat_digits.simps [of n] read_digits_snoc)
  qed
qed

lemma nat_digits_head: "\<exists>d cs. d < 10 \<and> nat_digits n = digit_char d # cs"
proof (induction n rule: nat_digits.induct)
  case (1 n)
  show ?case
    by (cases "n < 10") (use 1 in \<open>auto simp: nat_digits.simps [of n]\<close>)
qed

lemma digit_not_minus:
  assumes "d < 10"
  shows "digit_char d \<noteq> CHR ''-''"
proof
  assume "digit_char d = CHR ''-''"
  then have "48 + d = (of_char CHR ''-'' :: nat)" using of_char_digit [OF assms] by metis
  then show False by simp
qed

lemma read_int_Itoa: "read_int (Itoa i) = i"
proof -
  obtain d cs where d: "d < 10" "nat_digits (nat i) = digit_char d # cs"
    using nat_digits_head by blast
  show ?thesis
    using read_nat_digits [of "nat i"] read_nat_digits [of "nat (- i)"] d digit_not_minus [OF d(1)]
    by (auto simp: Itoa_def read_int_def)
qed

lemma to_int32_small: "n < 2 ^ 31 \<Longrightarrow> sint (to_int32 n) = int n"
  by (simp add: to_int32_def signed_of_nat signed_take_bit_int_eq_self)

section \<open>Dynamic values\<close>

datatype gval =
    VNil
  | VBool bool
  | VNum f64
  | VStr string
  | VList "gval list"
  | VMap "(string \<times> gval) list option"
  | VOpaque string

text \<open>A \<open>map[string]any\<close> held in a variable: \<open>None\<close> is the nil map.\<close>

type_synonym gomap = "(string \<times> gval) list option"

definition gentries :: "gomap \<Rightarrow> (string \<times> gval) list" where
  "gentries m = (case m of None \<Rightarrow> [] | Some es \<Rightarrow> es)"

definition gget :: "gomap \<Rightarrow> string \<Rightarrow> gval option" where
  "gget m k = map_of (gentries m) k"

lemma gentries_simps [simp]: "gentries None = []" "gentries (Some es) = es"
  by (simp_all add: gentries_def)

text \<open>Writing to an association list is what the assignment \<open>out[k] = v\<close> does.\<close>

interpretation entries: entry_store map_of AList.update "[]"
  by unfold_locales (auto simp: update_conv')

fun wf_gval :: "gval \<Rightarrow> bool" and wf_list :: "gval list \<Rightarrow> bool"
  and wf_entries :: "(string \<times> gval) list \<Rightarrow> bool" where
  "wf_gval (VList vs) = wf_list vs"
| "wf_gval (VMap (Some es)) = wf_entries es"
| "wf_gval _ = True"
| "wf_list [] = True"
| "wf_list (v # vs) = (wf_gval v \<and> wf_list vs)"
| "wf_entries [] = True"
| "wf_entries ((k, v) # es) = (k \<notin> fst ` set es \<and> wf_gval v \<and> wf_entries es)"

definition wf_gomap :: "gomap \<Rightarrow> bool" where
  "wf_gomap m \<longleftrightarrow> wf_entries (gentries m)"

lemma wf_entries_iff: "wf_entries es \<longleftrightarrow> distinct (map fst es) \<and> (\<forall>(k, v) \<in> set es. wf_gval v)"
  by (induction es) force+

lemma wf_gomap_simps [simp]: "wf_gomap None" "wf_gomap (Some es) = wf_entries es"
  by (simp_all add: wf_gomap_def)

lemma wf_VMap [simp]: "wf_gval (VMap m) \<longleftrightarrow> wf_gomap m"
  by (cases m) (simp_all add: wf_gomap_def)

subsection \<open>\<open>reflect.DeepEqual\<close>\<close>

text \<open>
  Maps: both nil or both not nil, the same number of keys, and each key of the first maps to a
  deeply equal value in the second. The shortcut for one and the same map object is not modelled:
  the code compares a map read from a Helm release with a map it has just built.
\<close>

fun deep_equal :: "gval \<Rightarrow> gval \<Rightarrow> bool"
  and deep_equal_list :: "gval list \<Rightarrow> gval list \<Rightarrow> bool"
  and deep_equal_entries :: "(string \<times> gval) list \<Rightarrow> (string \<times> gval) list \<Rightarrow> bool" where
  "deep_equal VNil w = (w = VNil)"
| "deep_equal (VBool b) w = (w = VBool b)"
| "deep_equal (VNum a) w = (case w of VNum b \<Rightarrow> f64_eq a b | _ \<Rightarrow> False)"
| "deep_equal (VStr s) w = (w = VStr s)"
| "deep_equal (VList vs) w = (case w of VList ws \<Rightarrow> deep_equal_list vs ws | _ \<Rightarrow> False)"
| "deep_equal (VMap None) w = (w = VMap None)"
| "deep_equal (VMap (Some es)) w =
     (case w of VMap (Some fs) \<Rightarrow> length es = length fs \<and> deep_equal_entries es fs | _ \<Rightarrow> False)"
| "deep_equal (VOpaque p) w = (w = VOpaque p)"
| "deep_equal_list [] ws = (ws = [])"
| "deep_equal_list (v # vs) ws =
     (case ws of [] \<Rightarrow> False | w # ws' \<Rightarrow> deep_equal v w \<and> deep_equal_list vs ws')"
| "deep_equal_entries [] fs = True"
| "deep_equal_entries ((k, v) # es) fs =
     (case map_of fs k of None \<Rightarrow> False | Some w \<Rightarrow> deep_equal v w \<and> deep_equal_entries es fs)"

definition gomap_deep_equal :: "gomap \<Rightarrow> gomap \<Rightarrow> bool" where
  "gomap_deep_equal a b = deep_equal (VMap a) (VMap b)"

subsection \<open>What a value tree denotes\<close>

datatype aval =
    ANil
  | ABool bool
  | ANum f64
  | AStr string
  | AList "aval list"
  | AMap "(string \<Rightarrow> aval option) option"
  | AOpaque string

fun abs_gval :: "gval \<Rightarrow> aval" and abs_list :: "gval list \<Rightarrow> aval list"
  and abs_entries :: "(string \<times> gval) list \<Rightarrow> string \<Rightarrow> aval option" where
  "abs_gval VNil = ANil"
| "abs_gval (VBool b) = ABool b"
| "abs_gval (VNum n) = ANum n"
| "abs_gval (VStr s) = AStr s"
| "abs_gval (VList vs) = AList (abs_list vs)"
| "abs_gval (VMap None) = AMap None"
| "abs_gval (VMap (Some es)) = AMap (Some (abs_entries es))"
| "abs_gval (VOpaque p) = AOpaque p"
| "abs_list [] = []"
| "abs_list (v # vs) = abs_gval v # abs_list vs"
| "abs_entries [] = Map.empty"
| "abs_entries ((k, v) # es) = (abs_entries es)(k \<mapsto> abs_gval v)"

lemma abs_VMap [simp]: "abs_gval (VMap m) = AMap (map_option abs_entries m)"
  by (cases m) simp_all

lemma abs_list_map [simp]: "abs_list vs = map abs_gval vs"
  by (induction vs) simp_all

lemma abs_entries_map_of: "abs_entries es k = map_option abs_gval (map_of es k)"
  by (induction es) auto

lemma dom_abs_entries: "dom (abs_entries es) = fst ` set es"
  by (rule set_eqI) (simp add: domIff abs_entries_map_of map_of_eq_None_iff)

lemma abs_entries_eqI:
  assumes "distinct (map fst es)" and "distinct (map fst fs)" and "length es = length fs"
    and sub: "\<forall>(k, v) \<in> set es. abs_entries fs k = Some (abs_gval v)"
  shows "abs_entries es = abs_entries fs"
proof
  fix k
  have "fst ` set es \<subseteq> fst ` set fs"
    using sub by (force simp: dom_abs_entries [symmetric])
  moreover have "card (fst ` set es) = card (fst ` set fs)"
    using assms(1-3) by (metis distinct_card length_map list.set_map)
  ultimately have keys: "fst ` set es = fst ` set fs"
    by (simp add: card_subset_eq)
  show "abs_entries es k = abs_entries fs k"
  proof (cases "map_of es k")
    case None
    then have "k \<notin> fst ` set es" by (simp add: map_of_eq_None_iff)
    with keys show ?thesis by (metis domIff dom_abs_entries)
  next
    case (Some v)
    then have "abs_entries fs k = Some (abs_gval v)"
      using sub map_of_SomeD by fastforce
    with Some show ?thesis by (auto simp: abs_entries_map_of)
  qed
qed

lemma abs_entries_eqD:
  assumes "distinct (map fst es)" and "distinct (map fst fs)"
    and eq: "abs_entries es = abs_entries fs"
  shows "length es = length fs" and "\<forall>(k, v) \<in> set es. abs_entries fs k = Some (abs_gval v)"
proof -
  have "fst ` set es = fst ` set fs" using eq by (metis dom_abs_entries)
  then show "length es = length fs" using assms by (metis distinct_card length_map list.set_map)
  show "\<forall>(k, v) \<in> set es. abs_entries fs k = Some (abs_gval v)"
    using assms(1) by (auto simp: eq [symmetric] abs_entries_map_of)
qed

lemma abs_entries_eq_iff:
  "distinct (map fst es) \<Longrightarrow> distinct (map fst fs) \<Longrightarrow>
   abs_entries es = abs_entries fs \<longleftrightarrow>
   length es = length fs \<and> (\<forall>(k, v) \<in> set es. abs_entries fs k = Some (abs_gval v))"
  using abs_entries_eqI abs_entries_eqD by metis

text \<open>Trees whose numbers \<open>==\<close> compares by their bits.\<close>

fun plain_gval :: "gval \<Rightarrow> bool" and plain_list :: "gval list \<Rightarrow> bool"
  and plain_entries :: "(string \<times> gval) list \<Rightarrow> bool" where
  "plain_gval (VNum n) = f64_plain n"
| "plain_gval (VList vs) = plain_list vs"
| "plain_gval (VMap (Some es)) = plain_entries es"
| "plain_gval _ = True"
| "plain_list [] = True"
| "plain_list (v # vs) = (plain_gval v \<and> plain_list vs)"
| "plain_entries [] = True"
| "plain_entries ((k, v) # es) = (plain_gval v \<and> plain_entries es)"

definition plain_gomap :: "gomap \<Rightarrow> bool" where
  "plain_gomap m = plain_entries (gentries m)"

lemma plain_gomap_simps [simp]: "plain_gomap None" "plain_gomap (Some es) = plain_entries es"
  by (simp_all add: plain_gomap_def)

lemma plain_VMap [simp]: "plain_gval (VMap m) = plain_gomap m"
  by (cases m) (simp_all add: plain_gomap_def)

lemma wf_map_of: "wf_entries es \<Longrightarrow> map_of es k = Some v \<Longrightarrow> wf_gval v"
  by (auto simp: wf_entries_iff dest: map_of_SomeD)

lemma plain_map_of: "plain_entries es \<Longrightarrow> map_of es k = Some v \<Longrightarrow> plain_gval v"
  by (induction es) (auto split: if_splits)

lemma abs_gval_inv [simp]:
  "abs_gval w = ANil \<longleftrightarrow> w = VNil" "ANil = abs_gval w \<longleftrightarrow> w = VNil"
  "abs_gval w = ABool b \<longleftrightarrow> w = VBool b" "ABool b = abs_gval w \<longleftrightarrow> w = VBool b"
  "abs_gval w = AStr s \<longleftrightarrow> w = VStr s" "AStr s = abs_gval w \<longleftrightarrow> w = VStr s"
  "abs_gval w = AOpaque s \<longleftrightarrow> w = VOpaque s" "AOpaque s = abs_gval w \<longleftrightarrow> w = VOpaque s"
  "abs_gval w = AMap None \<longleftrightarrow> w = VMap None" "AMap None = abs_gval w \<longleftrightarrow> w = VMap None"
  by (cases w rule: abs_gval.cases; auto)+

lemma deep_equal_abs_ind:
  "wf_gval v \<Longrightarrow> wf_gval w \<Longrightarrow> plain_gval v \<Longrightarrow> plain_gval w \<Longrightarrow>
     deep_equal v w \<longleftrightarrow> abs_gval v = abs_gval w"
  "wf_list vs \<Longrightarrow> wf_list ws \<Longrightarrow> plain_list vs \<Longrightarrow> plain_list ws \<Longrightarrow>
     deep_equal_list vs ws \<longleftrightarrow> abs_list vs = abs_list ws"
  "wf_entries es \<Longrightarrow> wf_entries fs \<Longrightarrow> plain_entries es \<Longrightarrow> plain_entries fs \<Longrightarrow>
     deep_equal_entries es fs \<longleftrightarrow> (\<forall>(k, x) \<in> set es. abs_entries fs k = Some (abs_gval x))"
proof (induction v w and vs ws and es fs rule: deep_equal_deep_equal_list_deep_equal_entries.induct)
  case (7 es w)
  show ?case
  proof (cases "\<exists>fs. w = VMap (Some fs)")
    case True
    then obtain fs where w: "w = VMap (Some fs)" by blast
    show ?thesis
      using 7 w abs_entries_eq_iff [of es fs] by (auto simp: wf_entries_iff)
  next
    case False
    then show ?thesis by (cases w rule: abs_gval.cases) auto
  qed
next
  case (12 k v es fs)
  then show ?case
    by (auto simp: abs_entries_map_of wf_map_of plain_map_of split: option.splits)
qed (auto simp: f64_eq_plain split: gval.splits list.splits)

subsection \<open>Values that are not JSON\<close>

fun json_gval :: "gval \<Rightarrow> bool" and json_list :: "gval list \<Rightarrow> bool"
  and json_entries :: "(string \<times> gval) list \<Rightarrow> bool" where
  "json_gval (VOpaque p) = False"
| "json_gval (VList vs) = json_list vs"
| "json_gval (VMap (Some es)) = json_entries es"
| "json_gval _ = True"
| "json_list [] = True"
| "json_list (v # vs) = (json_gval v \<and> json_list vs)"
| "json_entries [] = True"
| "json_entries ((k, v) # es) = (json_gval v \<and> json_entries es)"

lemma json_entries_iff: "json_entries es \<longleftrightarrow> (\<forall>(k, v) \<in> set es. json_gval v)"
  by (induction es) auto

end
