(* ===== verification/API_Types.thy ===== *)
theory API_Types
  imports Go_Values
begin

text \<open>
  The API of the operator, apis/operator/v1alpha1: the HelmApp resource, its messages and their
  generated accessors, and google.protobuf.Struct (apis/common-protos).

  \<^item> A Go pointer to a message is an \<open>option\<close>, \<open>None\<close> for nil; an \<open>int32\<close> is a \<open>32 word\<close>. The
    private fields of the protobuf runtime (state, sizeCache, unknownFields) are left out.
  \<^item> \<open>spec_Components\<close> keeps the difference between a nil and an empty slice, which
    \<open>reflect.DeepEqual\<close> sees.
  \<^item> The accessors \<open>GetX\<close> take a possibly nil receiver and return the zero value for it.
\<close>

section \<open>google.protobuf.Struct\<close>

datatype pvalue =
    NullValue
  | NumberValue f64
  | StringValue string
  | BoolValue bool
  | StructValue pstruct
  | ListValue "pvalue list"
and pstruct = Struct "(string \<times> pvalue) list"

text \<open>Accessors of \<open>Struct\<close> and \<open>Value\<close>: the zero value for a nil receiver or another kind.\<close>

fun GetFields :: "pstruct option \<Rightarrow> string \<Rightarrow> pvalue option" where
  "GetFields None k = None"
| "GetFields (Some (Struct fs)) k = map_of fs k"

fun GetStructValue :: "pvalue option \<Rightarrow> pstruct option" where
  "GetStructValue (Some (StructValue s)) = Some s"
| "GetStructValue _ = None"

fun GetStringValue :: "pvalue option \<Rightarrow> string" where
  "GetStringValue (Some (StringValue s)) = s"
| "GetStringValue _ = []"

fun GetBoolValue :: "pvalue option \<Rightarrow> bool" where
  "GetBoolValue (Some (BoolValue b)) = b"
| "GetBoolValue _ = False"

fun GetNumberValue :: "pvalue option \<Rightarrow> f64" where
  "GetNumberValue (Some (NumberValue n)) = n"
| "GetNumberValue _ = 0"

section \<open>Phase\<close>

datatype Phase = Phase_UNKNOWN | Phase_RECONCILING | Phase_SUCCEEDED | Phase_FAILED | Phase_DELETING

fun Phase_Number :: "Phase \<Rightarrow> int" where
  "Phase_Number Phase_UNKNOWN = 0"
| "Phase_Number Phase_RECONCILING = 1"
| "Phase_Number Phase_SUCCEEDED = 2"
| "Phase_Number Phase_FAILED = 3"
| "Phase_Number Phase_DELETING = 4"

definition Phase_name :: "int \<Rightarrow> string option" where
  "Phase_name = map_of [(0, ''UNKNOWN''), (1, ''RECONCILING''), (2, ''SUCCEEDED''),
     (3, ''FAILED''), (4, ''DELETING'')]"

definition Phase_value :: "string \<Rightarrow> int option" where
  "Phase_value = map_of [(''UNKNOWN'', 0), (''RECONCILING'', 1), (''SUCCEEDED'', 2),
     (''FAILED'', 3), (''DELETING'', 4)]"

text \<open>The constants are ordered by their numbers, as the Go type is an \<open>int32\<close>.\<close>

instantiation Phase :: linorder
begin

definition less_eq_Phase :: "Phase \<Rightarrow> Phase \<Rightarrow> bool" where
  "less_eq_Phase p q \<longleftrightarrow> Phase_Number p \<le> Phase_Number q"

definition less_Phase :: "Phase \<Rightarrow> Phase \<Rightarrow> bool" where
  "less_Phase p q \<longleftrightarrow> Phase_Number p < Phase_Number q"

instance
proof
  fix p q :: Phase
  assume "p \<le> q" and "q \<le> p"
  then show "p = q" by (cases p; cases q) (simp_all add: less_eq_Phase_def)
qed (auto simp: less_eq_Phase_def less_Phase_def)

end

section \<open>Messages\<close>

record ObjectMeta =
  om_Name :: string
  om_Namespace :: string
  om_ResourceVersion :: string
  om_Labels :: "(string \<times> string) list option"
  om_Finalizers :: "string list"
  om_DeletionTimestamp :: "int option"

record HelmRepo =
  repo_Name :: string
  repo_Url :: string

record HelmComponent =
  hc_Name :: string
  hc_Chart :: string
  hc_Version :: string
  hc_ComponentValues :: "pstruct option"
  hc_Repo :: "HelmRepo option"
  hc_IgnoreGlobalValues :: bool

record HelmAppSpec =
  spec_Components :: "HelmComponent list option"
  spec_GlobalValues :: "pstruct option"
  spec_Repo :: "HelmRepo option"

record HelmResourceStatus =
  hr_ApiVersion :: string
  hr_Kind :: string
  hr_Name :: string
  hr_Namespace :: string

record HelmComponentStatus =
  hs_Name :: string
  hs_Status :: string
  hs_Message :: string
  hs_Version :: string
  hs_Resources :: "HelmResourceStatus list"
  hs_ResourcesTotal :: "32 word"

record HelmAppStatus =
  st_Phase :: Phase
  st_Components :: "HelmComponentStatus list"

record HelmApp =
  ha_Meta :: ObjectMeta
  ha_Spec :: "HelmAppSpec option"
  ha_Status :: "HelmAppStatus option"

text \<open>Ranging over a nil slice visits nothing.\<close>

definition slice :: "'a list option \<Rightarrow> 'a list" where
  "slice xs = (case xs of None \<Rightarrow> [] | Some ys \<Rightarrow> ys)"

lemma slice_simps [simp]: "slice None = []" "slice (Some xs) = xs"
  by (simp_all add: slice_def)

text \<open>Reading a label from a possibly nil map.\<close>

definition label_of :: "ObjectMeta \<Rightarrow> string \<Rightarrow> string option" where
  "label_of m k = (case om_Labels m of None \<Rightarrow> None | Some ls \<Rightarrow> map_of ls k)"

text \<open>\<open>DeletionTimestamp.IsZero()\<close>: true for a nil pointer and for the zero time.\<close>

definition is_deleting :: "ObjectMeta \<Rightarrow> bool" where
  "is_deleting m \<longleftrightarrow> \<not> (om_DeletionTimestamp m = None \<or> om_DeletionTimestamp m = Some 0)"

section \<open>Accessors\<close>

text \<open>Every accessor is \<open>if x != nil { return x.Field }; return zero\<close>.\<close>

definition get_or :: "('m \<Rightarrow> 'f) \<Rightarrow> 'f \<Rightarrow> 'm option \<Rightarrow> 'f" where
  "get_or field zero x = (case x of None \<Rightarrow> zero | Some m \<Rightarrow> field m)"

lemma get_or_simps [simp]: "get_or f z None = z" "get_or f z (Some m) = f m"
  by (simp_all add: get_or_def)

definition HelmAppSpec_GetComponents :: "HelmAppSpec option \<Rightarrow> HelmComponent list option" where
  "HelmAppSpec_GetComponents = get_or spec_Components None"
definition HelmAppSpec_GetGlobalValues :: "HelmAppSpec option \<Rightarrow> pstruct option" where
  "HelmAppSpec_GetGlobalValues = get_or spec_GlobalValues None"
definition HelmAppSpec_GetRepo :: "HelmAppSpec option \<Rightarrow> HelmRepo option" where
  "HelmAppSpec_GetRepo = get_or spec_Repo None"

definition HelmComponent_GetName :: "HelmComponent option \<Rightarrow> string" where
  "HelmComponent_GetName = get_or hc_Name []"
definition HelmComponent_GetChart :: "HelmComponent option \<Rightarrow> string" where
  "HelmComponent_GetChart = get_or hc_Chart []"
definition HelmComponent_GetVersion :: "HelmComponent option \<Rightarrow> string" where
  "HelmComponent_GetVersion = get_or hc_Version []"
definition HelmComponent_GetComponentValues :: "HelmComponent option \<Rightarrow> pstruct option" where
  "HelmComponent_GetComponentValues = get_or hc_ComponentValues None"
definition HelmComponent_GetRepo :: "HelmComponent option \<Rightarrow> HelmRepo option" where
  "HelmComponent_GetRepo = get_or hc_Repo None"
definition HelmComponent_GetIgnoreGlobalValues :: "HelmComponent option \<Rightarrow> bool" where
  "HelmComponent_GetIgnoreGlobalValues = get_or hc_IgnoreGlobalValues False"

definition HelmRepo_GetName :: "HelmRepo option \<Rightarrow> string" where
  "HelmRepo_GetName = get_or repo_Name []"
definition HelmRepo_GetUrl :: "HelmRepo option \<Rightarrow> string" where
  "HelmRepo_GetUrl = get_or repo_Url []"

definition HelmAppStatus_GetPhase :: "HelmAppStatus option \<Rightarrow> Phase" where
  "HelmAppStatus_GetPhase = get_or st_Phase Phase_UNKNOWN"
definition HelmAppStatus_GetComponents :: "HelmAppStatus option \<Rightarrow> HelmComponentStatus list" where
  "HelmAppStatus_GetComponents = get_or st_Components []"

definition HelmComponentStatus_GetName :: "HelmComponentStatus option \<Rightarrow> string" where
  "HelmComponentStatus_GetName = get_or hs_Name []"
definition HelmComponentStatus_GetStatus :: "HelmComponentStatus option \<Rightarrow> string" where
  "HelmComponentStatus_GetStatus = get_or hs_Status []"
definition HelmComponentStatus_GetMessage :: "HelmComponentStatus option \<Rightarrow> string" where
  "HelmComponentStatus_GetMessage = get_or hs_Message []"
definition HelmComponentStatus_GetVersion :: "HelmComponentStatus option \<Rightarrow> string" where
  "HelmComponentStatus_GetVersion = get_or hs_Version []"
definition HelmComponentStatus_GetResources ::
    "HelmComponentStatus option \<Rightarrow> HelmResourceStatus list" where
  "HelmComponentStatus_GetResources = get_or hs_Resources []"
definition HelmComponentStatus_GetResourcesTotal :: "HelmComponentStatus option \<Rightarrow> 32 word" where
  "HelmComponentStatus_GetResourcesTotal = get_or hs_ResourcesTotal 0"

definition HelmResourceStatus_GetApiVersion :: "HelmResourceStatus option \<Rightarrow> string" where
  "HelmResourceStatus_GetApiVersion = get_or hr_ApiVersion []"
definition HelmResourceStatus_GetKind :: "HelmResourceStatus option \<Rightarrow> string" where
  "HelmResourceStatus_GetKind = get_or hr_Kind []"
definition HelmResourceStatus_GetName :: "HelmResourceStatus option \<Rightarrow> string" where
  "HelmResourceStatus_GetName = get_or hr_Name []"
definition HelmResourceStatus_GetNamespace :: "HelmResourceStatus option \<Rightarrow> string" where
  "HelmResourceStatus_GetNamespace = get_or hr_Namespace []"

lemmas accessor_defs [record_simps] =
  HelmComponent_GetName_def HelmComponentStatus_GetStatus_def HelmAppStatus_GetComponents_def
  HelmAppSpec_GetComponents_def HelmAppSpec_GetRepo_def HelmRepo_GetUrl_def

section \<open>Constants of internal/pkg/constants\<close>

definition HelmAppFinalizer :: string where "HelmAppFinalizer = ''helmapp.pluma.io/finalizer''"
definition IOPFinalizer :: string where "IOPFinalizer = ''iop.pluma.io/finalizer''"
definition ManagedLabel :: string where "ManagedLabel = ''pluma.io/managed''"
definition ManagedLabelValue :: string where "ManagedLabelValue = ''pluma-operator''"

text \<open>The operator manages a HelmApp that carries its label.\<close>

definition managed :: "ObjectMeta \<Rightarrow> bool" where
  "managed m \<longleftrightarrow> om_Labels m \<noteq> None \<and> label_of m ManagedLabel = Some ManagedLabelValue"

section \<open>The phase names\<close>

text \<open>The generated tables name the phases without loss: every phase has a name, reading the name back
  gives its number, and no two phases share a number.\<close>

theorem phase_name_roundtrip:
  "map_option Phase_value (Phase_name (Phase_Number p)) = Some (Some (Phase_Number p)) \<and>
   (Phase_Number p = Phase_Number q \<longleftrightarrow> p = q)"
  by (cases p; cases q) (simp_all add: Phase_name_def Phase_value_def)

end
