(* ===== verification/Externals.thy ===== *)
theory Externals
  imports API_Types
begin

text \<open>
  The outside world: everything the operator calls that is not part of the repository.

  \<^item> Data of other modules, cut down to the fields the operator reads: the IstioOperator resource,
    a Helm release, a resource of a parsed manifest.
  \<^item> \<open>event\<close>: one constructor per external call that can observe or change the world. A trace is
    the list of calls made so far.
  \<^item> \<open>kube_api\<close>, \<open>helm_api\<close>, \<open>lib_api\<close>: the responses. Each response of a call is a function of the
    trace before the call and of the call's arguments, and is arbitrary otherwise. The model's
    definitions take these records as arguments; what a theorem needs of them is a hypothesis.
\<close>

section \<open>Resources of other modules\<close>

text \<open>
  The part of istio.io/istio IstioOperator that internal/istio/iop.go reads. A message the
  operator only passes on (affinity, resources) is opaque. \<open>BoolValue\<close> wrappers are optional
  booleans.
\<close>

type_synonym message = string

record k8s_spec =
  k8s_Affinity :: "message option"
  k8s_Resources :: "message option"

record component_spec =
  ic_Enabled :: "bool option"
  ic_K8S :: "k8s_spec option"

record gateway_spec =
  gw_Enabled :: "bool option"
  gw_Name :: string
  gw_K8S :: "k8s_spec option"

record component_set =
  ics_Base :: "component_spec option"
  ics_Pilot :: "component_spec option"
  ics_IngressGateways :: "gateway_spec list"
  ics_EgressGateways :: "gateway_spec list"
  ics_Cni :: "component_spec option"
  ics_Ztunnel :: "component_spec option"

record iop_spec =
  is_Profile :: string
  is_Tag :: "pvalue option"
  is_Components :: "component_set option"
  is_MeshConfig :: "pstruct option"
  is_Values :: "pstruct option"

record IstioOperator =
  iop_Meta :: ObjectMeta
  iop_Spec :: "iop_spec option"

text \<open>
  A Helm release: its revision, the string of \<open>Info.Status\<close> (\<open>None\<close> when \<open>Info\<close> is nil), the
  version of its chart (\<open>None\<close> when \<open>Chart\<close> or \<open>Chart.Metadata\<close> is nil), its values and manifest.
\<close>

record release =
  rel_Version :: int
  rel_Status :: "string option"
  rel_ChartVersion :: "string option"
  rel_Config :: gomap
  rel_Manifest :: string

record resource_info =
  ri_ApiVersion :: string
  ri_Kind :: string
  ri_Name :: string
  ri_Namespace :: string

text \<open>The settings of the install and upgrade actions, and of the chart lookup.\<close>

record chart_action =
  ca_Namespace :: string
  ca_ReleaseName :: string
  ca_Version :: string
  ca_RepoURL :: string

section \<open>Errors\<close>

text \<open>
  An API error is \<open>NotFound\<close> when \<open>apierrors.IsNotFound\<close> holds of it; a Helm error is
  \<open>ReleaseNotFound\<close> when \<open>errors.Is(err, driver.ErrReleaseNotFound)\<close> holds of it. Both carry the
  text of the error.
\<close>

datatype kube_error = NotFound string | KubeError string

datatype helm_error = ReleaseNotFound string | HelmError string

fun kube_text :: "kube_error \<Rightarrow> string" where
  "kube_text (NotFound s) = s"
| "kube_text (KubeError s) = s"

fun helm_text :: "helm_error \<Rightarrow> string" where
  "helm_text (ReleaseNotFound s) = s"
| "helm_text (HelmError s) = s"

text \<open>\<open>client.IgnoreNotFound\<close>\<close>

fun IgnoreNotFound :: "kube_error \<Rightarrow> string option" where
  "IgnoreNotFound (NotFound s) = None"
| "IgnoreNotFound (KubeError s) = Some s"

section \<open>Events\<close>

type_synonym key = "string \<times> string"

datatype event =
    GetHelmApp key
  | UpdateHelmApp HelmApp
  | UpdateHelmAppStatus HelmApp
  | CreateHelmApp HelmApp
  | DeleteHelmApp HelmApp
  | GetIOP key
  | UpdateIOP IstioOperator
  | ReadFile string
  | NewRegistryClient
  | HelmInit string
  | LocateChart chart_action string
  | LoadChart string
  | HelmHistory string
  | HelmInstall chart_action string gomap
  | HelmUpgrade chart_action string string gomap
  | HelmGet string
  | HelmUninstall string
  | ParseManifest string

type_synonym trace = "event list"

text \<open>Events that change a Helm release, and events that change an object of the API server.\<close>

fun helm_write :: "event \<Rightarrow> bool" where
  "helm_write (HelmInstall a c v) = True"
| "helm_write (HelmUpgrade a n c v) = True"
| "helm_write (HelmUninstall n) = True"
| "helm_write _ = False"

fun kube_write :: "event \<Rightarrow> bool" where
  "kube_write (UpdateHelmApp a) = True"
| "kube_write (UpdateHelmAppStatus a) = True"
| "kube_write (CreateHelmApp a) = True"
| "kube_write (DeleteHelmApp a) = True"
| "kube_write (UpdateIOP i) = True"
| "kube_write _ = False"

text \<open>The release an event is about.\<close>

fun release_of :: "event \<Rightarrow> string option" where
  "release_of (HelmHistory n) = Some n"
| "release_of (HelmInstall a c v) = Some (ca_ReleaseName a)"
| "release_of (HelmUpgrade a n c v) = Some n"
| "release_of (HelmGet n) = Some n"
| "release_of (HelmUninstall n) = Some n"
| "release_of _ = None"

section \<open>Responses\<close>

text \<open>
  sigs.k8s.io/controller-runtime: the client (an update decodes the server's answer into the object
  it was given) and the helpers of controllerutil on a finalizer list.
\<close>

record kube_api =
  k_GetHelmApp :: "trace \<Rightarrow> key \<Rightarrow> kube_error + HelmApp"
  k_UpdateHelmApp :: "trace \<Rightarrow> HelmApp \<Rightarrow> kube_error + HelmApp"
  k_UpdateHelmAppStatus :: "trace \<Rightarrow> HelmApp \<Rightarrow> kube_error + HelmApp"
  k_CreateHelmApp :: "trace \<Rightarrow> HelmApp \<Rightarrow> kube_error + HelmApp"
  k_DeleteHelmApp :: "trace \<Rightarrow> HelmApp \<Rightarrow> kube_error option"
  k_GetIOP :: "trace \<Rightarrow> key \<Rightarrow> kube_error + IstioOperator"
  k_UpdateIOP :: "trace \<Rightarrow> IstioOperator \<Rightarrow> kube_error + IstioOperator"
  k_ContainsFinalizer :: "string list \<Rightarrow> string \<Rightarrow> bool"
  k_AddFinalizer :: "string list \<Rightarrow> string \<Rightarrow> string list"
  k_RemoveFinalizer :: "string list \<Rightarrow> string \<Rightarrow> string list"

text \<open>The documented behaviour of the controllerutil helpers.\<close>

definition finalizer_laws :: "kube_api \<Rightarrow> bool" where
  "finalizer_laws K \<longleftrightarrow>
     (\<forall>fs f. k_ContainsFinalizer K fs f \<longleftrightarrow> f \<in> set fs) \<and>
     (\<forall>fs f. set (k_AddFinalizer K fs f) = insert f (set fs)) \<and>
     (\<forall>fs f. set (k_RemoveFinalizer K fs f) = set fs - {f})"

text \<open>
  helm.sh/helm/v3 (actions, chart loader, registry client) and the manifest parser of cli-runtime.
  An install or upgrade may return a release together with an error.
\<close>

record helm_api =
  h_NewRegistryClient :: "trace \<Rightarrow> string option"
  h_Init :: "trace \<Rightarrow> string \<Rightarrow> string option"
  h_LocateChart :: "trace \<Rightarrow> chart_action \<Rightarrow> string \<Rightarrow> string + string"
  h_Load :: "trace \<Rightarrow> string \<Rightarrow> string + string"
  h_History :: "trace \<Rightarrow> string \<Rightarrow> helm_error + release list"
  h_Install :: "trace \<Rightarrow> chart_action \<Rightarrow> string \<Rightarrow> gomap \<Rightarrow> release option \<times> string option"
  h_Upgrade :: "trace \<Rightarrow> chart_action \<Rightarrow> string \<Rightarrow> string \<Rightarrow> gomap \<Rightarrow> release option \<times> string option"
  h_Get :: "trace \<Rightarrow> string \<Rightarrow> release option \<times> helm_error option"
  h_Uninstall :: "trace \<Rightarrow> string \<Rightarrow> helm_error option"
  h_Infos :: "trace \<Rightarrow> string \<Rightarrow> string + resource_info list"

text \<open>Helm's names of the release states the operator looks at.\<close>

definition StatusFailed :: string where "StatusFailed = ''failed''"
definition StatusDeployed :: string where "StatusDeployed = ''deployed''"

text \<open>
  Libraries without access to the cluster: structpb (\<open>Struct.AsMap\<close>, \<open>NewStruct\<close>), go-multierror
  (the text of a list of errors), JSON, YAML, mergo, the file system, and the comparison of two
  Structs and of the private fields of two specs that \<open>reflect.DeepEqual\<close> includes.
\<close>

datatype any_message = MeshConfigMsg pstruct | AffinityMsg message | ResourcesMsg message

record lib_api =
  l_AsMap :: "pstruct option \<Rightarrow> gomap"
  l_NewStruct :: "gomap \<Rightarrow> string + pstruct"
  l_multierror_text :: "string list \<Rightarrow> string"
  l_json_Marshal :: "any_message \<Rightarrow> string + string"
  l_json_Unmarshal :: "string \<Rightarrow> string + gomap"
  l_ReadFile :: "trace \<Rightarrow> string \<Rightarrow> string + string"
  l_yaml_Unmarshal :: "string \<Rightarrow> string + IstioOperator"
  l_mergo_Merge :: "IstioOperator \<Rightarrow> IstioOperator \<Rightarrow> string + IstioOperator"
  l_Struct_DeepEqual :: "pstruct option \<Rightarrow> pstruct option \<Rightarrow> bool"
  l_private_DeepEqual :: "HelmAppSpec \<Rightarrow> HelmAppSpec \<Rightarrow> bool"

text \<open>
  What the operator relies on: \<open>AsMap\<close> always allocates a map, and its keys are unique as in any Go
  map.
\<close>

definition AsMap_laws :: "lib_api \<Rightarrow> bool" where
  "AsMap_laws L \<longleftrightarrow> (\<forall>s. l_AsMap L s \<noteq> None \<and> wf_gomap (l_AsMap L s))"

text \<open>\<open>structpb.NewStruct\<close> returns an error for a map that holds a Go value it does not know.\<close>

definition NewStruct_laws :: "lib_api \<Rightarrow> bool" where
  "NewStruct_laws L \<longleftrightarrow> (\<forall>es. \<not> json_entries es \<longrightarrow> (\<exists>e. l_NewStruct L (Some es) = Inl e))"

section \<open>The result of a reconcile\<close>

record ctrl_result =
  cr_Requeue :: bool
  cr_RequeueAfter :: int

definition Second :: int where "Second = 1000000000"

definition no_requeue :: ctrl_result where
  "no_requeue = \<lparr>cr_Requeue = False, cr_RequeueAfter = 0\<rparr>"

definition requeue_after :: "int \<Rightarrow> ctrl_result" where
  "requeue_after d = \<lparr>cr_Requeue = False, cr_RequeueAfter = d\<rparr>"

type_synonym 'a act = "(event, 'a) prog"
type_synonym reconcile_result = "(ctrl_result \<times> string option) outcome"

end
