(* ===== verification/Merge_Values.thy ===== *)
theory Merge_Values
  imports Go_Values
begin

text \<open>
  \<open>MergeValues\<close> of internal/controller/helmapp.go: the Helm values of a component are the global
  values overridden, key by key and at every depth, by the component's own values.

  \<^item> \<open>MergeValues\<close> and \<open>merge_loop\<close> follow the two \<open>range\<close> loops of the code.
  \<^item> \<open>amerge\<close> is the specification, on maps as functions; \<open>abs_MergeValues_eq\<close> shows that the code
    refines it, so the result does not depend on the order Go visits map entries in.
  \<^item> \<open>path_get\<close> reads a value at a path of keys; the path lemmas state the precedence of the
    component's values.
\<close>

section \<open>The code\<close>

lemma size_gentries: "size_list (\<lambda>p. size (snd p)) (gentries m) \<le>
    size_option (size_list (size_prod (\<lambda>_. 0) size)) m"
proof (cases m)
  case (Some es)
  have "size_list (\<lambda>p. size (snd p)) es \<le> size_list (size_prod (\<lambda>_. 0) size) es"
    by (rule size_list_pointwise) (auto split: prod.splits)
  with Some show ?thesis by simp
qed simp

function (sequential) MergeValues :: "gomap \<Rightarrow> gomap \<Rightarrow> gomap"
  and merge_loop :: "(string \<times> gval) list \<Rightarrow> (string \<times> gval) list \<Rightarrow> (string \<times> gval) list" where
  "MergeValues a b =
     Some (merge_loop (fold (\<lambda>(k, v). AList.update k v) (gentries a) []) (gentries b))"
| "merge_loop out [] = out"
| "merge_loop out ((k, VMap v) # es) =
     (case map_of out k of
        Some (VMap bv) \<Rightarrow> merge_loop (AList.update k (VMap (MergeValues bv v)) out) es
      | _ \<Rightarrow> merge_loop (AList.update k (VMap v) out) es)"
| "merge_loop out ((k, v) # es) = merge_loop (AList.update k v out) es"
  by pat_completeness auto

termination
  by (relation "measure (case_sum (\<lambda>(a, b). Suc (size_list (\<lambda>p. size (snd p)) (gentries b)))
      (\<lambda>(out, es). size_list (\<lambda>p. size (snd p)) es))")
     (auto intro!: le_imp_less_Suc trans_le_add1 size_gentries)

text \<open>The value stored for one key of the second map.\<close>

definition merge_entry :: "gval option \<Rightarrow> gval \<Rightarrow> gval" where
  "merge_entry old v = (case v of VMap m \<Rightarrow>
      (case old of Some (VMap bm) \<Rightarrow> VMap (MergeValues bm m) | _ \<Rightarrow> v) | _ \<Rightarrow> v)"

lemma merge_loop_Cons:
  "merge_loop out ((k, v) # es) =
   merge_loop (AList.update k (merge_entry (map_of out k) v) out) es"
  by (cases v) (auto simp: merge_entry_def split: option.splits gval.splits)

declare merge_loop.simps(2,3) [simp del] MergeValues.simps [simp del]
lemmas merge_loop_simps [simp] = merge_loop.simps(1) merge_loop_Cons

lemma MergeValues_not_nil: "MergeValues a b \<noteq> None"
  by (simp add: MergeValues.simps)

section \<open>What one key of the result holds\<close>

lemma lookup_merge_loop:
  "distinct (map fst es) \<Longrightarrow> map_of (merge_loop out es) k =
   (case map_of es k of None \<Rightarrow> map_of out k | Some v \<Rightarrow> Some (merge_entry (map_of out k) v))"
proof (induction es arbitrary: out)
  case Nil
  show ?case by simp
next
  case (Cons e es)
  obtain l v where e: "e = (l, v)" by fastforce
  have "map_of es l = None" using Cons.prems e by (auto simp: map_of_eq_None_iff)
  with Cons e show ?case
    by (auto simp: entries.lookup_store split: option.splits)
qed

lemma gget_MergeValues:
  assumes "wf_gomap a" and "wf_gomap b"
  shows "gget (MergeValues a b) k =
    (case gget b k of None \<Rightarrow> gget a k | Some v \<Rightarrow> Some (merge_entry (gget a k) v))"
proof -
  have "distinct (map fst (gentries a))" "distinct (map fst (gentries b))"
    using assms by (auto simp: wf_gomap_def wf_entries_iff)
  then show ?thesis
    by (simp add: gget_def MergeValues.simps lookup_merge_loop entries.copy_lookup
        split: option.splits)
qed

lemma dom_gget_MergeValues:
  "wf_gomap a \<Longrightarrow> wf_gomap b \<Longrightarrow>
   dom (gget (MergeValues a b)) = dom (gget a) \<union> dom (gget b)"
  by (auto simp: dom_def gget_MergeValues split: option.splits)

subsection \<open>Merging keeps keys unique\<close>

lemma wf_entries_update:
  "wf_entries es \<Longrightarrow> wf_gval v \<Longrightarrow> wf_entries (AList.update k v es)"
proof (induction es)
  case (Cons e es)
  then show ?case by (cases e) (auto simp: dom_update)
qed simp

lemma wf_copy: "wf_entries es \<Longrightarrow> wf_entries out \<Longrightarrow>
    wf_entries (fold (\<lambda>(k, v). AList.update k v) es out)"
  by (induction es arbitrary: out) (auto simp: wf_entries_update)

lemma wf_gget: "wf_gomap m \<Longrightarrow> gget m k = Some v \<Longrightarrow> wf_gval v"
  by (simp add: gget_def wf_gomap_def wf_map_of)

lemma merge_entry_cases:
  obtains (keep) "\<not> (\<exists>bm m. old = Some (VMap bm) \<and> v = VMap m)" "merge_entry old v = v"
  | (deep) bm m where "old = Some (VMap bm)" "v = VMap m"
      "merge_entry old v = VMap (MergeValues bm m)"
proof (cases "\<exists>bm m. old = Some (VMap bm) \<and> v = VMap m")
  case True
  then show ?thesis using deep by (auto simp: merge_entry_def)
next
  case False
  moreover from False have "merge_entry old v = v"
    by (auto simp: merge_entry_def split: gval.splits option.splits)
  ultimately show ?thesis by (rule keep)
qed

text \<open>Induction over the maps nested in a value.\<close>

lemma gval_map_induct [case_names step]:
  assumes step: "\<And>v. (\<And>m k w. v = VMap m \<Longrightarrow> (k, w) \<in> set (gentries m) \<Longrightarrow> P w) \<Longrightarrow> P v"
  shows "P v"
proof (induction v rule: gval.induct)
  case (VMap x)
  show ?case
  proof (rule step)
    fix m k w
    assume "VMap x = VMap m" and kw: "(k, w) \<in> set (gentries m)"
    then have m: "m = x" by simp
    show "P w"
      by (cases x) (use kw m VMap in \<open>auto simp: snds.simps\<close>)
  qed
qed (rule step, simp)+

lemma wf_merge_loop:
  assumes "\<And>k v old. (k, v) \<in> set es \<Longrightarrow> (\<And>w. old = Some w \<Longrightarrow> wf_gval w) \<Longrightarrow>
      wf_gval (merge_entry old v)"
    and "wf_entries out"
  shows "wf_entries (merge_loop out es)"
  using assms
proof (induction es arbitrary: out)
  case (Cons e es)
  obtain k v where e: "e = (k, v)" by fastforce
  have "wf_gval (merge_entry (map_of out k) v)"
    by (rule Cons.prems(1) [of k]) (use e Cons.prems(2) wf_map_of in auto)
  moreover have "wf_gval (merge_entry old w)"
    if "(l, w) \<in> set es" "\<And>u. old = Some u \<Longrightarrow> wf_gval u" for l w old
    using that by (intro Cons.prems(1)) auto
  ultimately show ?case
    using Cons.IH Cons.prems(2) e by (simp add: wf_entries_update)
qed simp

lemma wf_merge_entry:
  "wf_gval v \<Longrightarrow> (\<And>w. old = Some w \<Longrightarrow> wf_gval w) \<Longrightarrow> wf_gval (merge_entry old v)"
proof (induction v arbitrary: old rule: gval_map_induct)
  case (step v)
  show ?case
  proof (cases old v rule: merge_entry_cases)
    case keep
    with step.prems show ?thesis by simp
  next
    case (deep bm m)
    have "wf_entries (merge_loop (fold (\<lambda>(k, v). AList.update k v) (gentries bm) []) (gentries m))"
    proof (rule wf_merge_loop)
      show "wf_gval (merge_entry old' w)"
        if "(k, w) \<in> set (gentries m)" "\<And>u. old' = Some u \<Longrightarrow> wf_gval u" for k w old'
        using step.IH [OF deep(2) that(1)] that step.prems(1) deep(2)
        by (auto simp: wf_gomap_def wf_entries_iff)
    qed (use step.prems(2) deep(1) in \<open>simp add: wf_copy wf_gomap_def\<close>)
    with deep show ?thesis by (simp add: MergeValues.simps)
  qed
qed

lemma wf_MergeValues: "wf_gomap a \<Longrightarrow> wf_gomap b \<Longrightarrow> wf_gomap (MergeValues a b)"
  using wf_merge_entry [of "VMap b" "Some (VMap a)"] by (simp add: merge_entry_def)

section \<open>The specification: overriding functions at every depth\<close>

type_synonym amap = "(string \<Rightarrow> aval option) option"

definition acontent :: "amap \<Rightarrow> string \<Rightarrow> aval option" where
  "acontent m k = (case m of None \<Rightarrow> None | Some f \<Rightarrow> f k)"

primrec amerge_value :: "aval \<Rightarrow> aval option \<Rightarrow> aval" where
  "amerge_value ANil old = ANil"
| "amerge_value (ABool b) old = ABool b"
| "amerge_value (ANum n) old = ANum n"
| "amerge_value (AStr s) old = AStr s"
| "amerge_value (AList vs) old = AList vs"
| "amerge_value (AMap m) old =
     (case old of
        Some (AMap bm) \<Rightarrow> AMap (Some (\<lambda>k.
          case map_option (\<lambda>f. map_option amerge_value \<circ> f) m of
            None \<Rightarrow> acontent bm k
          | Some g \<Rightarrow> (case g k of None \<Rightarrow> acontent bm k | Some h \<Rightarrow> Some (h (acontent bm k)))))
      | _ \<Rightarrow> AMap m)"
| "amerge_value (AOpaque p) old = AOpaque p"

definition amerge :: "amap \<Rightarrow> amap \<Rightarrow> amap" where
  "amerge a b = Some (\<lambda>k. case acontent b k of
      None \<Rightarrow> acontent a k | Some v \<Rightarrow> Some (amerge_value v (acontent a k)))"

lemma amerge_value_map: "amerge_value (AMap m) (Some (AMap bm)) = AMap (amerge bm m)"
  by (cases m) (auto simp: amerge_def acontent_def fun_eq_iff split: option.splits)

lemma abs_gval_AMap: "abs_gval v = AMap m \<longleftrightarrow> (\<exists>n. v = VMap n \<and> m = map_option abs_entries n)"
  by (cases v) auto

lemma amerge_value_keep:
  "\<not> (\<exists>bm m. old = Some (AMap bm) \<and> v = AMap m) \<Longrightarrow> amerge_value v old = v"
  by (cases v) (auto split: option.splits aval.splits)

declare amerge_value.simps(6) [simp del]

abbreviation abs_gomap :: "gomap \<Rightarrow> amap" where
  "abs_gomap m \<equiv> map_option abs_entries m"

lemma acontent_abs: "acontent (abs_gomap m) k = map_option abs_gval (gget m k)"
  by (cases m) (simp_all add: acontent_def gget_def abs_entries_map_of)

lemma abs_gomap_eqI:
  assumes "m \<noteq> None" and "\<And>k. map_option abs_gval (gget m k) = f k"
  shows "abs_gomap m = Some f"
  using assms by (cases m) (auto simp: fun_eq_iff gget_def abs_entries_map_of)

lemma abs_merge_entry:
  "wf_gval v \<Longrightarrow> (\<And>w. old = Some w \<Longrightarrow> wf_gval w) \<Longrightarrow>
   abs_gval (merge_entry old v) = amerge_value (abs_gval v) (map_option abs_gval old)"
proof (induction v arbitrary: old rule: gval_map_induct)
  case (step v)
  show ?case
  proof (cases old v rule: merge_entry_cases)
    case keep
    then have "amerge_value (abs_gval v) (map_option abs_gval old) = abs_gval v"
      by (intro amerge_value_keep) (auto simp: abs_gval_AMap)
    with keep show ?thesis by simp
  next
    case (deep bm m)
    have wf: "wf_gomap bm" "wf_gomap m" using step.prems deep by auto
    have "abs_gomap (MergeValues bm m) = amerge (abs_gomap bm) (abs_gomap m)"
      unfolding amerge_def
    proof (rule abs_gomap_eqI [OF MergeValues_not_nil])
      fix k
      show "map_option abs_gval (gget (MergeValues bm m) k) =
        (case acontent (abs_gomap m) k of None \<Rightarrow> acontent (abs_gomap bm) k
         | Some w \<Rightarrow> Some (amerge_value w (acontent (abs_gomap bm) k)))"
      proof (cases "gget m k")
        case None
        then show ?thesis by (simp add: gget_MergeValues wf acontent_abs)
      next
        case (Some w)
        then have "(k, w) \<in> set (gentries m)" by (simp add: gget_def map_of_SomeD)
        then have "abs_gval (merge_entry (gget bm k) w) =
            amerge_value (abs_gval w) (map_option abs_gval (gget bm k))"
          by (rule step.IH [OF deep(2)]) (use wf Some in \<open>auto intro: wf_gget\<close>)
        with Some show ?thesis by (simp add: gget_MergeValues wf acontent_abs)
      qed
    qed
    with deep show ?thesis by (simp add: amerge_value_map)
  qed
qed

lemma abs_MergeValues_eq:
  "wf_gomap a \<Longrightarrow> wf_gomap b \<Longrightarrow>
   abs_gomap (MergeValues a b) = amerge (abs_gomap a) (abs_gomap b)"
  using abs_merge_entry [of "VMap b" "Some (VMap a)"]
  by (simp add: merge_entry_def amerge_value_map del: map_option_eq_Some)

section \<open>Numbers are carried over unchanged\<close>

lemma plain_entries_iff: "plain_entries es \<longleftrightarrow> (\<forall>(k, v) \<in> set es. plain_gval v)"
  by (induction es) auto

lemma gget_entry: "wf_gomap m \<Longrightarrow> (k, v) \<in> set (gentries m) \<Longrightarrow> gget m k = Some v"
  by (simp add: gget_def wf_gomap_def wf_entries_iff)

lemma plain_gget: "plain_gomap m \<Longrightarrow> gget m k = Some v \<Longrightarrow> plain_gval v"
  by (simp add: gget_def plain_gomap_def plain_map_of)

text \<open>A property of values that holds of a map when it holds of all its entries is kept by merging.\<close>

lemma merge_entry_hereditary:
  assumes Q: "\<And>m. Q (VMap m) \<longleftrightarrow> (\<forall>(k, w) \<in> set (gentries m). Q w)"
  shows "wf_gval v \<Longrightarrow> (\<And>w. old = Some w \<Longrightarrow> wf_gval w \<and> Q w) \<Longrightarrow> Q v \<Longrightarrow> Q (merge_entry old v)"
proof (induction v arbitrary: old rule: gval_map_induct)
  case (step v)
  have entry: "Q w" if "Q (VMap m)" "gget m k = Some w" for m k w
    using that Q by (auto simp: gget_def dest: map_of_SomeD)
  show ?case
  proof (cases old v rule: merge_entry_cases)
    case keep
    with step.prems show ?thesis by simp
  next
    case (deep bm m)
    have ok: "wf_gomap bm" "wf_gomap m" "Q (VMap bm)" "Q (VMap m)" using step.prems deep by auto
    have "Q w" if "gget (MergeValues bm m) k = Some w" for k w
    proof (cases "gget m k")
      case None
      with that ok show ?thesis by (simp add: gget_MergeValues entry)
    next
      case (Some u)
      then have "(k, u) \<in> set (gentries m)" by (simp add: gget_def map_of_SomeD)
      then have "Q (merge_entry (gget bm k) u)"
        by (rule step.IH [OF deep(2)]) (use ok Some in \<open>auto intro: wf_gget entry\<close>)
      with that Some ok show ?thesis by (simp add: gget_MergeValues)
    qed
    moreover have "wf_gomap (MergeValues bm m)" using ok by (simp add: wf_MergeValues)
    ultimately have "Q (VMap (MergeValues bm m))" unfolding Q by (auto dest: gget_entry)
    with deep show ?thesis by simp
  qed
qed

lemma MergeValues_hereditary:
  assumes "\<And>m. Q (VMap m) \<longleftrightarrow> (\<forall>(k, w) \<in> set (gentries m). Q w)"
    and "wf_gomap a" and "wf_gomap b" and "Q (VMap a)" and "Q (VMap b)"
  shows "Q (VMap (MergeValues a b))"
proof -
  have "Q (merge_entry (Some (VMap a)) (VMap b))"
    by (rule merge_entry_hereditary [of Q, OF assms(1)]) (use assms(2-5) in auto)
  then show ?thesis by (simp only: merge_entry_def gval.case option.case)
qed

lemma plain_MergeValues:
  "wf_gomap a \<Longrightarrow> wf_gomap b \<Longrightarrow> plain_gomap a \<Longrightarrow> plain_gomap b \<Longrightarrow>
   plain_gomap (MergeValues a b)"
  using MergeValues_hereditary [of plain_gval a b] by (simp add: plain_gomap_def plain_entries_iff)

lemma json_VMap: "json_gval (VMap m) \<longleftrightarrow> json_entries (gentries m)"
  by (cases m) simp_all

lemma json_MergeValues:
  "wf_gomap a \<Longrightarrow> wf_gomap b \<Longrightarrow> json_entries (gentries a) \<Longrightarrow> json_entries (gentries b) \<Longrightarrow>
   json_entries (gentries (MergeValues a b))"
  using MergeValues_hereditary [of json_gval a b] by (simp add: json_VMap json_entries_iff)

lemma gomap_deep_equal_abs:
  "wf_gomap a \<Longrightarrow> wf_gomap b \<Longrightarrow> plain_gomap a \<Longrightarrow> plain_gomap b \<Longrightarrow>
   gomap_deep_equal a b \<longleftrightarrow> abs_gomap a = abs_gomap b"
  unfolding gomap_deep_equal_def
  using deep_equal_abs_ind(1) [of "VMap a" "VMap b"] by simp

section \<open>Values at a path of keys\<close>

fun path_get :: "gomap \<Rightarrow> string list \<Rightarrow> gval option" where
  "path_get m [] = Some (VMap m)"
| "path_get m [k] = gget m k"
| "path_get m (k # ks) = (case gget m k of Some (VMap n) \<Rightarrow> path_get n ks | _ \<Rightarrow> None)"

text \<open>A path the map says nothing about: it leaves the map at a key that is absent.\<close>

fun path_silent :: "gomap \<Rightarrow> string list \<Rightarrow> bool" where
  "path_silent m [] = False"
| "path_silent m (k # ks) =
     (case gget m k of None \<Rightarrow> True | Some (VMap n) \<Rightarrow> path_silent n ks | Some _ \<Rightarrow> False)"

fun is_map :: "gval \<Rightarrow> bool" where
  "is_map (VMap m) = True"
| "is_map v = False"

lemma merge_entry_leaf: "\<not> is_map v \<Longrightarrow> merge_entry old v = v"
  by (cases v) (simp_all add: merge_entry_def)

lemma path_get_Cons:
  "ks \<noteq> [] \<Longrightarrow> path_get m (k # ks) = (case gget m k of Some (VMap n) \<Rightarrow> path_get n ks | _ \<Rightarrow> None)"
  by (cases ks) (auto split: option.splits gval.splits)

lemma path_silent_None: "path_silent m p \<Longrightarrow> path_get m p = None"
proof (induction m p rule: path_silent.induct)
  case (2 m k ks)
  then show ?case
    by (cases "ks = []") (auto simp: path_get_Cons split: option.splits gval.splits)
qed simp

lemma path_override:
  "wf_gomap a \<Longrightarrow> wf_gomap b \<Longrightarrow> path_get b p = Some v \<Longrightarrow> \<not> is_map v \<Longrightarrow>
   path_get (MergeValues a b) p = Some v"
proof (induction b p arbitrary: a rule: path_get.induct)
  case (1 m)
  then show ?case by auto
next
  case (2 m k)
  then show ?case by (simp add: gget_MergeValues merge_entry_leaf)
next
  case (3 m k l ks)
  then obtain n where n: "gget m k = Some (VMap n)" and p: "path_get n (l # ks) = Some v"
    by (auto split: option.splits gval.splits)
  have wn: "wf_gomap n" using wf_gget [OF 3(3) n] by simp
  show ?case
  proof (cases "gget a k" "VMap n" rule: merge_entry_cases)
    case keep
    with 3 n p show ?thesis by (simp add: gget_MergeValues)
  next
    case (deep bm m')
    then have "wf_gomap bm" using wf_gget [OF 3(2)] by fastforce
    then have "path_get (MergeValues bm n) (l # ks) = Some v"
      using 3(1) [OF n] wn p 3(5) by blast
    with deep 3 n show ?thesis by (simp add: gget_MergeValues)
  qed
qed

lemma path_fallback:
  "wf_gomap a \<Longrightarrow> wf_gomap b \<Longrightarrow> path_silent b p \<Longrightarrow>
   path_get (MergeValues a b) p = path_get a p"
proof (induction b p arbitrary: a rule: path_silent.induct)
  case (1 m)
  then show ?case by simp
next
  case (2 m k ks)
  show ?case
  proof (cases "gget m k")
    case None
    with 2 show ?thesis by (cases ks) (simp_all add: gget_MergeValues)
  next
    case (Some v)
    with 2 obtain n where v: "v = VMap n" and s: "path_silent n ks"
      by (auto split: gval.splits)
    then have ks: "ks \<noteq> []" by auto
    have wn: "wf_gomap n" using wf_gget [OF 2(3) Some] v by simp
    show ?thesis
    proof (cases "gget a k" v rule: merge_entry_cases)
      case keep
      then have "path_get a (k # ks) = None"
        using v ks by (auto simp: path_get_Cons split: option.splits gval.splits)
      moreover have "path_get n ks = None"
        using s by (rule path_silent_None)
      ultimately show ?thesis using 2 Some keep v ks by (simp add: gget_MergeValues path_get_Cons)
    next
      case (deep bm m')
      then have "wf_gomap bm" using wf_gget [OF 2(2)] by fastforce
      then have "path_get (MergeValues bm n) ks = path_get bm ks"
        using 2(1) [OF Some v] wn s by blast
      with deep 2 Some v ks show ?thesis by (simp add: gget_MergeValues path_get_Cons)
    qed
  qed
qed

section \<open>Properties of \<open>MergeValues\<close>\<close>

text \<open>C3. The two loops of the code compute the specification: the key-wise override of the first map by
  the second, at every depth at which both hold maps.\<close>

theorem MergeValues_refines:
  assumes "wf_gomap a" and "wf_gomap b"
  shows "abs_gomap (MergeValues a b) = amerge (abs_gomap a) (abs_gomap b)"
  using assms by (rule abs_MergeValues_eq)

definition left_values :: gomap where
  "left_values = Some [(''global'', VMap (Some [(''hub'', VStr ''h''), (''tag'', VStr ''1'')])), (''x'', VNum 1)]"

definition right_values :: gomap where
  "right_values = Some [(''y'', VBool True), (''global'', VMap (Some [(''tag'', VStr ''2'')]))]"

theorem MergeValues_refines_witness:
  "abs_gomap (MergeValues left_values right_values) = amerge (abs_gomap left_values) (abs_gomap right_values)"
  by (rule MergeValues_refines) (simp_all add: left_values_def right_values_def)

text \<open>The result has the keys of both maps, each once; a key of the second map holds its value there,
  merged with the first map's when both are maps; every other key keeps its value of the first.\<close>

theorem MergeValues_content:
  assumes "wf_gomap a" and "wf_gomap b"
  shows "wf_gomap (MergeValues a b) \<and>
    dom (gget (MergeValues a b)) = dom (gget a) \<union> dom (gget b) \<and>
    gget (MergeValues a b) k = (case gget b k of
        None \<Rightarrow> gget a k
      | Some (VMap m) \<Rightarrow> (case gget a k of Some (VMap bm) \<Rightarrow> Some (VMap (MergeValues bm m)) | _ \<Rightarrow> Some (VMap m))
      | Some v \<Rightarrow> Some v)"
  using assms
  by (auto simp: wf_MergeValues dom_gget_MergeValues gget_MergeValues merge_entry_def
      split: option.splits gval.splits)

theorem MergeValues_content_witness:
  "gget (MergeValues left_values right_values) ''global'' =
   Some (VMap (Some [(''hub'', VStr ''h''), (''tag'', VStr ''2'')]))"
proof -
  have "wf_gomap left_values" "wf_gomap right_values" by (simp_all add: left_values_def right_values_def)
  from MergeValues_content [OF this, of "''global''"] show ?thesis
    by (simp add: left_values_def right_values_def gget_def MergeValues.simps merge_entry_leaf)
qed


definition turned :: "gomap \<Rightarrow> gomap" where
  "turned m = Some (rev (gentries m))"


end
