(* ===== verification/Sample_World.thy ===== *)
theory Sample_World
  imports Externals
begin

text \<open>
  A concrete outside world, at which the witnesses of the development evaluate its definitions: it
  shows that the hypotheses about external code can hold. \<open>sample_lib\<close> converts between Structs
  and Go maps as the structpb library documents (unique keys, an error for a Go value that is not
  JSON); \<open>sample_kube\<close> accepts and echoes every write; \<open>sample_helm\<close> finds every chart and no
  release, and installs successfully. A witness changes the response it is about.
\<close>

section \<open>Structs and Go maps\<close>

fun to_gval :: "pvalue \<Rightarrow> gval" and to_glist :: "pvalue list \<Rightarrow> gval list"
  and to_entries :: "(string \<times> pvalue) list \<Rightarrow> (string \<times> gval) list" where
  "to_gval NullValue = VNil"
| "to_gval (NumberValue n) = VNum n"
| "to_gval (StringValue s) = VStr s"
| "to_gval (BoolValue b) = VBool b"
| "to_gval (StructValue (Struct fs)) = VMap (Some (to_entries fs))"
| "to_gval (ListValue vs) = VList (to_glist vs)"
| "to_glist [] = []"
| "to_glist (v # vs) = to_gval v # to_glist vs"
| "to_entries [] = []"
| "to_entries ((k, v) # fs) = AList.update k (to_gval v) (to_entries fs)"

definition sample_AsMap :: "pstruct option \<Rightarrow> gomap" where
  "sample_AsMap s = (case s of None \<Rightarrow> Some [] | Some (Struct fs) \<Rightarrow> Some (to_entries fs))"

fun to_pvalue :: "gval \<Rightarrow> string + pvalue" and to_plist :: "gval list \<Rightarrow> string + pvalue list"
  and to_fields :: "(string \<times> gval) list \<Rightarrow> string + (string \<times> pvalue) list" where
  "to_pvalue VNil = Inr NullValue"
| "to_pvalue (VBool b) = Inr (BoolValue b)"
| "to_pvalue (VNum n) = Inr (NumberValue n)"
| "to_pvalue (VStr s) = Inr (StringValue s)"
| "to_pvalue (VList vs) = (case to_plist vs of Inl e \<Rightarrow> Inl e | Inr ps \<Rightarrow> Inr (ListValue ps))"
| "to_pvalue (VMap None) = Inr (StructValue (Struct []))"
| "to_pvalue (VMap (Some es)) =
     (case to_fields es of Inl e \<Rightarrow> Inl e | Inr fs \<Rightarrow> Inr (StructValue (Struct fs)))"
| "to_pvalue (VOpaque p) = Inl (''invalid type: '' @ p)"
| "to_plist [] = Inr []"
| "to_plist (v # vs) = (case to_pvalue v of Inl e \<Rightarrow> Inl e | Inr p \<Rightarrow>
     (case to_plist vs of Inl e \<Rightarrow> Inl e | Inr ps \<Rightarrow> Inr (p # ps)))"
| "to_fields [] = Inr []"
| "to_fields ((k, v) # es) = (case to_pvalue v of Inl e \<Rightarrow> Inl e | Inr p \<Rightarrow>
     (case to_fields es of Inl e \<Rightarrow> Inl e | Inr fs \<Rightarrow> Inr ((k, p) # fs)))"

definition sample_NewStruct :: "gomap \<Rightarrow> string + pstruct" where
  "sample_NewStruct m = map_sum id Struct (to_fields (gentries m))"

lemma wf_entries_upd: "wf_entries es \<Longrightarrow> wf_gval v \<Longrightarrow> wf_entries (AList.update k v es)"
proof (induction es)
  case (Cons e es)
  then show ?case by (cases e) (auto simp: dom_update)
qed simp

lemma wf_to_gval: "wf_gval (to_gval v)" and wf_to_glist: "wf_list (to_glist vs)"
  and wf_to_entries: "wf_entries (to_entries fs)"
  by (induction v and vs and fs rule: to_gval_to_glist_to_entries.induct)
     (auto simp: wf_entries_upd)

section \<open>The three interfaces\<close>

definition sample_meta :: "ObjectMeta" where
  "sample_meta = \<lparr>om_Name = ''demo'', om_Namespace = ''default'', om_ResourceVersion = ''1'',
     om_Labels = None, om_Finalizers = [], om_DeletionTimestamp = None\<rparr>"

definition sample_lib :: lib_api where
  "sample_lib = \<lparr>l_AsMap = sample_AsMap, l_NewStruct = sample_NewStruct,
     l_multierror_text = concat,
     l_json_Marshal = (\<lambda>m. Inr []), l_json_Unmarshal = (\<lambda>s. Inr (Some [])),
     l_ReadFile = (\<lambda>tr p. Inr []),
     l_yaml_Unmarshal = (\<lambda>s. Inr \<lparr>iop_Meta = sample_meta, iop_Spec = None\<rparr>),
     l_mergo_Merge = (\<lambda>dst src. Inr dst),
     l_Struct_DeepEqual = (=), l_private_DeepEqual = (\<lambda>a b. True)\<rparr>"

definition sample_release :: release where
  "sample_release = \<lparr>rel_Version = 1, rel_Status = Some StatusDeployed,
     rel_ChartVersion = Some ''1.0'', rel_Config = Some [], rel_Manifest = ''''\<rparr>"

definition sample_helm :: helm_api where
  "sample_helm = \<lparr>h_NewRegistryClient = (\<lambda>tr. None), h_Init = (\<lambda>tr ns. None),
     h_LocateChart = (\<lambda>tr a c. Inr c), h_Load = (\<lambda>tr p. Inr p),
     h_History = (\<lambda>tr n. Inl (ReleaseNotFound ''release: not found'')),
     h_Install = (\<lambda>tr a c v. (Some sample_release, None)),
     h_Upgrade = (\<lambda>tr a n c v. (Some sample_release, None)),
     h_Get = (\<lambda>tr n. (Some sample_release, None)),
     h_Uninstall = (\<lambda>tr n. None), h_Infos = (\<lambda>tr m. Inr [])\<rparr>"

definition sample_kube :: "(key \<Rightarrow> kube_error + HelmApp) \<Rightarrow> (key \<Rightarrow> kube_error + IstioOperator) \<Rightarrow> kube_api" where
  "sample_kube apps iops = \<lparr>k_GetHelmApp = (\<lambda>tr. apps), k_UpdateHelmApp = (\<lambda>tr a. Inr a),
     k_UpdateHelmAppStatus = (\<lambda>tr a. Inr a), k_CreateHelmApp = (\<lambda>tr a. Inr a),
     k_DeleteHelmApp = (\<lambda>tr a. None), k_GetIOP = (\<lambda>tr. iops), k_UpdateIOP = (\<lambda>tr i. Inr i),
     k_ContainsFinalizer = (\<lambda>fs f. f \<in> set fs),
     k_AddFinalizer = (\<lambda>fs f. if f \<in> set fs then fs else fs @ [f]),
     k_RemoveFinalizer = (\<lambda>fs f. filter (\<lambda>g. g \<noteq> f) fs)\<rparr>"

lemma sample_AsMap_laws: "AsMap_laws sample_lib"
  by (auto simp: AsMap_laws_def sample_lib_def sample_AsMap_def wf_to_entries
      split: option.splits pstruct.splits)

lemma sample_finalizer_laws: "finalizer_laws (sample_kube apps iops)"
  by (auto simp: finalizer_laws_def sample_kube_def)

definition sample_component :: HelmComponent where
  "sample_component = \<lparr>hc_Name = ''demo'', hc_Chart = ''gateway'', hc_Version = ''1.0'',
     hc_ComponentValues = None, hc_Repo = None, hc_IgnoreGlobalValues = False\<rparr>"

definition sample_spec :: HelmAppSpec where
  "sample_spec = \<lparr>spec_Components = Some [sample_component], spec_GlobalValues = None,
     spec_Repo = Some \<lparr>repo_Name = ''istio'', repo_Url = ''https://charts''\<rparr>\<rparr>"

definition sample_app :: HelmApp where
  "sample_app = \<lparr>ha_Meta = sample_meta, ha_Spec = Some sample_spec, ha_Status = None\<rparr>"

lemmas sample_defs = sample_meta_def sample_lib_def sample_release_def sample_helm_def
  sample_kube_def sample_component_def sample_spec_def sample_app_def sample_AsMap_def

lemma sample_NewStruct_rejects:
  "\<not> json_gval v \<Longrightarrow> \<exists>e. to_pvalue v = Inl e" "\<not> json_list vs \<Longrightarrow> \<exists>e. to_plist vs = Inl e"
  "\<not> json_entries es \<Longrightarrow> \<exists>e. to_fields es = Inl e"
  by (induction v and vs and es rule: to_pvalue_to_plist_to_fields.induct)
     (auto split: sum.splits)

lemma sample_NewStruct_laws: "NewStruct_laws sample_lib"
  using sample_NewStruct_rejects(3)
  by (fastforce simp: NewStruct_laws_def sample_lib_def sample_NewStruct_def)

end
