(* ===== verification/Component_Lifecycle.thy ===== *)
theory Component_Lifecycle
  imports Externals Merge_Values Sample_World
begin

text \<open>
  The life of one component, from internal/controller/helmapp.go: one definition per function,
  and one for each part of \<open>reconcileComponent\<close>. The logger is left out. A pointer dereference the
  code does not guard is a branch to \<open>Panicked\<close>.

  \<^item> \<open>calculateOverallPhase\<close>, \<open>hasConfigChanged\<close>: the pure decisions, with their specifications.
  \<^item> \<open>newActionConfiguration\<close>, \<open>init_helm\<close>: the Helm client both handlers start from.
  \<^item> \<open>uninstallComponent\<close>, \<open>reconcileComponent\<close>: one component against Helm. Both are instances of
    the locale \<open>trace_op\<close>: what they do concerns their own component only.
\<close>

section \<open>Constants\<close>

definition failedAfter :: int where "failedAfter = 30 * Second"
definition serverFailedAfter :: int where "serverFailedAfter = 60 * Second"

section \<open>The overall phase\<close>

fun phase_loop :: "HelmComponentStatus list \<Rightarrow> bool \<Rightarrow> bool \<Rightarrow> bool \<times> bool" where
  "phase_loop [] hasFailure allDeployed = (hasFailure, allDeployed)"
| "phase_loop (s # ss) hasFailure allDeployed =
     (if HelmComponentStatus_GetStatus (Some s) = StatusFailed then phase_loop ss True allDeployed
      else if HelmComponentStatus_GetStatus (Some s) = StatusDeployed
        then phase_loop ss hasFailure allDeployed
      else phase_loop ss hasFailure False)"

definition calculateOverallPhase :: "HelmApp \<Rightarrow> HelmComponentStatus list \<Rightarrow> Phase" where
  "calculateOverallPhase app ss =
     (if length ss = 0 then Phase_UNKNOWN
      else if is_deleting (ha_Meta app) then Phase_DELETING
      else let (hasFailure, allDeployed) = phase_loop ss False True in
        if hasFailure then Phase_FAILED
        else if allDeployed then Phase_SUCCEEDED
        else Phase_RECONCILING)"

section \<open>Has the configuration changed?\<close>

definition hasConfigChanged :: "release \<Rightarrow> gomap \<Rightarrow> string \<Rightarrow> bool outcome" where
  "hasConfigChanged rel newValues newVersion =
     (case rel_ChartVersion rel of
        None \<Rightarrow> Panicked
      | Some v \<Rightarrow> if v \<noteq> newVersion then Returned True
          else Returned (\<not> gomap_deep_equal (rel_Config rel) newValues))"

section \<open>Helm client\<close>

definition newActionConfiguration :: "helm_api \<Rightarrow> string option act" where
  "newActionConfiguration H = do {
     err \<leftarrow> call NewRegistryClient (h_NewRegistryClient H);
     State_Monad.return (case err of None \<Rightarrow> None
       | Some m \<Rightarrow> Some (''initializing new helm registry client: '' @ m))
   }"

text \<open>The two calls with which both handlers start; the result is the error they return.\<close>

definition init_helm :: "helm_api \<Rightarrow> string \<Rightarrow> string option act" where
  "init_helm H ns = do {
     err \<leftarrow> newActionConfiguration H;
     case err of
       Some m \<Rightarrow> State_Monad.return (Some (''failed to new Helm action config: '' @ m))
     | None \<Rightarrow> do {
         err \<leftarrow> call (HelmInit ns) (\<lambda>tr. h_Init H tr ns);
         State_Monad.return (case err of None \<Rightarrow> None
           | Some m \<Rightarrow> Some (''failed to initialize Helm action config: '' @ m))
       }
   }"

section \<open>Uninstalling a component\<close>

definition uninstallComponent :: "helm_api \<Rightarrow> string \<Rightarrow> string option act" where
  "uninstallComponent H name = do {
     (cRelease, err) \<leftarrow> call (HelmGet name) (\<lambda>tr. h_Get H tr name);
     case err of
       Some (HelmError m) \<Rightarrow> State_Monad.return (Some m)
     | _ \<Rightarrow>
       if cRelease = None then State_Monad.return None
       else do {
         err \<leftarrow> call (HelmUninstall name) (\<lambda>tr. h_Uninstall H tr name);
         State_Monad.return (case err of
             None \<Rightarrow> None
           | Some (ReleaseNotFound m) \<Rightarrow> None
           | Some (HelmError m) \<Rightarrow> Some m)
       }
   }"

definition uninstall_error :: "string \<Rightarrow> string \<Rightarrow> string" where
  "uninstall_error name err = ''uninstall '' @ name @ '' error: '' @ err"

section \<open>Reconciling a component\<close>

definition component_values :: "lib_api \<Rightarrow> HelmAppSpec \<Rightarrow> HelmComponent \<Rightarrow> gomap" where
  "component_values L spec component =
     (let values = MergeValues (l_AsMap L (spec_GlobalValues spec))
                     (l_AsMap L (hc_ComponentValues component))
      in if hc_IgnoreGlobalValues component then l_AsMap L (hc_ComponentValues component) else values)"

definition unknown_status :: "HelmComponent \<Rightarrow> HelmComponentStatus" where
  "unknown_status component =
     \<lparr>hs_Name = HelmComponent_GetName (Some component), hs_Status = ''unknown'', hs_Message = [],
      hs_Version = ''unknown'', hs_Resources = [], hs_ResourcesTotal = 0\<rparr>"

text \<open>
  The switch on the release history: install when there is none, skip or upgrade when there is one.
  The result is the release, if any, and the errors appended to \<open>mErrs\<close>.
\<close>

definition install_release ::
    "helm_api \<Rightarrow> chart_action \<Rightarrow> string \<Rightarrow> gomap \<Rightarrow> (release option \<times> string list) outcome act" where
  "install_release H action chart values = do {
     (release, err) \<leftarrow> call (HelmInstall action chart values)
       (\<lambda>tr. h_Install H tr action chart values);
     State_Monad.return (Returned (release,
       case err of None \<Rightarrow> [] | Some m \<Rightarrow> [''failed to install release: '' @ m]))
   }"

definition upgrade_release ::
    "helm_api \<Rightarrow> chart_action \<Rightarrow> string \<Rightarrow> string \<Rightarrow> gomap \<Rightarrow>
     (release option \<times> string list) outcome act" where
  "upgrade_release H action name chart values = do {
     (release, err) \<leftarrow> call (HelmUpgrade action name chart values)
       (\<lambda>tr. h_Upgrade H tr action name chart values);
     State_Monad.return (Returned (release,
       case err of None \<Rightarrow> [] | Some m \<Rightarrow> [''failed to upgrade release: '' @ m]))
   }"

definition apply_release ::
    "helm_api \<Rightarrow> HelmApp \<Rightarrow> HelmComponent \<Rightarrow> HelmRepo \<Rightarrow> string \<Rightarrow> gomap \<Rightarrow>
     (release option \<times> string list) outcome act" where
  "apply_release H app component repo chart values = do {
     history \<leftarrow> call (HelmHistory (hc_Name component)) (\<lambda>tr. h_History H tr (hc_Name component));
     case history of
       Inl (ReleaseNotFound m) \<Rightarrow>
         install_release H \<lparr>ca_Namespace = om_Namespace (ha_Meta app), ca_ReleaseName = hc_Name component,
             ca_Version = hc_Version component, ca_RepoURL = repo_Url repo\<rparr> chart values
     | Inl (HelmError m) \<Rightarrow> State_Monad.return (Returned (None, [''helm releases history: '' @ m]))
     | Inr rels \<Rightarrow>
         (let upgrade = upgrade_release H \<lparr>ca_Namespace = om_Namespace (ha_Meta app),
                 ca_ReleaseName = [], ca_Version = hc_Version component, ca_RepoURL = repo_Url repo\<rparr>
                 (hc_Name component) chart values
          in case rels of
            [] \<Rightarrow> upgrade
          | first # rest \<Rightarrow>
            (case hasConfigChanged (last rels) values (hc_Version component) of
               Panicked \<Rightarrow> State_Monad.return Panicked
             | Returned changed \<Rightarrow>
                 if \<not> changed then State_Monad.return (Returned (Some first, []))
                 else upgrade))
   }"

definition resource_status :: "resource_info \<Rightarrow> HelmResourceStatus" where
  "resource_status r = \<lparr>hr_ApiVersion = ri_ApiVersion r, hr_Kind = ri_Kind r,
     hr_Name = ri_Name r, hr_Namespace = ri_Namespace r\<rparr>"

text \<open>What the release says of itself: version, status and the resources of its manifest.\<close>

definition release_report ::
    "helm_api \<Rightarrow> release option \<Rightarrow> (string \<times> string \<times> HelmResourceStatus list \<times> nat) outcome act" where
  "release_report H rel =
     (case rel of
        None \<Rightarrow> State_Monad.return (Returned (''unknown'', ''unknown'', [], 0))
      | Some r \<Rightarrow>
          (case rel_Status r of
             None \<Rightarrow> State_Monad.return Panicked
           | Some status \<Rightarrow> do {
               infos \<leftarrow> call (ParseManifest (rel_Manifest r)) (\<lambda>tr. h_Infos H tr (rel_Manifest r));
               State_Monad.return (Returned (Itoa (rel_Version r), status,
                 (case infos of Inl m \<Rightarrow> [] | Inr rs \<Rightarrow> map resource_status rs),
                 (case infos of Inl m \<Rightarrow> 0 | Inr rs \<Rightarrow> length rs)))
             }))"

definition reconcileComponent ::
    "lib_api \<Rightarrow> helm_api \<Rightarrow> HelmApp \<Rightarrow> HelmComponent \<Rightarrow>
     (HelmComponentStatus \<times> string option) outcome act" where
  "reconcileComponent L H app component =
     (case ha_Spec app of
        None \<Rightarrow> State_Monad.return Panicked
      | Some spec \<Rightarrow>
     (let values = component_values L spec component; componentStatus = unknown_status component in
     (case spec_Repo spec of
        None \<Rightarrow> State_Monad.return Panicked
      | Some repo \<Rightarrow>
     (let action = \<lparr>ca_Namespace = om_Namespace (ha_Meta app), ca_ReleaseName = hc_Name component,
                    ca_Version = hc_Version component, ca_RepoURL = repo_Url repo\<rparr> in do {
     cp \<leftarrow> call (LocateChart action (hc_Chart component)) (\<lambda>tr. h_LocateChart H tr action (hc_Chart component));
     case cp of
       Inl m \<Rightarrow> (let err = ''failed to locate chart: '' @ m in
         State_Monad.return (Returned (componentStatus\<lparr>hs_Message := err\<rparr>, Some err)))
     | Inr path \<Rightarrow> do {
     loaded \<leftarrow> call (LoadChart path) (\<lambda>tr. h_Load H tr path);
     case loaded of
       Inl m \<Rightarrow> (let err = ''failed to load chart: '' @ m in
         State_Monad.return (Returned (componentStatus\<lparr>hs_Message := err\<rparr>, Some err)))
     | Inr chart \<Rightarrow> do {
     applied \<leftarrow> apply_release H app component repo chart values;
     case applied of
       Panicked \<Rightarrow> State_Monad.return Panicked
     | Returned (release, mErrs) \<Rightarrow> do {
     report \<leftarrow> release_report H release;
     case report of
       Panicked \<Rightarrow> State_Monad.return Panicked
     | Returned (version, status, resources, resourcesTotal) \<Rightarrow>
         (let err = (if mErrs = [] then None else Some (l_multierror_text L mErrs)) in
          State_Monad.return (Returned (componentStatus\<lparr>
              hs_Message := (case err of None \<Rightarrow> hs_Message componentStatus | Some m \<Rightarrow> m),
              hs_Version := version, hs_Status := status, hs_Resources := resources,
              hs_ResourcesTotal := to_int32 resourcesTotal\<rparr>, err)))
     }}}}))))"

section \<open>The phase\<close>

abbreviation failed_status :: "HelmComponentStatus \<Rightarrow> bool" where
  "failed_status s \<equiv> hs_Status s = StatusFailed"

abbreviation deployed_status :: "HelmComponentStatus \<Rightarrow> bool" where
  "deployed_status s \<equiv> hs_Status s = StatusDeployed"

lemma phase_loop_eq:
  "phase_loop ss f d =
   (f \<or> list_ex failed_status ss, d \<and> list_all (\<lambda>s. failed_status s \<or> deployed_status s) ss)"
  by (induction ss arbitrary: f d) (auto simp: record_simps StatusFailed_def StatusDeployed_def)

lemma calculateOverallPhase_eq:
  "calculateOverallPhase app ss =
   (if ss = [] then Phase_UNKNOWN
    else if is_deleting (ha_Meta app) then Phase_DELETING
    else if list_ex failed_status ss then Phase_FAILED
    else if list_all deployed_status ss then Phase_SUCCEEDED
    else Phase_RECONCILING)"
proof -
  have "list_all (\<lambda>s. failed_status s \<or> deployed_status s) ss = list_all deployed_status ss"
    if "\<not> list_ex failed_status ss"
    using that by (auto simp: list_all_iff list_ex_iff)
  then show ?thesis by (simp add: calculateOverallPhase_def phase_loop_eq)
qed

section \<open>Unchanged configurations\<close>

lemma hasConfigChanged_False:
  assumes "wf_gomap (rel_Config r)" and "wf_gomap vs"
    and "plain_gomap (rel_Config r)" and "plain_gomap vs"
  shows "hasConfigChanged r vs v = Returned False \<longleftrightarrow>
    rel_ChartVersion r = Some v \<and> abs_gomap (rel_Config r) = abs_gomap vs"
  using gomap_deep_equal_abs [OF assms]
  by (auto simp: hasConfigChanged_def split: option.splits)

lemma deep_equal_nil: "gomap_deep_equal None m \<longleftrightarrow> m = None"
  by (auto simp: gomap_deep_equal_def)

lemma hasConfigChanged_nil_config:
  "rel_Config r = None \<Longrightarrow> vs \<noteq> None \<Longrightarrow> hasConfigChanged r vs v \<noteq> Returned False"
  by (auto simp: hasConfigChanged_def deep_equal_nil split: option.splits)

lemma component_values_not_nil: "AsMap_laws L \<Longrightarrow> component_values L spec c \<noteq> None"
  by (simp add: component_values_def AsMap_laws_def MergeValues_not_nil del: not_None_eq)

lemma wf_component_values: "AsMap_laws L \<Longrightarrow> wf_gomap (component_values L spec c)"
  by (simp add: component_values_def AsMap_laws_def wf_MergeValues)

section \<open>The Helm client\<close>

lemma init_helm_run [run_simps]:
  "run_state (init_helm H ns) tr =
   (case h_NewRegistryClient H tr of
      Some m \<Rightarrow> (Some (''failed to new Helm action config: '' @
          ''initializing new helm registry client: '' @ m), tr @ [NewRegistryClient])
    | None \<Rightarrow> (map_option (\<lambda>m. ''failed to initialize Helm action config: '' @ m)
          (h_Init H (tr @ [NewRegistryClient]) ns), tr @ [NewRegistryClient, HelmInit ns]))"
  by (simp add: init_helm_def newActionConfiguration_def split: option.splits)

lemma init_helm_emits: "emits (\<lambda>e. e = NewRegistryClient \<or> e = HelmInit ns) (init_helm H ns)"
  by (auto simp: init_helm_def newActionConfiguration_def intro!: emits_intros)

section \<open>Uninstalling\<close>

definition uninstall_event :: "string \<Rightarrow> event \<Rightarrow> bool" where
  "uninstall_event n e \<longleftrightarrow> e = HelmGet n \<or> e = HelmUninstall n"

lemma emits_case_helm_error [emits_intros]:
  "(\<And>m. x = ReleaseNotFound m \<Longrightarrow> emits P (f m)) \<Longrightarrow> (\<And>m. x = HelmError m \<Longrightarrow> emits P (g m)) \<Longrightarrow>
   emits P (case x of ReleaseNotFound m \<Rightarrow> f m | HelmError m \<Rightarrow> g m)"
  by (cases x) auto

interpretation uninst: trace_op "uninstallComponent H" uninstall_event for H
  by unfold_locales (auto simp: uninstallComponent_def uninstall_event_def intro!: emits_intros)

lemma uninstallComponent_run:
  "run_state (uninstallComponent H n) tr =
   (case h_Get H tr n of
      (r, Some (HelmError m)) \<Rightarrow> (Some m, tr @ [HelmGet n])
    | (None, _) \<Rightarrow> (None, tr @ [HelmGet n])
    | (Some r, _) \<Rightarrow>
       (case h_Uninstall H (tr @ [HelmGet n]) n of
          Some (HelmError m) \<Rightarrow> Some m | _ \<Rightarrow> None, tr @ [HelmGet n, HelmUninstall n]))"
  by (auto simp: uninstallComponent_def split: option.splits helm_error.splits prod.splits)

section \<open>Reconciling a component concerns that component only\<close>

definition component_event :: "HelmComponent \<Rightarrow> event \<Rightarrow> bool" where
  "component_event c e \<longleftrightarrow> \<not> kube_write e \<and> e \<noteq> HelmUninstall (hc_Name c) \<and>
     (release_of e = None \<and> \<not> helm_write e \<or> release_of e = Some (hc_Name c))"

lemmas component_defs = reconcileComponent_def apply_release_def install_release_def
  upgrade_release_def release_report_def

interpretation reconcile_component: trace_loop "reconcileComponent L H app" component_event for L H app
  by unfold_locales (auto simp: component_defs component_event_def intro!: emits_intros)

section \<open>Which write a component gets\<close>

definition action_for :: "HelmApp \<Rightarrow> HelmComponent \<Rightarrow> HelmRepo \<Rightarrow> string \<Rightarrow> chart_action" where
  "action_for app c repo n = \<lparr>ca_Namespace = om_Namespace (ha_Meta app), ca_ReleaseName = n,
     ca_Version = hc_Version c, ca_RepoURL = repo_Url repo\<rparr>"

lemma apply_release_run:
  "run_state (apply_release H app c repo chart vs) tr =
   (let tr1 = tr @ [HelmHistory (hc_Name c)];
        ins = action_for app c repo (hc_Name c);
        upg = action_for app c repo [];
        upgraded = (case h_Upgrade H tr1 upg (hc_Name c) chart vs of (r, err) \<Rightarrow>
          (Returned (r, case err of None \<Rightarrow> [] | Some m \<Rightarrow> [''failed to upgrade release: '' @ m]),
           tr1 @ [HelmUpgrade upg (hc_Name c) chart vs]))
    in case h_History H tr (hc_Name c) of
         Inl (ReleaseNotFound _) \<Rightarrow>
           (case h_Install H tr1 ins chart vs of (r, err) \<Rightarrow>
             (Returned (r, case err of None \<Rightarrow> [] | Some m \<Rightarrow> [''failed to install release: '' @ m]),
              tr1 @ [HelmInstall ins chart vs]))
       | Inl (HelmError m) \<Rightarrow> (Returned (None, [''helm releases history: '' @ m]), tr1)
       | Inr [] \<Rightarrow> upgraded
       | Inr (r # rs) \<Rightarrow>
           (case hasConfigChanged (last (r # rs)) vs (hc_Version c) of
              Panicked \<Rightarrow> (Panicked, tr1)
            | Returned False \<Rightarrow> (Returned (Some r, []), tr1)
            | Returned True \<Rightarrow> upgraded))"
  by (auto simp: apply_release_def install_release_def upgrade_release_def action_for_def Let_def
      split: sum.splits helm_error.splits list.splits outcome.splits prod.splits)

lemma release_report_run:
  "run_state (release_report H rel) tr =
   (case rel of
      None \<Rightarrow> (Returned (''unknown'', ''unknown'', [], 0), tr)
    | Some r \<Rightarrow> (case rel_Status r of
        None \<Rightarrow> (Panicked, tr)
      | Some st \<Rightarrow> (case h_Infos H tr (rel_Manifest r) of
          Inl m \<Rightarrow> (Returned (Itoa (rel_Version r), st, [], 0), tr @ [ParseManifest (rel_Manifest r)])
        | Inr rs \<Rightarrow> (Returned (Itoa (rel_Version r), st, map resource_status rs, length rs),
            tr @ [ParseManifest (rel_Manifest r)]))))"
  by (auto simp: release_report_def split: option.splits sum.splits)

text \<open>Looking the chart up: the chart or the error \<open>reconcileComponent\<close> reports.\<close>

definition chart_lookup ::
    "helm_api \<Rightarrow> chart_action \<Rightarrow> string \<Rightarrow> trace \<Rightarrow> (string + string) \<times> trace" where
  "chart_lookup H action ref tr =
     (let tr1 = tr @ [LocateChart action ref] in
      case h_LocateChart H tr action ref of
        Inl m \<Rightarrow> (Inl (''failed to locate chart: '' @ m), tr1)
      | Inr path \<Rightarrow>
         (case h_Load H tr1 path of
            Inl m \<Rightarrow> (Inl (''failed to load chart: '' @ m), tr1 @ [LoadChart path])
          | Inr chart \<Rightarrow> (Inr chart, tr1 @ [LoadChart path])))"

definition component_result ::
    "lib_api \<Rightarrow> HelmComponent \<Rightarrow> string list \<Rightarrow> string \<times> string \<times> HelmResourceStatus list \<times> nat \<Rightarrow>
     HelmComponentStatus \<times> string option" where
  "component_result L c errs report = (case report of (version, status, resources, n) \<Rightarrow>
     (let err = (if errs = [] then None else Some (l_multierror_text L errs)) in
      (\<lparr>hs_Name = hc_Name c, hs_Status = status,
        hs_Message = (case err of None \<Rightarrow> [] | Some m \<Rightarrow> m), hs_Version = version,
        hs_Resources = resources, hs_ResourcesTotal = to_int32 n\<rparr>, err)))"

lemma reconcileComponent_run:
  assumes "ha_Spec app = Some spec" and "spec_Repo spec = Some repo"
  shows "run_state (reconcileComponent L H app c) tr =
    (case chart_lookup H (action_for app c repo (hc_Name c)) (hc_Chart c) tr of
       (Inl e, t) \<Rightarrow> (Returned ((unknown_status c)\<lparr>hs_Message := e\<rparr>, Some e), t)
     | (Inr chart, t) \<Rightarrow>
         (case run_state (apply_release H app c repo chart (component_values L spec c)) t of
            (Panicked, t) \<Rightarrow> (Panicked, t)
          | (Returned (rel, errs), t) \<Rightarrow>
              (case run_state (release_report H rel) t of
                 (Panicked, t) \<Rightarrow> (Panicked, t)
               | (Returned report, t) \<Rightarrow> (Returned (component_result L c errs report), t))))"
  using assms
  by (auto simp: reconcileComponent_def Let_def action_for_def [symmetric] component_result_def
      chart_lookup_def unknown_status_def record_simps split: sum.splits outcome.splits prod.splits)

lemma reconcileComponent_panics:
  "ha_Spec app = None \<or> (\<exists>spec. ha_Spec app = Some spec \<and> spec_Repo spec = None) \<Longrightarrow>
   run_state (reconcileComponent L H app c) tr = (Panicked, tr)"
  by (auto simp: reconcileComponent_def Let_def)

lemma chart_lookup_trace:
  "\<exists>es. snd (chart_lookup H a ref tr) = tr @ es \<and> list_all (\<lambda>e. \<not> helm_write e) es"
  by (auto simp: chart_lookup_def Let_def split: sum.splits)

lemma reconcileComponent_status:
  assumes "result_of (reconcileComponent L H app c) tr = Returned (st, err)"
  shows "hs_Name st = hc_Name c \<and> hs_ResourcesTotal st = to_int32 (length (hs_Resources st))"
proof -
  obtain spec where spec: "ha_Spec app = Some spec"
    using assms reconcileComponent_panics [of app L H c tr]
    by (cases "ha_Spec app") (auto simp: result_of_def)
  obtain repo where repo: "spec_Repo spec = Some repo"
    using assms reconcileComponent_panics [of app L H c tr] spec
    by (cases "spec_Repo spec") (auto simp: result_of_def)
  show ?thesis
    using assms unfolding result_of_def reconcileComponent_run [OF spec repo]
    by (auto simp: component_result_def unknown_status_def record_simps release_report_run Let_def
        split: prod.splits sum.splits outcome.splits option.splits)
qed

end
