(* ===== verification/Component_Spec.thy ===== *)
theory Component_Spec
  imports Component_Lifecycle
begin

text \<open>
  What a component is promised: its values, its overall phase, the single Helm write a reconcile may
  make for it, and the status it reports. The witnesses evaluate the definitions in the concrete
  world of Sample_World.
\<close>

section \<open>Shared lemmas\<close>

abbreviation helm_writes :: "event list \<Rightarrow> event list" where
  "helm_writes es \<equiv> filter helm_write es"

lemma events_run: "run_state m tr = (x, tr @ es) \<Longrightarrow> events_of m tr = es"
  by (simp add: events_of_def)

lemma chart_lookup_prefix:
  assumes "chart_lookup H a ref tr = (x, t)"
  obtains es where "t = tr @ es" "helm_writes es = []"
  using chart_lookup_trace [of H a ref tr] assms by (auto simp: filter_empty_conv list_all_iff)

lemma release_report_trace:
  "\<exists>es. snd (run_state (release_report H rel) tr) = tr @ es \<and> helm_writes es = []"
  by (auto simp: release_report_run split: option.splits sum.splits)

text \<open>The write chosen by the switch on the release history.\<close>

definition chosen_write ::
    "HelmApp \<Rightarrow> HelmComponent \<Rightarrow> HelmRepo \<Rightarrow> string \<Rightarrow> gomap \<Rightarrow> helm_error + release list \<Rightarrow> event list" where
  "chosen_write app c repo chart vs history =
     (let upgrade = [HelmUpgrade (action_for app c repo []) (hc_Name c) chart vs] in
      case history of
        Inl (ReleaseNotFound m) \<Rightarrow> [HelmInstall (action_for app c repo (hc_Name c)) chart vs]
      | Inl (HelmError m) \<Rightarrow> []
      | Inr [] \<Rightarrow> upgrade
      | Inr (r # rs) \<Rightarrow>
          if hasConfigChanged (last (r # rs)) vs (hc_Version c) = Returned True then upgrade else [])"

lemma apply_release_trace:
  "snd (run_state (apply_release H app c repo chart vs) tr) =
   tr @ HelmHistory (hc_Name c) #
     chosen_write app c repo chart vs (h_History H tr (hc_Name c))"
  by (auto simp: apply_release_run chosen_write_def Let_def
      split: sum.splits helm_error.splits list.splits outcome.splits prod.splits bool.splits)

lemma chosen_write_cases:
  "chosen_write app c repo chart vs h = [] \<or>
   (\<exists>e. chosen_write app c repo chart vs h = [e] \<and> helm_write e \<and> release_of e = Some (hc_Name c))"
  by (auto simp: chosen_write_def Let_def action_for_def
      split: sum.splits helm_error.splits list.splits)

lemma helm_writes_chosen [simp]:
  "helm_writes (chosen_write app c repo chart vs h) = chosen_write app c repo chart vs h"
  using chosen_write_cases [of app c repo chart vs h] by auto

lemma component_writes_eq:
  assumes "ha_Spec app = Some spec" and "spec_Repo spec = Some repo"
  shows "helm_writes (events_of (reconcileComponent L H app c) tr) =
    (case chart_lookup H (action_for app c repo (hc_Name c)) (hc_Chart c) tr of
       (Inl e, t) \<Rightarrow> []
     | (Inr chart, t) \<Rightarrow>
         chosen_write app c repo chart (component_values L spec c) (h_History H t (hc_Name c)))"
proof -
  obtain x t where l: "chart_lookup H (action_for app c repo (hc_Name c)) (hc_Chart c) tr = (x, t)"
    by fastforce
  obtain es where t: "t = tr @ es" "helm_writes es = []" by (rule chart_lookup_prefix [OF l])
  show ?thesis
  proof (cases x)
    case (Inl e)
    with l t show ?thesis by (simp add: events_of_def reconcileComponent_run [OF assms])
  next
    case (Inr chart)
    let ?vs = "component_values L spec c"
    obtain a t2 where a: "run_state (apply_release H app c repo chart ?vs) t = (a, t2)" by fastforce
    have t2: "t2 = t @ HelmHistory (hc_Name c) #
        chosen_write app c repo chart ?vs (h_History H t (hc_Name c))"
      using apply_release_trace [of H app c repo chart ?vs t] a by simp
    show ?thesis
    proof (cases a)
      case Panicked
      with l t t2 a Inr show ?thesis by (simp add: events_of_def reconcileComponent_run [OF assms])
    next
      case (Returned p)
      obtain rel errs where p: "p = (rel, errs)" by fastforce
      obtain r es2 where r: "run_state (release_report H rel) t2 = (r, t2 @ es2)" "helm_writes es2 = []"
        using release_report_trace [of H rel t2] by (metis prod.collapse)
      show ?thesis
        using l t t2 a Inr Returned p r
        by (auto simp: events_of_def reconcileComponent_run [OF assms] split: outcome.splits)
    qed
  qed
qed

lemma component_no_repo:
  "ha_Spec app = None \<or> (\<exists>spec. ha_Spec app = Some spec \<and> spec_Repo spec = None) \<Longrightarrow>
   events_of (reconcileComponent L H app c) tr = []"
  by (simp add: events_of_def reconcileComponent_panics)

section \<open>The overall phase\<close>

lemma phase_split: "list_ex failed_status ss \<Longrightarrow> ss \<noteq> []"
  by auto

text \<open>C14. The phase the code computes in one pass with two flags is, in every case, the phase of the
  specification: UNKNOWN without components, DELETING once a deletion time is set, FAILED exactly
  when some component has failed, SUCCEEDED exactly when none has and all are deployed, RECONCILING
  otherwise.\<close>

theorem overall_phase_characterised:
  "(calculateOverallPhase app ss = Phase_UNKNOWN \<longleftrightarrow> ss = []) \<and>
   (calculateOverallPhase app ss = Phase_DELETING \<longleftrightarrow> ss \<noteq> [] \<and> is_deleting (ha_Meta app)) \<and>
   (calculateOverallPhase app ss = Phase_FAILED \<longleftrightarrow>
      \<not> is_deleting (ha_Meta app) \<and> list_ex failed_status ss) \<and>
   (calculateOverallPhase app ss = Phase_SUCCEEDED \<longleftrightarrow>
      ss \<noteq> [] \<and> \<not> is_deleting (ha_Meta app) \<and> list_all deployed_status ss) \<and>
   (calculateOverallPhase app ss = Phase_RECONCILING \<longleftrightarrow>
      ss \<noteq> [] \<and> \<not> is_deleting (ha_Meta app) \<and> \<not> list_ex failed_status ss \<and>
      \<not> list_all deployed_status ss)"
proof -
  have "\<not> list_ex failed_status ss" if "list_all deployed_status ss"
    using that by (auto simp: list_all_iff list_ex_iff StatusFailed_def StatusDeployed_def)
  then show ?thesis by (auto simp: calculateOverallPhase_eq phase_split)
qed

text \<open>The phase does not depend on the order of the component statuses.\<close>

theorem overall_phase_order:
  assumes "set ss = set ss'"
  shows "calculateOverallPhase app ss = calculateOverallPhase app ss'"
proof -
  have "ss = [] \<longleftrightarrow> ss' = []" "list_ex P ss = list_ex P ss'" "list_all P ss = list_all P ss'" for P
    using assms by (auto simp: list_ex_iff list_all_iff)
  then show ?thesis by (simp add: calculateOverallPhase_eq)
qed

theorem overall_phase_order_witness:
  "calculateOverallPhase sample_app
     [unknown_status sample_component, (unknown_status sample_component)\<lparr>hs_Status := StatusFailed\<rparr>] =
   calculateOverallPhase sample_app
     [(unknown_status sample_component)\<lparr>hs_Status := StatusFailed\<rparr>, unknown_status sample_component]"
  by (rule overall_phase_order) auto

section \<open>The values of a component\<close>

lemma AsMap_laws_iff: "AsMap_laws L \<Longrightarrow> wf_gomap (l_AsMap L s) \<and> l_AsMap L s \<noteq> None"
  by (simp add: AsMap_laws_def)

text \<open>C20. A value the component gives at a path of keys is the value its chart gets; unless the
  component ignores the global values, a path it says nothing about has the global value; and when
  it does ignore them, its own values are all it gets.\<close>

theorem component_values_precedence:
  assumes "AsMap_laws L"
  shows "(\<forall>v. path_get (l_AsMap L (hc_ComponentValues c)) p = Some v \<and> \<not> is_map v \<longrightarrow>
            path_get (component_values L spec c) p = Some v) \<and>
         (path_silent (l_AsMap L (hc_ComponentValues c)) p \<and> \<not> hc_IgnoreGlobalValues c \<longrightarrow>
            path_get (component_values L spec c) p = path_get (l_AsMap L (spec_GlobalValues spec)) p) \<and>
         (hc_IgnoreGlobalValues c \<longrightarrow>
            component_values L spec c = l_AsMap L (hc_ComponentValues c))"
  using AsMap_laws_iff [OF assms]
  by (auto simp: component_values_def Let_def path_override path_fallback)

definition nested_values :: "string \<Rightarrow> pstruct option" where
  "nested_values tag = Some (Struct [(''global'', StructValue (Struct [(''tag'', StringValue tag)])),
     (tag, StringValue tag)])"

definition values_component :: HelmComponent where
  "values_component = sample_component\<lparr>hc_ComponentValues := nested_values ''own''\<rparr>"

definition values_spec :: HelmAppSpec where
  "values_spec = sample_spec\<lparr>spec_GlobalValues := nested_values ''all''\<rparr>"

theorem component_values_precedence_witness:
  "path_get (component_values sample_lib values_spec values_component) [''global'', ''tag''] =
     Some (VStr ''own'') \<and>
   path_get (component_values sample_lib values_spec values_component) [''all''] = Some (VStr ''all'')"
  using component_values_precedence [OF sample_AsMap_laws, of values_component "[''global'', ''tag'']"
      values_spec]
    component_values_precedence [OF sample_AsMap_laws, of values_component "[''all'']" values_spec]
  by (simp add: values_spec_def values_component_def nested_values_def sample_defs gget_def)

section \<open>Detecting a change\<close>

text \<open>An upgrade is skipped exactly when the release has the wanted chart version and its stored
  configuration denotes the wanted values: the order of map entries does not matter, at any depth.\<close>

theorem hasConfigChanged_iff:
  assumes "wf_gomap (rel_Config r)" and "wf_gomap vs"
    and "plain_gomap (rel_Config r)" and "plain_gomap vs"
  shows "hasConfigChanged r vs v = Returned False \<longleftrightarrow>
    rel_ChartVersion r = Some v \<and> abs_gomap (rel_Config r) = abs_gomap vs"
  using assms by (rule hasConfigChanged_False)

definition swapped :: "bool \<Rightarrow> gomap" where
  "swapped b = Some (if b then [(''x'', VStr ''1''), (''y'', VMap (Some [(''z'', VNum 3)]))]
     else [(''y'', VMap (Some [(''z'', VNum 3)])), (''x'', VStr ''1'')])"

theorem hasConfigChanged_iff_witness:
  "hasConfigChanged (sample_release\<lparr>rel_Config := swapped True\<rparr>) (swapped False) ''1.0'' = Returned False"
  by (subst hasConfigChanged_iff)
     (auto simp: swapped_def sample_release_def f64_plain_def f64_is_nan_def f64_is_zero_def fun_eq_iff)

section \<open>At most one write\<close>

text \<open>C4. Reconciling a component makes at most one Helm write, of its own release; it installs only
  when Helm says the release does not exist, and upgrades only when it has a history; without a
  chart, and when the history cannot be read, it writes nothing.\<close>

theorem component_writes:
  assumes "ha_Spec app = Some spec" and "spec_Repo spec = Some repo"
  shows "helm_writes (events_of (reconcileComponent L H app c) tr) =
    (case chart_lookup H (action_for app c repo (hc_Name c)) (hc_Chart c) tr of
       (Inl e, t) \<Rightarrow> []
     | (Inr chart, t) \<Rightarrow>
         (case h_History H t (hc_Name c) of
            Inl (ReleaseNotFound m) \<Rightarrow>
              [HelmInstall (action_for app c repo (hc_Name c)) chart (component_values L spec c)]
          | Inl (HelmError m) \<Rightarrow> []
          | Inr [] \<Rightarrow>
              [HelmUpgrade (action_for app c repo []) (hc_Name c) chart (component_values L spec c)]
          | Inr (r # rs) \<Rightarrow>
              if hasConfigChanged (last (r # rs)) (component_values L spec c) (hc_Version c)
                 = Returned True
              then [HelmUpgrade (action_for app c repo []) (hc_Name c) chart (component_values L spec c)]
              else []))"
  unfolding component_writes_eq [OF assms] chosen_write_def Let_def
  by (auto split: prod.splits sum.splits helm_error.splits list.splits)

theorem component_writes_witness:
  "helm_writes (events_of (reconcileComponent sample_lib sample_helm sample_app sample_component) []) =
   [HelmInstall \<lparr>ca_Namespace = ''default'', ca_ReleaseName = ''demo'', ca_Version = ''1.0'',
      ca_RepoURL = ''https://charts''\<rparr> ''gateway'' (Some [])]"
  by (subst component_writes [of _ sample_spec "\<lparr>repo_Name = ''istio'', repo_Url = ''https://charts''\<rparr>"])
     (simp_all add: sample_defs action_for_def chart_lookup_def component_values_def Let_def
       MergeValues.simps)

text \<open>C5. Whatever Helm answers, a reconcile of a component makes at most one Helm write, writes
  nothing to the API server, uninstalls nothing, and touches no release but its own.\<close>

theorem component_isolation:
  "length (helm_writes (events_of (reconcileComponent L H app c) tr)) \<le> 1 \<and>
   list_all (\<lambda>e. \<not> kube_write e \<and> e \<noteq> HelmUninstall (hc_Name c) \<and>
       release_of e \<in> {None, Some (hc_Name c)})
     (events_of (reconcileComponent L H app c) tr)"
proof
  show "length (helm_writes (events_of (reconcileComponent L H app c) tr)) \<le> 1"
  proof (cases "\<exists>spec repo. ha_Spec app = Some spec \<and> spec_Repo spec = Some repo")
    case True
    then obtain spec repo where ok: "ha_Spec app = Some spec" "spec_Repo spec = Some repo" by blast
    have "length (chosen_write app c repo chart vs h) \<le> 1" for chart vs h
      using chosen_write_cases [of app c repo chart vs h] by auto
    then show ?thesis by (simp add: component_writes_eq [OF ok] split: prod.splits sum.splits)
  next
    case False
    then have "events_of (reconcileComponent L H app c) tr = []"
      by (intro component_no_repo) (metis option.exhaust)
    then show ?thesis by simp
  qed
  show "list_all (\<lambda>e. \<not> kube_write e \<and> e \<noteq> HelmUninstall (hc_Name c) \<and>
      release_of e \<in> {None, Some (hc_Name c)}) (events_of (reconcileComponent L H app c) tr)"
    by (rule list.pred_mono_strong [OF events_emits [OF reconcile_component.emits_own]])
       (auto simp: component_event_def)
qed

section \<open>What a reconcile reports\<close>

text \<open>Convergence: when the history's last release has the wanted version and values, the reconcile
  makes no Helm write, returns no error, and reports the revision and state of the release at the
  head of the history.\<close>

theorem component_converged:
  assumes "ha_Spec app = Some spec" and "spec_Repo spec = Some repo" and "AsMap_laws L"
    and "chart_lookup H (action_for app c repo (hc_Name c)) (hc_Chart c) tr = (Inr chart, t)"
    and "h_History H t (hc_Name c) = Inr (r # rs)"
    and "rel_ChartVersion (last (r # rs)) = Some (hc_Version c)"
    and "abs_gomap (rel_Config (last (r # rs))) = abs_gomap (component_values L spec c)"
    and "wf_gomap (rel_Config (last (r # rs)))" and "plain_gomap (rel_Config (last (r # rs)))"
    and "plain_gomap (component_values L spec c)"
    and "rel_Status r = Some status"
  shows "helm_writes (events_of (reconcileComponent L H app c) tr) = [] \<and>
    (\<exists>st. result_of (reconcileComponent L H app c) tr = Returned (st, None) \<and>
       hs_Name st = hc_Name c \<and> hs_Status st = status \<and> hs_Version st = Itoa (rel_Version r) \<and>
       hs_Message st = [])"
proof -
  have same: "hasConfigChanged (last (r # rs)) (component_values L spec c) (hc_Version c) =
      Returned False"
    using assms by (subst hasConfigChanged_False) (auto simp: wf_component_values)
  show ?thesis
    using assms(4,5,11) same
    by (simp add: component_writes_eq [OF assms(1,2)] chosen_write_def result_of_def
        reconcileComponent_run [OF assms(1,2)] apply_release_run release_report_run
        component_result_def Let_def split: sum.splits)
qed

definition converged_helm :: helm_api where
  "converged_helm = sample_helm\<lparr>h_History := (\<lambda>tr n. Inr [sample_release])\<rparr>"

lemmas converged_defs = converged_helm_def sample_defs action_for_def chart_lookup_def
  component_values_def Let_def MergeValues.simps

theorem component_converged_witness:
  "helm_writes (events_of (reconcileComponent sample_lib converged_helm sample_app sample_component) []) = []"
  using component_converged [of sample_app sample_spec
      "\<lparr>repo_Name = ''istio'', repo_Url = ''https://charts''\<rparr>" sample_lib converged_helm
      sample_component "[]" "''gateway''" _ sample_release "[]" StatusDeployed]
  by (simp add: sample_AsMap_laws) (simp add: converged_defs)

text \<open>A release whose stored configuration is the nil map is upgraded on every reconcile, even when
  version and values are the wanted ones: the wanted values are never nil.\<close>

theorem nil_config_always_upgrades:
  assumes "ha_Spec app = Some spec" and "spec_Repo spec = Some repo" and "AsMap_laws L"
    and "chart_lookup H (action_for app c repo (hc_Name c)) (hc_Chart c) tr = (Inr chart, t)"
    and "h_History H t (hc_Name c) = Inr (r # rs)"
    and "rel_ChartVersion (last (r # rs)) = Some (hc_Version c)"
    and "rel_Config (last (r # rs)) = None"
  shows "helm_writes (events_of (reconcileComponent L H app c) tr) =
    [HelmUpgrade (action_for app c repo []) (hc_Name c) chart (component_values L spec c)]"
proof -
  have "hasConfigChanged (last (r # rs)) (component_values L spec c) (hc_Version c) = Returned True"
    using assms component_values_not_nil [of L spec c]
    by (simp add: hasConfigChanged_def deep_equal_nil del: not_None_eq)
  with assms show ?thesis by (simp add: component_writes_eq [OF assms(1,2)] chosen_write_def Let_def)
qed

definition nil_config_helm :: helm_api where
  "nil_config_helm = sample_helm\<lparr>h_History := (\<lambda>tr n. Inr [sample_release\<lparr>rel_Config := None\<rparr>])\<rparr>"

theorem nil_config_always_upgrades_witness:
  "helm_writes (events_of (reconcileComponent sample_lib nil_config_helm sample_app sample_component) []) =
   [HelmUpgrade \<lparr>ca_Namespace = ''default'', ca_ReleaseName = [], ca_Version = ''1.0'',
      ca_RepoURL = ''https://charts''\<rparr> ''demo'' ''gateway'' (Some [])]"
  by (subst nil_config_always_upgrades [of _ sample_spec
        "\<lparr>repo_Name = ''istio'', repo_Url = ''https://charts''\<rparr>" _ _ _ _ "''gateway''" _
        "sample_release\<lparr>rel_Config := None\<rparr>" "[]", OF _ _ sample_AsMap_laws])
     (simp_all add: nil_config_helm_def converged_defs)

text \<open>Without a release to report (no chart, an unreadable history, or a failed install or upgrade
  that returned none) the component's state is ''unknown'' and never ''failed'', although the
  reconcile returns an error.\<close>

theorem failure_without_release_is_unknown:
  assumes "ha_Spec app = Some spec" and "spec_Repo spec = Some repo"
    and "(\<exists>e. fst (chart_lookup H (action_for app c repo (hc_Name c)) (hc_Chart c) tr) = Inl e) \<or>
      (\<exists>chart t errs t'. chart_lookup H (action_for app c repo (hc_Name c)) (hc_Chart c) tr = (Inr chart, t) \<and>
         run_state (apply_release H app c repo chart (component_values L spec c)) t =
           (Returned (None, errs), t') \<and> errs \<noteq> [])"
  shows "\<exists>st e. result_of (reconcileComponent L H app c) tr = Returned (st, Some e) \<and>
    hs_Status st = ''unknown'' \<and> hs_Message st = e"
  using assms(3)
proof
  assume "\<exists>e. fst (chart_lookup H (action_for app c repo (hc_Name c)) (hc_Chart c) tr) = Inl e"
  then obtain e t where
      "chart_lookup H (action_for app c repo (hc_Name c)) (hc_Chart c) tr = (Inl e, t)"
    by (metis prod.collapse)
  then show ?thesis
    by (simp add: result_of_def reconcileComponent_run [OF assms(1,2)] unknown_status_def)
next
  assume "\<exists>chart t errs t'. chart_lookup H (action_for app c repo (hc_Name c)) (hc_Chart c) tr = (Inr chart, t) \<and>
      run_state (apply_release H app c repo chart (component_values L spec c)) t =
        (Returned (None, errs), t') \<and> errs \<noteq> []"
  then show ?thesis
    by (auto simp: result_of_def reconcileComponent_run [OF assms(1,2)] release_report_run
        component_result_def Let_def)
qed

definition failing_helm :: helm_api where
  "failing_helm = sample_helm\<lparr>h_Install := (\<lambda>tr a c v. (None, Some ''timed out''))\<rparr>"

theorem failure_without_release_is_unknown_witness:
  "\<exists>st e. result_of (reconcileComponent sample_lib failing_helm sample_app sample_component) [] =
     Returned (st, Some e) \<and> hs_Status st = ''unknown'' \<and> hs_Message st = e"
  by (rule failure_without_release_is_unknown [of _ sample_spec
        "\<lparr>repo_Name = ''istio'', repo_Url = ''https://charts''\<rparr>"])
     (auto simp: failing_helm_def converged_defs apply_release_run)

text \<open>The reported status carries the component's own name, and its resource count is the length of
  the reported resource list as an \<open>int32\<close>, the exact number below two to the thirty-first.\<close>

theorem component_status_shape:
  assumes "result_of (reconcileComponent L H app c) tr = Returned (st, err)"
  shows "hs_Name st = hc_Name c \<and> hs_ResourcesTotal st = to_int32 (length (hs_Resources st)) \<and>
    (length (hs_Resources st) < 2 ^ 31 \<longrightarrow> sint (hs_ResourcesTotal st) = int (length (hs_Resources st)))"
  using reconcileComponent_status [OF assms] by (simp add: to_int32_small)

theorem component_status_shape_witness:
  "\<exists>st err. result_of (reconcileComponent sample_lib sample_helm sample_app sample_component) [] =
     Returned (st, err) \<and> hs_Name st = ''demo'' \<and> sint (hs_ResourcesTotal st) = int (length (hs_Resources st))"
proof -
  have "\<exists>st err. result_of (reconcileComponent sample_lib sample_helm sample_app sample_component) [] =
      Returned (st, err) \<and> hs_Resources st = []"
    unfolding result_of_def
    by (subst reconcileComponent_run [of sample_app sample_spec
          "\<lparr>repo_Name = ''istio'', repo_Url = ''https://charts''\<rparr>"])
       (simp_all add: converged_defs apply_release_run release_report_run component_result_def)
  then obtain st err where st: "result_of (reconcileComponent sample_lib sample_helm sample_app
      sample_component) [] = Returned (st, err)" and len: "hs_Resources st = []" by blast
  from component_status_shape [OF st] len st show ?thesis
    by (auto simp: sample_component_def)
qed

section \<open>Uninstalling\<close>

text \<open>Uninstalling a component succeeds exactly when Helm can be asked for the release and then
  either finds none or uninstalls it (a release that is gone by then counts); Helm is asked to
  uninstall only a release it has just found.\<close>

theorem uninstallComponent_spec:
  "(result_of (uninstallComponent H n) tr = None \<longleftrightarrow>
     (\<forall>m. snd (h_Get H tr n) \<noteq> Some (HelmError m)) \<and>
     (fst (h_Get H tr n) = None \<or>
      (\<forall>m. h_Uninstall H (tr @ [HelmGet n]) n \<noteq> Some (HelmError m)))) \<and>
   helm_writes (events_of (uninstallComponent H n) tr) =
     (if fst (h_Get H tr n) \<noteq> None \<and> (\<forall>m. snd (h_Get H tr n) \<noteq> Some (HelmError m))
      then [HelmUninstall n] else [])"
  by (cases "h_Get H tr n")
     (auto simp: result_of_def events_of_def uninstallComponent_run
       split: option.splits helm_error.splits)

end
