(* ===== verification/HelmApp_Controller.thy ===== *)
theory HelmApp_Controller
  imports Component_Spec
begin

text \<open>
  The HelmApp controller, internal/controller/helmapp.go: \<open>Reconcile\<close> (70-162) and
  \<open>reconcileDelete\<close> (195-255).

  \<^item> \<open>delete_loop\<close>: the loop that uninstalls the components of the status from the last to the first,
    by index, removing an uninstalled entry from the slice it is walking over.
  \<^item> \<open>orphan_loop\<close>: the loop that uninstalls what the status lists and the spec no longer does.
  \<^item> \<open>ensure_finalizer\<close>, \<open>HelmApp_apply\<close>: \<open>Reconcile\<close> up to and from the creation of the Helm client.
  \<^item> \<open>HelmApp_reconcileDelete\<close>, \<open>HelmApp_Reconcile\<close>: the two handlers.

  An object the API server returns replaces the one in memory, as \<open>client.Client\<close> decodes the
  answer of \<open>Update\<close> into its argument. Logging is left out.
\<close>

section \<open>Deleting\<close>

definition mark_failed :: "HelmComponentStatus \<Rightarrow> string \<Rightarrow> HelmComponentStatus" where
  "mark_failed c m = c\<lparr>hs_Status := StatusFailed, hs_Message := uninstall_error (hs_Name c) m\<rparr>"

fun delete_loop ::
    "helm_api \<Rightarrow> nat \<Rightarrow> HelmComponentStatus list \<Rightarrow> bool \<Rightarrow> (HelmComponentStatus list \<times> bool) act" where
  "delete_loop H 0 comps allComponentsUninstalled =
     State_Monad.return (comps, allComponentsUninstalled)"
| "delete_loop H (Suc i) comps allComponentsUninstalled =
     (let component = comps ! i in
      if hs_Name component \<noteq> [] then do {
        err \<leftarrow> uninstallComponent H (hs_Name component);
        case err of
          Some m \<Rightarrow> delete_loop H i (comps[i := mark_failed component m]) False
        | None \<Rightarrow> delete_loop H i (remove_at i comps) allComponentsUninstalled
      }
      else delete_loop H i (remove_at i comps) allComponentsUninstalled)"

definition HelmApp_reconcileDelete :: "kube_api \<Rightarrow> helm_api \<Rightarrow> HelmApp \<Rightarrow> reconcile_result act" where
  "HelmApp_reconcileDelete K H app = do {
     err \<leftarrow> init_helm H (om_Namespace (ha_Meta app));
     case err of
       Some m \<Rightarrow> State_Monad.return (Returned (requeue_after serverFailedAfter, Some m))
     | None \<Rightarrow> do {
         (status, allComponentsUninstalled) \<leftarrow>
           (case ha_Status app of
              None \<Rightarrow> State_Monad.return (None, True)
            | Some st \<Rightarrow>
                if length (st_Components st) > 0 then do {
                  (comps, ok) \<leftarrow> delete_loop H (length (st_Components st)) (st_Components st) True;
                  State_Monad.return (Some (st\<lparr>st_Components := comps\<rparr>), ok)
                }
                else State_Monad.return (Some st, True));
         case status of
           None \<Rightarrow> State_Monad.return Panicked
         | Some st \<Rightarrow>
             (let app = app\<lparr>ha_Status := Some (st\<lparr>st_Phase := calculateOverallPhase app (st_Components st)\<rparr>)\<rparr>
              in do {
                res \<leftarrow> call (UpdateHelmAppStatus app) (\<lambda>tr. k_UpdateHelmAppStatus K tr app);
                case res of
                  Inl e \<Rightarrow> State_Monad.return (Returned (requeue_after serverFailedAfter,
                    Some (''failed to update HelmApp status: '' @ kube_text e)))
                | Inr app \<Rightarrow>
                    if allComponentsUninstalled then
                      (let app = app\<lparr>ha_Meta := (ha_Meta app)\<lparr>om_Finalizers :=
                             k_RemoveFinalizer K (om_Finalizers (ha_Meta app)) HelmAppFinalizer\<rparr>\<rparr>
                       in do {
                         res \<leftarrow> call (UpdateHelmApp app) (\<lambda>tr. k_UpdateHelmApp K tr app);
                         State_Monad.return (case res of
                             Inl e \<Rightarrow> Returned (requeue_after serverFailedAfter, Some (kube_text e))
                           | Inr app \<Rightarrow> Returned (no_requeue, None))
                       })
                    else State_Monad.return
                      (Returned (\<lparr>cr_Requeue = True, cr_RequeueAfter = 0\<rparr>, None))
              })
       }
   }"

section \<open>Reconciling\<close>

definition ensure_finalizer :: "kube_api \<Rightarrow> HelmApp \<Rightarrow> (kube_error + HelmApp) act" where
  "ensure_finalizer K app =
     (if \<not> k_ContainsFinalizer K (om_Finalizers (ha_Meta app)) HelmAppFinalizer then
        (let app = app\<lparr>ha_Meta := (ha_Meta app)\<lparr>om_Finalizers :=
               k_AddFinalizer K (om_Finalizers (ha_Meta app)) HelmAppFinalizer\<rparr>\<rparr>
         in call (UpdateHelmApp app) (\<lambda>tr. k_UpdateHelmApp K tr app))
      else State_Monad.return (Inr app))"

definition desired_components :: "HelmComponent list \<Rightarrow> (string \<times> HelmComponent) list" where
  "desired_components components =
     fold (\<lambda>component. AList.update (hc_Name component) component) components []"

definition orphan_status :: "HelmComponentStatus \<Rightarrow> string \<Rightarrow> HelmComponentStatus" where
  "orphan_status existingStatus m =
     \<lparr>hs_Name = hs_Name existingStatus, hs_Status = StatusFailed,
      hs_Message = uninstall_error (hs_Name existingStatus) m, hs_Version = hs_Version existingStatus,
      hs_Resources = hs_Resources existingStatus, hs_ResourcesTotal = hs_ResourcesTotal existingStatus\<rparr>"

fun orphan_loop ::
    "helm_api \<Rightarrow> (string \<times> HelmComponent) list \<Rightarrow> HelmComponentStatus list \<Rightarrow>
     HelmComponentStatus list \<Rightarrow> HelmComponentStatus list act" where
  "orphan_loop H desiredComponents [] componentStatuses = State_Monad.return componentStatuses"
| "orphan_loop H desiredComponents (existingStatus # rest) componentStatuses =
     (if map_of desiredComponents (hs_Name existingStatus) = None \<and> hs_Name existingStatus \<noteq> [] then do {
        err \<leftarrow> uninstallComponent H (hs_Name existingStatus);
        orphan_loop H desiredComponents rest (case err of
            Some m \<Rightarrow> componentStatuses @ [orphan_status existingStatus m]
          | None \<Rightarrow> componentStatuses)
      }
      else orphan_loop H desiredComponents rest componentStatuses)"

text \<open>Lines 104-140: the component statuses a reconcile arrives at.\<close>

definition component_statuses ::
    "lib_api \<Rightarrow> helm_api \<Rightarrow> HelmApp \<Rightarrow> HelmAppSpec \<Rightarrow> HelmComponentStatus list outcome act" where
  "component_statuses L H app spec = do {
     results \<leftarrow> for_each (reconcileComponent L H app) (slice (spec_Components spec));
     case results of
       Panicked \<Rightarrow> State_Monad.return Panicked
     | Returned rs \<Rightarrow>
         (case ha_Status app of
            None \<Rightarrow> State_Monad.return (Returned (map fst rs))
          | Some st \<Rightarrow> do {
              ss \<leftarrow> orphan_loop H (desired_components (slice (spec_Components spec)))
                     (st_Components st) (map fst rs);
              State_Monad.return (Returned ss)
            })
   }"

definition HelmApp_apply :: "lib_api \<Rightarrow> kube_api \<Rightarrow> helm_api \<Rightarrow> HelmApp \<Rightarrow> reconcile_result act" where
  "HelmApp_apply L K H app = do {
     err \<leftarrow> init_helm H (om_Namespace (ha_Meta app));
     case err of
       Some m \<Rightarrow> State_Monad.return (Returned (requeue_after serverFailedAfter, Some m))
     | None \<Rightarrow>
     (case ha_Spec app of
        None \<Rightarrow> State_Monad.return Panicked
      | Some spec \<Rightarrow> do {
     statuses \<leftarrow> component_statuses L H app spec;
     case statuses of
       Panicked \<Rightarrow> State_Monad.return Panicked
     | Returned componentStatuses \<Rightarrow>
     (let overallPhase = calculateOverallPhase app componentStatuses;
          app = app\<lparr>ha_Status := Some \<lparr>st_Phase = overallPhase, st_Components = componentStatuses\<rparr>\<rparr>
      in do {
        res \<leftarrow> call (UpdateHelmAppStatus app) (\<lambda>tr. k_UpdateHelmAppStatus K tr app);
        State_Monad.return (case res of
            Inl e \<Rightarrow> Returned (requeue_after serverFailedAfter,
              Some (''failed to update HelmApp status: '' @ kube_text e))
          | Inr app \<Rightarrow>
              if overallPhase = Phase_FAILED then Returned (requeue_after failedAfter, None)
              else Returned (no_requeue, None))
      })})
   }"

definition HelmApp_Reconcile :: "lib_api \<Rightarrow> kube_api \<Rightarrow> helm_api \<Rightarrow> key \<Rightarrow> reconcile_result act" where
  "HelmApp_Reconcile L K H req = do {
     got \<leftarrow> call (GetHelmApp req) (\<lambda>tr. k_GetHelmApp K tr req);
     case got of
       Inl e \<Rightarrow> State_Monad.return (Returned (no_requeue, IgnoreNotFound e))
     | Inr app \<Rightarrow>
         if is_deleting (ha_Meta app) then HelmApp_reconcileDelete K H app
         else do {
           res \<leftarrow> ensure_finalizer K app;
           case res of
             Inl e \<Rightarrow> State_Monad.return (Returned (requeue_after serverFailedAfter, Some (kube_text e)))
           | Inr app \<Rightarrow> HelmApp_apply L K H app
         }
   }"

end
