(* ===== verification/Reconciler.thy ===== *)
theory Reconciler
  imports Externals
begin

text \<open>
  The contract between a controller and the manager that calls it: controller-runtime takes the key
  of an object from a queue and calls \<open>Reconcile\<close> for it, once per key and one after the other. The
  locale \<open>reconciler\<close> states what a handler promises; \<open>work_off\<close> is the queue. Both controllers of the
  operator are interpretations.
\<close>

locale reconciler =
  fixes handle :: "key \<Rightarrow> reconcile_result act"
    and fetch :: "key \<Rightarrow> event"
    and missing :: "trace \<Rightarrow> key \<Rightarrow> bool"
  assumes handle_extends: "extends (handle k)"
    and handle_fetches: "\<exists>es. events_of (handle k) tr = fetch k # es"
    and handle_missing: "missing tr k \<Longrightarrow>
      run_state (handle k) tr = (Returned (no_requeue, None), tr @ [fetch k])"
begin

lemma handle_never_silent: "events_of (handle k) tr \<noteq> []"
  using handle_fetches [of k tr] by auto

lemma missing_queue:
  assumes "\<And>k tr. k \<in> set ks \<Longrightarrow> missing tr k"
  shows "run_state (for_each handle ks) tr =
    (Returned (map (\<lambda>_. (no_requeue, None)) ks), tr @ map fetch ks)"
  using assms by (induction ks arbitrary: tr) (simp_all add: handle_missing)

end

end
