(* ===== verification/HelmApp_Spec.thy ===== *)
theory HelmApp_Spec
  imports HelmApp_Controller Reconciler "HOL-Library.Sublist"
begin

text \<open>
  What the HelmApp controller is promised.

  \<^item> Deletion: the index loop of the code equals \<open>drain\<close>, a recursion that never indexes; the
    finalizer is removed only when nothing is left, and a deletion Helm and the API server do not
    obstruct completes at once.
  \<^item> Reconciliation: the finalizer is stored before Helm is called, only orphans are uninstalled,
    the status has one entry per component followed by the orphans that failed, and the handler asks
    to be called again exactly when the phase is FAILED.
\<close>

section \<open>The deletion loop\<close>

fun drain :: "helm_api \<Rightarrow> HelmComponentStatus list \<Rightarrow> HelmComponentStatus list act" where
  "drain H [] = State_Monad.return []"
| "drain H (c # cs) = do {
     kept \<leftarrow> drain H cs;
     if hs_Name c = [] then State_Monad.return kept
     else do {
       err \<leftarrow> uninstallComponent H (hs_Name c);
       State_Monad.return (case err of None \<Rightarrow> kept | Some m \<Rightarrow> mark_failed c m # kept)
     }
   }"

lemma bind_if: "State_Monad.bind (if b then m else n) f = (if b then State_Monad.bind m f else State_Monad.bind n f)"
  by simp

lemma drain_append:
  "drain H (xs @ ys) = do { b \<leftarrow> drain H ys; a \<leftarrow> drain H xs; State_Monad.return (a @ b) }"
proof (induction xs)
  case (Cons x xs)
  have "(case err of None \<Rightarrow> a @ b | Some m \<Rightarrow> mark_failed x m # a @ b) =
      (case err of None \<Rightarrow> a | Some m \<Rightarrow> mark_failed x m # a) @ b" for err a b
    by (simp split: option.splits)
  with Cons show ?case by (cases "hs_Name x = []") simp_all
qed simp

lemma nth_last_prefix [simp]: "(xs @ c # ys) ! length xs = c"
  by (simp add: nth_append)

lemma delete_loop_drain:
  "delete_loop H (length xs) (xs @ ys) ok =
   do { kept \<leftarrow> drain H xs; State_Monad.return (kept @ ys, ok \<and> kept = []) }"
proof (induction xs arbitrary: ys ok rule: rev_induct)
  case (snoc c xs)
  have IH: "delete_loop H (length xs) (xs @ mark_failed c m # ys) False =
      do { kept \<leftarrow> drain H xs; State_Monad.return (kept @ mark_failed c m # ys, False) }" for m
    using snoc [of "mark_failed c m # ys" False] by simp
  show ?case
  proof (cases "hs_Name c = []")
    case True
    then show ?thesis using snoc [of ys ok] by (simp add: drain_append)
  next
    case False
    have "(case err of None \<Rightarrow> delete_loop H (length xs) (xs @ ys) ok
            | Some m \<Rightarrow> delete_loop H (length xs) (xs @ mark_failed c m # ys) False) =
        do { kept \<leftarrow> drain H xs;
          State_Monad.return (kept @ (case err of None \<Rightarrow> [] | Some m \<Rightarrow> [mark_failed c m]) @ ys,
            ok \<and> kept @ (case err of None \<Rightarrow> [] | Some m \<Rightarrow> [mark_failed c m]) = []) }" for err
      using snoc [of ys ok] by (cases err) (simp_all add: IH)
    then show ?thesis using False
      by (simp add: drain_append) (rule arg_cong [where f = "State_Monad.bind _"], rule ext, simp)
  qed
qed simp

lemma emits_drain: "emits (\<lambda>e. \<exists>c \<in> set cs. hs_Name c \<noteq> [] \<and> uninstall_event (hs_Name c) e) (drain H cs)"
proof (induction cs)
  case (Cons c cs)
  let ?P = "\<lambda>e. \<exists>x \<in> set (c # cs). hs_Name x \<noteq> [] \<and> uninstall_event (hs_Name x) e"
  have "emits ?P (drain H cs)" by (rule emits_mono [OF Cons.IH]) auto
  moreover have "emits ?P (uninstallComponent H (hs_Name c))" if "hs_Name c \<noteq> []"
    by (rule uninst.op_mono) (use that in auto)
  ultimately show ?case by (auto intro!: emits_intros)
qed (simp add: emits_intros)

lemma drain_extends [simp, intro]: "extends (drain H cs)"
  by (rule emits_extends [OF emits_drain])

lemma drain_Cons:
  "result_of (drain H (c # cs)) tr =
     (if hs_Name c = [] then result_of (drain H cs) tr
      else case result_of (uninstallComponent H (hs_Name c)) (tr @ events_of (drain H cs) tr) of
        None \<Rightarrow> result_of (drain H cs) tr
      | Some m \<Rightarrow> mark_failed c m # result_of (drain H cs) tr)"
  "events_of (drain H (c # cs)) tr = events_of (drain H cs) tr @
     (if hs_Name c = [] then [] else
      events_of (uninstallComponent H (hs_Name c)) (tr @ events_of (drain H cs) tr))"
  by (simp_all add: result_bind events_bind emits_intros split: option.splits)

declare drain.simps(2) [simp del]

text \<open>A component was uninstalled without an error, or it is among those that are kept.\<close>

lemma drain_ran:
  "c \<in> set cs \<Longrightarrow> hs_Name c \<noteq> [] \<Longrightarrow>
   ran (uninstallComponent H (hs_Name c)) None tr (events_of (drain H cs) tr) \<or>
   hs_Name c \<in> hs_Name ` set (result_of (drain H cs) tr)"
proof (induction cs)
  case (Cons d cs)
  show ?case
  proof (cases "c \<in> set cs")
    case True
    with Cons show ?thesis
      by (auto simp: drain_Cons image_iff split: option.splits intro: ran_append)
  next
    case False
    with Cons.prems have "c = d" by simp
    with Cons.prems show ?thesis
      by (cases "result_of (uninstallComponent H (hs_Name d)) (tr @ events_of (drain H cs) tr)")
         (auto simp: drain_Cons ran_last mark_failed_def)
  qed
qed simp

lemma drain_empty_ran:
  "result_of (drain H cs) tr = [] \<Longrightarrow> c \<in> set cs \<Longrightarrow> hs_Name c \<noteq> [] \<Longrightarrow>
   ran (uninstallComponent H (hs_Name c)) None tr (events_of (drain H cs) tr)"
  using drain_ran [of c cs H tr] by simp

lemma drain_kept:
  "subseq (map hs_Name (result_of (drain H cs) tr)) (map hs_Name cs) \<and>
   list_all failed_status (result_of (drain H cs) tr)"
  by (induction cs) (auto simp: drain_Cons mark_failed_def split: option.splits)

text \<open>The releases Helm is asked about, in order.\<close>

definition asked :: "event list \<Rightarrow> string list" where
  "asked es = List.map_filter (\<lambda>e. case e of HelmGet n \<Rightarrow> Some n | _ \<Rightarrow> None) es"

lemma asked_simps [simp]: "asked [] = []" "asked (es @ fs) = asked es @ asked fs"
  "asked (HelmGet n # es) = n # asked es" "asked (HelmUninstall n # es) = asked es"
  by (simp_all add: asked_def List.map_filter_def)

lemma asked_uninstall: "asked (events_of (uninstallComponent H n) tr) = [n]"
  by (cases "h_Get H tr n")
     (auto simp: events_of_def uninstallComponent_run split: option.splits helm_error.splits)

lemma asked_drain: "asked (events_of (drain H cs) tr) = rev (filter (\<lambda>n. n \<noteq> []) (map hs_Name cs))"
  by (induction cs) (auto simp: drain_Cons asked_uninstall)

section \<open>One run of the deletion handler\<close>

lemma delete_loop_all:
  "delete_loop H (length cs) cs True = do { kept \<leftarrow> drain H cs; State_Monad.return (kept, kept = []) }"
  using delete_loop_drain [of H cs "[]" True] by simp

definition drained_app :: "HelmApp \<Rightarrow> HelmComponentStatus list \<Rightarrow> HelmApp" where
  "drained_app app kept = app\<lparr>ha_Status :=
     Some \<lparr>st_Phase = calculateOverallPhase app kept, st_Components = kept\<rparr>\<rparr>"

definition released_app :: "kube_api \<Rightarrow> HelmApp \<Rightarrow> HelmApp" where
  "released_app K app = app\<lparr>ha_Meta := (ha_Meta app)\<lparr>om_Finalizers :=
     k_RemoveFinalizer K (om_Finalizers (ha_Meta app)) HelmAppFinalizer\<rparr>\<rparr>"

lemma reconcileDelete_init_error:
  "run_state (init_helm H (om_Namespace (ha_Meta app))) tr = (Some m, t) \<Longrightarrow>
   run_state (HelmApp_reconcileDelete K H app) tr =
     (Returned (requeue_after serverFailedAfter, Some m), t)"
  by (simp add: HelmApp_reconcileDelete_def)

lemma reconcileDelete_nil_status:
  "run_state (init_helm H (om_Namespace (ha_Meta app))) tr = (None, t) \<Longrightarrow> ha_Status app = None \<Longrightarrow>
   run_state (HelmApp_reconcileDelete K H app) tr = (Panicked, t)"
  by (simp add: HelmApp_reconcileDelete_def)

lemma reconcileDelete_run:
  assumes "run_state (init_helm H (om_Namespace (ha_Meta app))) tr = (None, t)"
    and "ha_Status app = Some st"
  shows "run_state (HelmApp_reconcileDelete K H app) tr =
    (let kept = result_of (drain H (st_Components st)) t;
         t1 = t @ events_of (drain H (st_Components st)) t;
         app1 = drained_app app kept; t2 = t1 @ [UpdateHelmAppStatus app1]
     in case k_UpdateHelmAppStatus K t1 app1 of
          Inl e \<Rightarrow> (Returned (requeue_after serverFailedAfter,
            Some (''failed to update HelmApp status: '' @ kube_text e)), t2)
        | Inr app2 \<Rightarrow>
            if kept = [] then
              (case k_UpdateHelmApp K t2 (released_app K app2) of
                 Inl e \<Rightarrow> Returned (requeue_after serverFailedAfter, Some (kube_text e))
               | Inr app3 \<Rightarrow> Returned (no_requeue, None), t2 @ [UpdateHelmApp (released_app K app2)])
            else (Returned (\<lparr>cr_Requeue = True, cr_RequeueAfter = 0\<rparr>, None), t2))"
proof -
  have d: "run_state (drain H (st_Components st)) t =
      (result_of (drain H (st_Components st)) t, t @ events_of (drain H (st_Components st)) t)"
    by (rule run_extends) simp
  obtain ph comps where st: "st = \<lparr>st_Phase = ph, st_Components = comps\<rparr>" by (cases st)
  show ?thesis
    by (cases "comps = []")
       (use assms d in \<open>auto simp: st HelmApp_reconcileDelete_def drained_app_def released_app_def
         Let_def delete_loop_all split: sum.splits\<close>)
qed

section \<open>Properties of the deletion\<close>

lemma init_helm_ok:
  assumes "run_state (init_helm H ns) tr = (None, t)"
  shows "t = tr @ [NewRegistryClient, HelmInit ns]"
  using assms by (auto simp: init_helm_run split: option.splits)

lemma init_helm_cases:
  obtains (failed) m t es where "run_state (init_helm H ns) tr = (Some m, t)" "t = tr @ es"
      "list_all (\<lambda>e. e = NewRegistryClient \<or> e = HelmInit ns) es"
  | (ok) "run_state (init_helm H ns) tr = (None, tr @ [NewRegistryClient, HelmInit ns])"
proof (cases "fst (run_state (init_helm H ns) tr)")
  case None
  then have "run_state (init_helm H ns) tr = (None, tr @ [NewRegistryClient, HelmInit ns])"
    by (auto simp: init_helm_run split: option.splits)
  then show ?thesis by (rule ok)
next
  case (Some m)
  moreover obtain es where "snd (run_state (init_helm H ns) tr) = tr @ es"
      "list_all (\<lambda>e. e = NewRegistryClient \<or> e = HelmInit ns) es"
    using init_helm_emits unfolding emits_def by blast
  ultimately show ?thesis using failed by (metis prod.collapse)
qed

lemma drain_no_kube: "list_all (\<lambda>e. \<not> kube_write e) (events_of (drain H cs) tr)"
  by (rule list.pred_mono_strong [OF events_emits [OF emits_drain]])
     (auto simp: uninstall_event_def)

lemma reconcileDelete_events:
  assumes "run_state (init_helm H (om_Namespace (ha_Meta app))) tr = (None, t)"
    and "ha_Status app = Some st"
    and "kept = result_of (drain H (st_Components st)) t"
    and "es = events_of (drain H (st_Components st)) t"
  shows "events_of (HelmApp_reconcileDelete K H app) tr =
     [NewRegistryClient, HelmInit (om_Namespace (ha_Meta app))] @ es @
     UpdateHelmAppStatus (drained_app app kept) #
     (case k_UpdateHelmAppStatus K (t @ es) (drained_app app kept) of
        Inl e \<Rightarrow> []
      | Inr app2 \<Rightarrow> if kept = [] then [UpdateHelmApp (released_app K app2)] else [])"
  using init_helm_ok [OF assms(1)] assms(3,4)
  by (simp add: events_of_def reconcileDelete_run [OF assms(1,2)] Let_def split: sum.splits)

text \<open>C2. The loop that uninstalls by index from the end, deleting entries from the slice it walks,
  equals the recursion that uninstalls the tail first and keeps the components that failed; all are
  uninstalled exactly when nothing is kept.\<close>

theorem delete_loop_refines_drain:
  "delete_loop H (length comps) comps True =
   do { kept \<leftarrow> drain H comps; State_Monad.return (kept, kept = []) }"
  by (rule delete_loop_all)

text \<open>A deletion asks Helm about the named components of the status in reverse order, each once.\<close>

theorem deletion_reverse_order:
  assumes "run_state (init_helm H (om_Namespace (ha_Meta app))) tr = (None, t)"
    and "ha_Status app = Some st"
  shows "asked (events_of (HelmApp_reconcileDelete K H app) tr) =
    rev (filter (\<lambda>n. n \<noteq> []) (map hs_Name (st_Components st)))"
proof -
  have [simp]: "asked (NewRegistryClient # es) = asked es" "asked (HelmInit n # es) = asked es"
    "asked (UpdateHelmAppStatus a # es) = asked es" "asked (UpdateHelmApp a # es) = asked es" for es n a
    by (simp_all add: asked_def List.map_filter_def)
  show ?thesis
    by (simp add: reconcileDelete_events [OF assms refl refl] asked_drain split: sum.splits)
qed

definition sample_status :: "string \<Rightarrow> HelmComponentStatus" where
  "sample_status n = \<lparr>hs_Name = n, hs_Status = StatusDeployed, hs_Message = [], hs_Version = Itoa 1,
     hs_Resources = [], hs_ResourcesTotal = 0\<rparr>"

definition deleted_app :: HelmApp where
  "deleted_app = sample_app\<lparr>ha_Meta := sample_meta\<lparr>om_Finalizers := [HelmAppFinalizer],
       om_DeletionTimestamp := Some 7\<rparr>,
     ha_Status := Some \<lparr>st_Phase = Phase_SUCCEEDED,
       st_Components = [sample_status ''a'', sample_status [], sample_status ''b'']\<rparr>\<rparr>"

abbreviation demo_kube :: "HelmApp \<Rightarrow> kube_api" where
  "demo_kube app \<equiv> sample_kube (\<lambda>k. Inr app) (\<lambda>k. Inl (NotFound []))"

lemma sample_init: "run_state (init_helm sample_helm ns) tr = (None, tr @ [NewRegistryClient, HelmInit ns])"
  by (simp add: init_helm_run sample_helm_def)

theorem deletion_reverse_order_witness:
  "asked (events_of (HelmApp_reconcileDelete (demo_kube deleted_app) sample_helm deleted_app) []) =
   [''b'', ''a'']"
  by (subst deletion_reverse_order [OF sample_init])
     (auto simp: deleted_app_def sample_status_def)

text \<open>C1. The HelmApp is written back without its finalizer only when its status is not nil and every
  named component in it has been uninstalled, without error, earlier in the same run.\<close>

theorem finalizer_removed_only_when_drained:
  assumes "finalizer_laws K"
    and "UpdateHelmApp a \<in> set (events_of (HelmApp_reconcileDelete K H app) tr)"
  shows "HelmAppFinalizer \<notin> set (om_Finalizers (ha_Meta a)) \<and>
    (\<exists>st. ha_Status app = Some st \<and>
      (\<forall>c \<in> set (st_Components st). hs_Name c \<noteq> [] \<longrightarrow>
         ran (uninstallComponent H (hs_Name c)) None tr
           (events_of (HelmApp_reconcileDelete K H app) tr)))"
proof (cases rule: init_helm_cases [of H "om_Namespace (ha_Meta app)" tr])
  case (failed m t es)
  then show ?thesis
    using assms(2) by (auto simp: events_of_def reconcileDelete_init_error list_all_iff)
next
  case ok
  let ?t = "tr @ [NewRegistryClient, HelmInit (om_Namespace (ha_Meta app))]"
  show ?thesis
  proof (cases "ha_Status app")
    case None
    then show ?thesis
      using assms(2) by (simp add: events_of_def reconcileDelete_nil_status [OF ok])
  next
    case (Some st)
    let ?es = "events_of (drain H (st_Components st)) ?t"
    note ev = reconcileDelete_events [OF ok Some refl refl, of K]
    have "UpdateHelmApp a \<notin> set ?es"
      using drain_no_kube [of H "st_Components st" ?t] by (auto simp: list_all_iff)
    then have kept: "result_of (drain H (st_Components st)) ?t = []"
      and a: "\<exists>app2. a = released_app K app2"
      using assms(2) by (auto simp: ev split: sum.splits if_splits)
    have "ran (uninstallComponent H (hs_Name c)) None tr
        (events_of (HelmApp_reconcileDelete K H app) tr)"
      if "c \<in> set (st_Components st)" "hs_Name c \<noteq> []" for c
      unfolding ev by (rule ran_shift, rule ran_append, rule drain_empty_ran) (use kept that in simp_all)
    moreover have "HelmAppFinalizer \<notin> set (om_Finalizers (ha_Meta a))"
      using a assms(1) by (auto simp: released_app_def finalizer_laws_def)
    ultimately show ?thesis using Some by blast
  qed
qed

lemma drain_sample: "result_of (drain sample_helm cs) tr = []"
proof -
  have "result_of (uninstallComponent sample_helm n) t = None" for n t
    by (simp add: result_of_def uninstallComponent_run sample_helm_def)
  then show ?thesis by (induction cs arbitrary: tr) (simp_all add: drain_Cons)
qed

theorem finalizer_removed_only_when_drained_witness:
  "\<exists>st. ha_Status deleted_app = Some st \<and>
      (\<forall>c \<in> set (st_Components st). hs_Name c \<noteq> [] \<longrightarrow>
         ran (uninstallComponent sample_helm (hs_Name c)) None []
           (events_of (HelmApp_reconcileDelete (demo_kube deleted_app) sample_helm deleted_app) []))"
proof -
  let ?K = "demo_kube deleted_app"
  have "UpdateHelmApp (released_app ?K (drained_app deleted_app [])) \<in>
      set (events_of (HelmApp_reconcileDelete ?K sample_helm deleted_app) [])"
    by (subst reconcileDelete_events [OF sample_init _ refl refl])
       (auto simp: deleted_app_def drain_sample sample_kube_def)
  from finalizer_removed_only_when_drained [OF sample_finalizer_laws this] show ?thesis by blast
qed

text \<open>C39. A HelmApp that is deleted before its status was ever written makes the handler panic, after
  it has connected to Helm and before it writes anything: its finalizer is never removed.\<close>

theorem deletion_without_status_panics:
  assumes "ha_Status app = None"
    and "run_state (init_helm H (om_Namespace (ha_Meta app))) tr = (None, t)"
  shows "result_of (HelmApp_reconcileDelete K H app) tr = Panicked \<and>
    events_of (HelmApp_reconcileDelete K H app) tr =
      [NewRegistryClient, HelmInit (om_Namespace (ha_Meta app))]"
  using init_helm_ok [OF assms(2)]
  by (simp add: result_of_def events_of_def reconcileDelete_nil_status [OF assms(2,1)])

theorem deletion_without_status_panics_witness:
  "result_of (HelmApp_reconcileDelete (demo_kube sample_app) sample_helm sample_app) [] = Panicked"
  using deletion_without_status_panics [OF _ sample_init, of sample_app "demo_kube sample_app" "[]"]
  by (simp add: sample_app_def)

text \<open>A deletion that could not uninstall everything keeps the object: the status is written back
  with just the components that failed, in their old order and marked failed, the finalizer stays
  and the handler asks to be called again.\<close>

theorem failed_deletion_is_retried:
  assumes "run_state (init_helm H (om_Namespace (ha_Meta app))) tr = (None, t)"
    and "ha_Status app = Some st"
    and "result_of (drain H (st_Components st)) t \<noteq> []"
    and "k_UpdateHelmAppStatus K (t @ events_of (drain H (st_Components st)) t)
          (drained_app app (result_of (drain H (st_Components st)) t)) = Inr app2"
  shows "result_of (HelmApp_reconcileDelete K H app) tr =
      Returned (\<lparr>cr_Requeue = True, cr_RequeueAfter = 0\<rparr>, None) \<and>
    (\<exists>kept. filter kube_write (events_of (HelmApp_reconcileDelete K H app) tr) =
        [UpdateHelmAppStatus (drained_app app kept)] \<and> kept \<noteq> [] \<and> list_all failed_status kept \<and>
        subseq (map hs_Name kept) (map hs_Name (st_Components st)))"
proof -
  let ?es = "events_of (drain H (st_Components st)) t"
  have "filter kube_write ?es = []"
    using drain_no_kube [of H "st_Components st" t] by (auto simp: filter_empty_conv list_all_iff)
  then have "filter kube_write (events_of (HelmApp_reconcileDelete K H app) tr) =
      [UpdateHelmAppStatus (drained_app app (result_of (drain H (st_Components st)) t))]"
    using assms(3,4) by (simp add: reconcileDelete_events [OF assms(1,2) refl refl])
  with assms drain_kept [of H "st_Components st" t] show ?thesis
    by (auto simp: result_of_def [of "HelmApp_reconcileDelete K H app"] reconcileDelete_run Let_def)
qed

definition stuck_helm :: helm_api where
  "stuck_helm = sample_helm\<lparr>h_Uninstall := (\<lambda>tr n. if n = ''a'' then Some (HelmError ''busy'') else None)\<rparr>"

lemma stuck_uninstall:
  "run_state (uninstallComponent stuck_helm n) tr =
   (if n = ''a'' then Some ''busy'' else None, tr @ [HelmGet n, HelmUninstall n])"
  by (simp add: uninstallComponent_run stuck_helm_def sample_helm_def)

theorem failed_deletion_is_retried_witness:
  "result_of (HelmApp_reconcileDelete (demo_kube deleted_app) stuck_helm deleted_app) [] =
   Returned (\<lparr>cr_Requeue = True, cr_RequeueAfter = 0\<rparr>, None)"
proof -
  have init: "run_state (init_helm stuck_helm ns) tr = (None, tr @ [NewRegistryClient, HelmInit ns])" for ns tr
    by (simp add: init_helm_run stuck_helm_def sample_helm_def)
  have kept: "result_of (drain stuck_helm [sample_status ''a'', sample_status [], sample_status ''b'']) tr =
      [mark_failed (sample_status ''a'') ''busy'']" for tr
    by (simp add: drain_Cons result_of_def [of "uninstallComponent _ _"] stuck_uninstall sample_status_def)
  show ?thesis
    using failed_deletion_is_retried [OF init, of deleted_app
        "\<lparr>st_Phase = Phase_SUCCEEDED,
           st_Components = [sample_status ''a'', sample_status [], sample_status ''b'']\<rparr>"
        "[]" "demo_kube deleted_app"
        "drained_app deleted_app [mark_failed (sample_status ''a'') ''busy'']"]
    by (simp add: kept) (simp add: deleted_app_def sample_kube_def)
qed

text \<open>A deletion that nothing obstructs completes in one run: when Helm uninstalls every component
  and the API server accepts both writes, the finalizer is removed and there is nothing to retry.\<close>

theorem unobstructed_deletion_completes:
  assumes "finalizer_laws K"
    and "run_state (init_helm H (om_Namespace (ha_Meta app))) tr = (None, t)"
    and "ha_Status app = Some st"
    and "\<And>c tr'. c \<in> set (st_Components st) \<Longrightarrow> result_of (uninstallComponent H (hs_Name c)) tr' = None"
    and "\<And>tr' a. k_UpdateHelmAppStatus K tr' a = Inr a"
    and "\<And>tr' a. \<exists>a'. k_UpdateHelmApp K tr' a = Inr a'"
  shows "result_of (HelmApp_reconcileDelete K H app) tr = Returned (no_requeue, None) \<and>
    (\<exists>a. last (events_of (HelmApp_reconcileDelete K H app) tr) = UpdateHelmApp a \<and>
       HelmAppFinalizer \<notin> set (om_Finalizers (ha_Meta a)) \<and>
       ha_Status a = Some \<lparr>st_Phase = Phase_UNKNOWN, st_Components = []\<rparr>)"
proof -
  have kept: "result_of (drain H cs) tr' = []" if "set cs \<subseteq> set (st_Components st)" for cs tr'
    using that assms(4) by (induction cs arbitrary: tr') (simp_all add: drain_Cons)
  obtain f where "k_UpdateHelmApp K tr' a = Inr (f tr' a)" for tr' a
    using assms(6) by metis
  with assms(1-3,5) show ?thesis
    by (auto simp: result_of_def [of "HelmApp_reconcileDelete K H app"] reconcileDelete_run Let_def
        reconcileDelete_events kept drained_app_def released_app_def finalizer_laws_def
        calculateOverallPhase_eq)
qed

theorem unobstructed_deletion_completes_witness:
  "result_of (HelmApp_reconcileDelete (demo_kube deleted_app) sample_helm deleted_app) [] =
   Returned (no_requeue, None)"
proof -
  have "result_of (uninstallComponent sample_helm n) t = None" for n t
    by (simp add: result_of_def uninstallComponent_run sample_helm_def)
  with unobstructed_deletion_completes [OF sample_finalizer_laws sample_init,
      of deleted_app "\<lparr>st_Phase = Phase_SUCCEEDED,
         st_Components = [sample_status ''a'', sample_status [], sample_status ''b'']\<rparr>"]
  show ?thesis by (simp add: deleted_app_def sample_kube_def)
qed

section \<open>Orphans\<close>

lemma subseq_set: "subseq xs ys \<Longrightarrow> set xs \<subseteq> set ys"
  by (induction rule: list_emb.induct) auto

definition orphan :: "(string \<times> HelmComponent) list \<Rightarrow> HelmComponentStatus \<Rightarrow> bool" where
  "orphan desired s \<longleftrightarrow> map_of desired (hs_Name s) = None \<and> hs_Name s \<noteq> []"

lemma desired_components_iff:
  "map_of (desired_components cs) n = None \<longleftrightarrow> n \<notin> hc_Name ` set cs"
  using entries.stored_keys [of hc_Name "\<lambda>c. c" cs "[]" n] by (auto simp: desired_components_def)

lemma orphan_desired: "orphan (desired_components cs) s \<longleftrightarrow> hs_Name s \<notin> hc_Name ` set cs \<and> hs_Name s \<noteq> []"
  by (simp add: orphan_def desired_components_iff)

lemma orphan_loop_simps:
  "orphan_loop H d (s # ss) acc =
   (if orphan d s then do {
      err \<leftarrow> uninstallComponent H (hs_Name s);
      orphan_loop H d ss (case err of Some m \<Rightarrow> acc @ [orphan_status s m] | None \<Rightarrow> acc)
    } else orphan_loop H d ss acc)"
  by (simp add: orphan_def)

declare orphan_loop.simps(2) [simp del]

lemma emits_orphan_loop:
  "emits (\<lambda>e. \<exists>s \<in> set ss. orphan d s \<and> uninstall_event (hs_Name s) e) (orphan_loop H d ss acc)"
proof (induction ss arbitrary: acc)
  case (Cons s ss)
  let ?P = "\<lambda>e. \<exists>x \<in> set (s # ss). orphan d x \<and> uninstall_event (hs_Name x) e"
  have "emits ?P (orphan_loop H d ss acc')" for acc' by (rule emits_mono [OF Cons.IH]) auto
  moreover have "emits ?P (uninstallComponent H (hs_Name s))" if "orphan d s"
    by (rule uninst.op_mono) (use that in auto)
  ultimately show ?case by (auto simp: orphan_loop_simps intro!: emits_intros)
qed (simp add: emits_intros)

lemma orphan_loop_extends [simp, intro]: "extends (orphan_loop H d ss acc)"
  by (rule emits_extends [OF emits_orphan_loop])

lemma orphan_loop_result:
  "\<exists>failed. result_of (orphan_loop H d ss acc) tr = acc @ failed \<and> list_all failed_status failed \<and>
     subseq (map hs_Name failed) (map hs_Name (filter (orphan d) ss))"
proof (induction ss arbitrary: acc tr)
  case (Cons s ss)
  show ?case
  proof (cases "orphan d s")
    case False
    with Cons show ?thesis by (simp add: orphan_loop_simps)
  next
    case True
    obtain err where err: "result_of (uninstallComponent H (hs_Name s)) tr = err" by blast
    let ?new = "case err of None \<Rightarrow> [] | Some m \<Rightarrow> [orphan_status s m]"
    let ?t = "tr @ events_of (uninstallComponent H (hs_Name s)) tr"
    obtain failed where f: "result_of (orphan_loop H d ss (acc @ ?new)) ?t = (acc @ ?new) @ failed"
        "list_all failed_status failed"
        "subseq (map hs_Name failed) (map hs_Name (filter (orphan d) ss))"
      using Cons by blast
    have "result_of (orphan_loop H d (s # ss) acc) tr = acc @ ?new @ failed"
      using True f(1) err by (cases err) (simp_all add: orphan_loop_simps result_bind)
    moreover have "list_all failed_status (?new @ failed)"
      using f(2) by (cases err) (simp_all add: orphan_status_def)
    moreover have "subseq (map hs_Name (?new @ failed)) (map hs_Name (filter (orphan d) (s # ss)))"
      using f(3) True by (cases err) (auto simp: orphan_status_def)
    ultimately show ?thesis by blast
  qed
qed simp

section \<open>One run of the reconcile handler\<close>

definition names_of :: "HelmAppSpec \<Rightarrow> string set" where
  "names_of spec = hc_Name ` set (slice (spec_Components spec))"

definition orphan_of :: "HelmApp \<Rightarrow> HelmAppSpec \<Rightarrow> string \<Rightarrow> bool" where
  "orphan_of app spec n \<longleftrightarrow> n \<noteq> [] \<and> n \<notin> names_of spec \<and>
     (\<exists>st. ha_Status app = Some st \<and> n \<in> hs_Name ` set (st_Components st))"

definition app_event :: "HelmApp \<Rightarrow> HelmAppSpec \<Rightarrow> event \<Rightarrow> bool" where
  "app_event app spec e \<longleftrightarrow>
     (\<exists>c \<in> set (slice (spec_Components spec)). component_event c e) \<or>
     (\<exists>n. orphan_of app spec n \<and> uninstall_event n e)"

lemma emits_component_statuses: "emits (app_event app spec) (component_statuses L H app spec)"
proof -
  have "emits (app_event app spec) (for_each (reconcileComponent L H app) (slice (spec_Components spec)))"
    by (rule emits_mono [OF reconcile_component.loop_own]) (auto simp: app_event_def)
  moreover have "emits (app_event app spec)
      (orphan_loop H (desired_components (slice (spec_Components spec))) (st_Components st) acc)"
    if "ha_Status app = Some st" for st acc
    by (rule emits_mono [OF emits_orphan_loop])
       (use that in \<open>auto simp: app_event_def orphan_of_def names_of_def orphan_desired\<close>)
  ultimately show ?thesis by (auto simp: component_statuses_def intro!: emits_intros)
qed

lemma component_statuses_extends [simp, intro]: "extends (component_statuses L H app spec)"
  by (rule emits_extends [OF emits_component_statuses])

lemma loop_names:
  assumes "result_of (for_each (reconcileComponent L H app) cs) tr = Returned rs"
  shows "map hs_Name (map fst rs) = map hc_Name cs"
proof -
  have len: "length rs = length cs" using reconcile_component.loop_results [OF assms] by simp
  have "hs_Name (fst (rs ! i)) = hc_Name (cs ! i)" if i: "i < length cs" for i
  proof -
    obtain tr' where "result_of (reconcileComponent L H app (cs ! i)) tr' = Returned (rs ! i)"
      using reconcile_component.loop_results [OF assms] i by blast
    then show ?thesis using reconcileComponent_status by (metis prod.collapse)
  qed
  with len show ?thesis by (simp add: list_eq_iff_nth_eq)
qed

lemma component_statuses_result:
  assumes "result_of (component_statuses L H app spec) tr = Returned ss"
  shows "\<exists>own failed. ss = own @ failed \<and>
    map hs_Name own = map hc_Name (slice (spec_Components spec)) \<and>
    list_all failed_status failed \<and> list_all (orphan_of app spec) (map hs_Name failed)"
proof -
  let ?cs = "slice (spec_Components spec)"
  let ?t = "tr @ events_of (for_each (reconcileComponent L H app) ?cs) tr"
  obtain rs where rs: "result_of (for_each (reconcileComponent L H app) ?cs) tr = Returned rs"
    using assms by (cases "result_of (for_each (reconcileComponent L H app) ?cs) tr")
      (auto simp: component_statuses_def result_bind)
  have own: "map hs_Name (map fst rs) = map hc_Name ?cs" by (rule loop_names [OF rs])
  show ?thesis
  proof (cases "ha_Status app")
    case None
    with assms rs have "ss = map fst rs" by (simp add: component_statuses_def result_bind)
    with own show ?thesis by (intro exI [of _ ss] exI [of _ "[]"]) simp
  next
    case (Some st)
    obtain failed where f: "result_of (orphan_loop H (desired_components ?cs) (st_Components st)
          (map fst rs)) ?t = map fst rs @ failed" "list_all failed_status failed"
        "subseq (map hs_Name failed) (map hs_Name (filter (orphan (desired_components ?cs)) (st_Components st)))"
      using orphan_loop_result by blast
    have "ss = map fst rs @ failed"
      using assms rs Some f(1) by (simp add: component_statuses_def result_bind)
    moreover have "list_all (orphan_of app spec) (map hs_Name failed)"
    proof -
      have "set (map hs_Name failed) \<subseteq>
          set (map hs_Name (filter (orphan (desired_components ?cs)) (st_Components st)))"
        using f(3) by (rule subseq_set)
      then have "orphan_of app spec n" if "n \<in> set (map hs_Name failed)" for n
        using that Some unfolding orphan_of_def names_of_def by (auto simp: orphan_desired)
      then show ?thesis unfolding list_all_iff by blast
    qed
    ultimately show ?thesis using own f(2) by blast
  qed
qed

text \<open>Helm uninstalls what it is asked to; then no orphan is left in the status.\<close>

definition helm_uninstalls :: "helm_api \<Rightarrow> bool" where
  "helm_uninstalls H \<longleftrightarrow>
     (\<forall>tr n m. snd (h_Get H tr n) \<noteq> Some (HelmError m)) \<and> (\<forall>tr n m. h_Uninstall H tr n \<noteq> Some (HelmError m))"

lemma uninstall_works: "helm_uninstalls H \<Longrightarrow> result_of (uninstallComponent H n) tr = None"
  by (cases "h_Get H tr n")
    (auto simp: result_of_def uninstallComponent_run helm_uninstalls_def split: option.splits helm_error.splits; metis snd_conv)

lemma component_statuses_clean:
  assumes "helm_uninstalls H" and "result_of (component_statuses L H app spec) tr = Returned ss"
  shows "map hs_Name ss = map hc_Name (slice (spec_Components spec))"
proof -
  let ?cs = "slice (spec_Components spec)"
  have clean: "result_of (orphan_loop H d os acc) t = acc" for d os acc t
    by (induction os arbitrary: acc t) (simp_all add: orphan_loop_simps result_bind uninstall_works [OF assms(1)])
  obtain rs where rs: "result_of (for_each (reconcileComponent L H app) ?cs) tr = Returned rs"
    using assms(2) by (cases "result_of (for_each (reconcileComponent L H app) ?cs) tr")
      (auto simp: component_statuses_def result_bind)
  then have "ss = map fst rs"
    using assms(2) clean by (cases "ha_Status app") (simp_all add: component_statuses_def result_bind)
  with loop_names [OF rs] show ?thesis by simp
qed

definition reported_app :: "HelmApp \<Rightarrow> HelmComponentStatus list \<Rightarrow> HelmApp" where
  "reported_app app ss = app\<lparr>ha_Status :=
     Some \<lparr>st_Phase = calculateOverallPhase app ss, st_Components = ss\<rparr>\<rparr>"

lemma apply_init_error:
  "run_state (init_helm H (om_Namespace (ha_Meta app))) tr = (Some m, t) \<Longrightarrow>
   run_state (HelmApp_apply L K H app) tr = (Returned (requeue_after serverFailedAfter, Some m), t)"
  by (simp add: HelmApp_apply_def)

lemma apply_nil_spec:
  "run_state (init_helm H (om_Namespace (ha_Meta app))) tr = (None, t) \<Longrightarrow> ha_Spec app = None \<Longrightarrow>
   run_state (HelmApp_apply L K H app) tr = (Panicked, t)"
  by (simp add: HelmApp_apply_def)

lemma apply_run:
  assumes "run_state (init_helm H (om_Namespace (ha_Meta app))) tr = (None, t)"
    and "ha_Spec app = Some spec"
  shows "run_state (HelmApp_apply L K H app) tr =
    (let t1 = t @ events_of (component_statuses L H app spec) t in
     case result_of (component_statuses L H app spec) t of
       Panicked \<Rightarrow> (Panicked, t1)
     | Returned ss \<Rightarrow>
         (case k_UpdateHelmAppStatus K t1 (reported_app app ss) of
            Inl e \<Rightarrow> Returned (requeue_after serverFailedAfter,
              Some (''failed to update HelmApp status: '' @ kube_text e))
          | Inr a \<Rightarrow> Returned (if calculateOverallPhase app ss = Phase_FAILED
              then requeue_after failedAfter else no_requeue, None),
          t1 @ [UpdateHelmAppStatus (reported_app app ss)]))"
proof -
  have "run_state (component_statuses L H app spec) t =
      (result_of (component_statuses L H app spec) t,
       t @ events_of (component_statuses L H app spec) t)"
    by (rule run_extends) simp
  with assms show ?thesis
    by (simp add: HelmApp_apply_def reported_app_def Let_def split: outcome.splits sum.splits)
qed

lemma apply_events:
  assumes "run_state (init_helm H (om_Namespace (ha_Meta app))) tr = (None, t)"
    and "ha_Spec app = Some spec"
  shows "events_of (HelmApp_apply L K H app) tr =
    [NewRegistryClient, HelmInit (om_Namespace (ha_Meta app))] @
    events_of (component_statuses L H app spec) t @
    (case result_of (component_statuses L H app spec) t of
       Panicked \<Rightarrow> [] | Returned ss \<Rightarrow> [UpdateHelmAppStatus (reported_app app ss)])"
  using init_helm_ok [OF assms(1)]
  by (simp add: events_of_def [of "HelmApp_apply L K H app"] apply_run [OF assms] Let_def
      split: outcome.splits)

lemma emits_init: "emits (\<lambda>e. \<not> helm_write e \<and> \<not> kube_write e \<and> release_of e = None) (init_helm H ns)"
  by (rule emits_mono [OF init_helm_emits]) auto

lemma emits_HelmApp_apply:
  "emits (\<lambda>e. e = NewRegistryClient \<or> e = HelmInit (om_Namespace (ha_Meta app)) \<or>
     (\<exists>a. e = UpdateHelmAppStatus a) \<or> (\<exists>spec. ha_Spec app = Some spec \<and> app_event app spec e))
   (HelmApp_apply L K H app)"
proof -
  let ?P = "\<lambda>e. e = NewRegistryClient \<or> e = HelmInit (om_Namespace (ha_Meta app)) \<or>
     (\<exists>a. e = UpdateHelmAppStatus a) \<or> (\<exists>spec. ha_Spec app = Some spec \<and> app_event app spec e)"
  have "emits ?P (init_helm H (om_Namespace (ha_Meta app)))"
    by (rule emits_mono [OF init_helm_emits]) auto
  moreover have "emits ?P (component_statuses L H app spec)" if "ha_Spec app = Some spec" for spec
    by (rule emits_mono [OF emits_component_statuses]) (use that in auto)
  ultimately show ?thesis by (auto simp: HelmApp_apply_def intro!: emits_intros)
qed

section \<open>Properties of the reconciliation\<close>

fun uninstalls_only :: "(string \<Rightarrow> bool) \<Rightarrow> event \<Rightarrow> bool" where
  "uninstalls_only P (HelmUninstall n) = P n"
| "uninstalls_only P _ = True"

text \<open>C17. A reconcile never uninstalls a component of the spec nor a nameless one: every release it asks
  Helm to uninstall is in the status and no longer in the spec.\<close>

theorem only_orphans_uninstalled:
  "list_all (uninstalls_only (\<lambda>n. \<exists>spec. ha_Spec app = Some spec \<and> orphan_of app spec n))
     (events_of (HelmApp_apply L K H app) tr)"
proof (rule list.pred_mono_strong [OF events_emits [OF emits_HelmApp_apply]])
  fix e
  assume "e = NewRegistryClient \<or> e = HelmInit (om_Namespace (ha_Meta app)) \<or>
      (\<exists>a. e = UpdateHelmAppStatus a) \<or> (\<exists>spec. ha_Spec app = Some spec \<and> app_event app spec e)"
  then show "uninstalls_only (\<lambda>n. \<exists>spec. ha_Spec app = Some spec \<and> orphan_of app spec n) e"
    by (cases e) (auto simp: app_event_def component_event_def uninstall_event_def)
qed


lemma sample_component_result:
  "run_state (reconcileComponent sample_lib sample_helm app sample_component) tr =
   (Returned (sample_status ''demo'', None),
    tr @ [LocateChart (action_for app sample_component \<lparr>repo_Name = ''istio'', repo_Url = ''https://charts''\<rparr> ''demo'') ''gateway'',
      LoadChart ''gateway'', HelmHistory ''demo'',
      HelmInstall (action_for app sample_component \<lparr>repo_Name = ''istio'', repo_Url = ''https://charts''\<rparr> ''demo'')
        ''gateway'' (Some []), ParseManifest []])"
  if "ha_Spec app = Some sample_spec"
  using that
  by (subst reconcileComponent_run [of app sample_spec "\<lparr>repo_Name = ''istio'', repo_Url = ''https://charts''\<rparr>"])
     (simp_all add: converged_defs apply_release_run release_report_run component_result_def
       sample_status_def)

lemma sample_apply:
  "run_state (component_statuses sample_lib sample_helm sample_app sample_spec) tr =
   (Returned [sample_status ''demo''],
    snd (run_state (reconcileComponent sample_lib sample_helm sample_app sample_component) tr))"
  using sample_component_result [of sample_app]
  by (simp add: component_statuses_def sample_app_def sample_spec_def)




lemma component_statuses_each:
  assumes "\<And>c tr. c \<in> set (slice (spec_Components spec)) \<Longrightarrow>
      \<exists>y. result_of (reconcileComponent L H app c) tr = Returned y \<and> P c y"
    and "\<And>n. \<not> orphan_of app spec n"
  shows "\<exists>rs :: (HelmComponentStatus \<times> string option) list.
      result_of (component_statuses L H app spec) tr = Returned (map fst rs) \<and>
      events_of (component_statuses L H app spec) tr =
        events_of (for_each (reconcileComponent L H app) (slice (spec_Components spec))) tr \<and>
      list_all2 P (slice (spec_Components spec)) rs"
proof -
  let ?cs = "slice (spec_Components spec)"
  obtain rs where rs: "result_of (for_each (reconcileComponent L H app) ?cs) tr = Returned rs"
      "list_all2 P ?cs rs"
    using reconcile_component.loop_total [of ?cs L H app P tr] assms(1) by auto
  have none: "orphan_loop H d ss acc = State_Monad.return acc" if "\<forall>s \<in> set ss. \<not> orphan d s" for d ss acc
    using that by (induction ss) (simp_all add: orphan_loop_simps)
  have "ha_Status app = Some st \<Longrightarrow>
      orphan_loop H (desired_components ?cs) (st_Components st) acc = State_Monad.return acc" for st acc
    by (rule none) (use assms(2) in \<open>auto simp: orphan_desired orphan_of_def names_of_def\<close>)
  with rs show ?thesis
    by (intro exI [of _ rs]) (auto simp: component_statuses_def result_bind events_bind emits_intros
        split: option.splits outcome.splits)
qed

text \<open>When no chart can be found, every component fails, yet the written phase is RECONCILING and
  the handler reports success without asking to be called again: the failure is not retried.\<close>

theorem missing_charts_not_retried:
  assumes "run_state (init_helm H (om_Namespace (ha_Meta app))) tr = (None, t)"
    and "ha_Spec app = Some spec" and "spec_Repo spec = Some repo" and "ha_Status app = None"
    and "slice (spec_Components spec) \<noteq> []" and "\<not> is_deleting (ha_Meta app)"
    and "\<And>tr' action ref. \<exists>m. h_LocateChart H tr' action ref = Inl m"
    and "\<And>tr' a. \<exists>a'. k_UpdateHelmAppStatus K tr' a = Inr a'"
  shows "result_of (HelmApp_apply L K H app) tr = Returned (no_requeue, None) \<and>
    (\<exists>ss. last (events_of (HelmApp_apply L K H app) tr) = UpdateHelmAppStatus
        (app\<lparr>ha_Status := Some \<lparr>st_Phase = Phase_RECONCILING, st_Components = ss\<rparr>\<rparr>))"
proof -
  have no_orphans: "\<not> orphan_of app spec n" for n using assms(4) by (simp add: orphan_of_def)
  have each: "\<exists>y. result_of (reconcileComponent L H app c) tr' = Returned y \<and> hs_Status (fst y) = ''unknown''" for c tr'
  proof -
    obtain m where "h_LocateChart H tr' (action_for app c repo (hc_Name c)) (hc_Chart c) = Inl m"
      using assms(7) by blast
    then show ?thesis
      by (simp add: result_of_def reconcileComponent_run [OF assms(2,3)] chart_lookup_def
          unknown_status_def Let_def)
  qed
  obtain rs :: "(HelmComponentStatus \<times> string option) list"
    where rs: "result_of (component_statuses L H app spec) t = Returned (map fst rs)"
      "list_all2 (\<lambda>c y. hs_Status (fst y) = ''unknown'') (slice (spec_Components spec)) rs"
    using component_statuses_each [of spec L H app "\<lambda>c y. hs_Status (fst y) = ''unknown''" t,
        OF each no_orphans] by blast
  have "rs \<noteq> []" "\<forall>y \<in> set rs. hs_Status (fst y) = ''unknown''"
    using list_all2_right [OF rs(2)] assms(5) by (auto simp: list_all_iff)
  then have phase: "calculateOverallPhase app (map fst rs) = Phase_RECONCILING"
    using assms(6)
    by (cases rs) (auto simp: calculateOverallPhase_eq list_ex_iff StatusFailed_def StatusDeployed_def)
  obtain f where "k_UpdateHelmAppStatus K tr' a = Inr (f tr' a)" for tr' a
    using assms(8) by metis
  with rs(1) phase show ?thesis
    by (auto simp: result_of_def [of "HelmApp_apply L K H app"] apply_run [OF assms(1,2)] Let_def
        apply_events [OF assms(1,2)] reported_app_def)
qed

definition chartless_helm :: helm_api where
  "chartless_helm = sample_helm\<lparr>h_LocateChart := (\<lambda>tr a c. Inl ''no chart'')\<rparr>"

theorem missing_charts_not_retried_witness:
  "result_of (HelmApp_apply sample_lib (demo_kube sample_app) chartless_helm sample_app) [] =
   Returned (no_requeue, None)"
proof -
  have init: "run_state (init_helm chartless_helm ns) tr = (None, tr @ [NewRegistryClient, HelmInit ns])" for ns tr
    by (simp add: init_helm_run chartless_helm_def sample_helm_def)
  show ?thesis
    using missing_charts_not_retried [OF init, of sample_app sample_spec
        "\<lparr>repo_Name = ''istio'', repo_Url = ''https://charts''\<rparr>" "demo_kube sample_app" sample_lib "[]"]
    by (simp add: sample_app_def sample_spec_def sample_meta_def is_deleting_def chartless_helm_def
        sample_kube_def)
qed

definition component_in_sync :: "lib_api \<Rightarrow> helm_api \<Rightarrow> HelmApp \<Rightarrow> HelmComponent \<Rightarrow> bool" where
  "component_in_sync L H app c \<longleftrightarrow>
     (\<forall>tr. \<exists>st. result_of (reconcileComponent L H app c) tr = Returned (st, None) \<and>
       hs_Status st = StatusDeployed \<and> helm_writes (events_of (reconcileComponent L H app c) tr) = [])"

text \<open>A HelmApp in its desired state is left alone: when every component is deployed and in sync
  and the status lists no orphan, a run makes no Helm write, its only write is the status with the
  phase SUCCEEDED, and it asks for nothing.\<close>

theorem converged_app_left_alone:
  assumes "run_state (init_helm H (om_Namespace (ha_Meta app))) tr = (None, t)"
    and "ha_Spec app = Some spec" and "slice (spec_Components spec) \<noteq> []"
    and "\<not> is_deleting (ha_Meta app)"
    and "\<And>c. c \<in> set (slice (spec_Components spec)) \<Longrightarrow> component_in_sync L H app c"
    and "\<And>n. \<not> orphan_of app spec n"
    and "\<And>tr' a. \<exists>a'. k_UpdateHelmAppStatus K tr' a = Inr a'"
  shows "helm_writes (events_of (HelmApp_apply L K H app) tr) = [] \<and>
    result_of (HelmApp_apply L K H app) tr = Returned (no_requeue, None) \<and>
    (\<exists>ss. filter kube_write (events_of (HelmApp_apply L K H app) tr) = [UpdateHelmAppStatus
      (app\<lparr>ha_Status := Some \<lparr>st_Phase = Phase_SUCCEEDED, st_Components = ss\<rparr>\<rparr>)])"
proof -
  let ?cs = "slice (spec_Components spec)"
  have each: "\<exists>y. result_of (reconcileComponent L H app c) tr' = Returned y \<and>
      hs_Status (fst y) = StatusDeployed" if "c \<in> set ?cs" for c tr'
    using assms(5) [OF that] unfolding component_in_sync_def by fastforce
  obtain rs :: "(HelmComponentStatus \<times> string option) list"
    where rs: "result_of (component_statuses L H app spec) t = Returned (map fst rs)"
      "events_of (component_statuses L H app spec) t = events_of (for_each (reconcileComponent L H app) ?cs) t"
      "list_all2 (\<lambda>c y. hs_Status (fst y) = StatusDeployed) ?cs rs"
    using component_statuses_each [of spec L H app "\<lambda>c y. hs_Status (fst y) = StatusDeployed" t,
        OF each assms(6)] by blast
  have "rs \<noteq> []" "\<forall>y \<in> set rs. hs_Status (fst y) = StatusDeployed"
    using list_all2_right [OF rs(3)] assms(3) by (auto simp: list_all_iff)
  then have phase: "calculateOverallPhase app (map fst rs) = Phase_SUCCEEDED"
    using assms(4) by (auto simp: calculateOverallPhase_eq list_ex_iff list_all_iff StatusFailed_def
        StatusDeployed_def)
  have "list_all (\<lambda>e. \<not> helm_write e) (events_of (for_each (reconcileComponent L H app) ?cs) t)"
    by (rule reconcile_component.loop_events)
       (use assms(5) in \<open>fastforce simp: component_in_sync_def list_all_iff filter_empty_conv\<close>)
  moreover have "list_all (\<lambda>e. \<not> kube_write e) (events_of (component_statuses L H app spec) t)"
    by (rule list.pred_mono_strong [OF events_emits [OF emits_component_statuses]])
       (auto simp: app_event_def component_event_def uninstall_event_def)
  ultimately have quiet: "helm_writes (events_of (component_statuses L H app spec) t) = []"
      "filter kube_write (events_of (component_statuses L H app spec) t) = []"
    by (auto simp: rs(2) filter_empty_conv list_all_iff)
  obtain f where "k_UpdateHelmAppStatus K tr' a = Inr (f tr' a)" for tr' a
    using assms(7) by metis
  with rs(1) phase quiet show ?thesis
    by (auto simp: result_of_def [of "HelmApp_apply L K H app"] apply_run [OF assms(1,2)] Let_def
        apply_events [OF assms(1,2)] reported_app_def)
qed

theorem converged_app_left_alone_witness:
  "helm_writes (events_of (HelmApp_apply sample_lib (demo_kube sample_app) converged_helm sample_app) []) = []"
proof -
  have init: "run_state (init_helm converged_helm ns) tr = (None, tr @ [NewRegistryClient, HelmInit ns])" for ns tr
    by (simp add: init_helm_run converged_helm_def sample_helm_def)
  let ?repo = "\<lparr>repo_Name = ''istio'', repo_Url = ''https://charts''\<rparr>"
  have eqs: "ha_Spec sample_app = Some sample_spec" "spec_Repo sample_spec = Some ?repo"
    by (simp_all add: sample_app_def sample_spec_def)
  have vs: "component_values sample_lib sample_spec sample_component = Some []"
    by (simp add: converged_defs)
  have sync: "component_in_sync sample_lib converged_helm sample_app sample_component"
    unfolding component_in_sync_def component_writes_eq [OF eqs] result_of_def reconcileComponent_run [OF eqs] vs
    by (simp add: converged_helm_def sample_helm_def chart_lookup_def apply_release_run
        hasConfigChanged_def sample_release_def sample_component_def release_report_run
        component_result_def gomap_deep_equal_def chosen_write_def Let_def)
  have cs: "slice (spec_Components sample_spec) = [sample_component]" by (simp add: sample_spec_def)
  have none: "\<not> orphan_of sample_app sample_spec n" for n
    by (simp add: orphan_of_def sample_app_def)
  have upd: "\<exists>a'. k_UpdateHelmAppStatus (demo_kube sample_app) tr' a = Inr a'" for tr' a
    by (simp add: sample_kube_def)
  have "\<not> is_deleting (ha_Meta sample_app)" by (simp add: sample_app_def sample_meta_def is_deleting_def)
  from converged_app_left_alone [OF init eqs(1) _ this _ none upd] sync cs show ?thesis by auto
qed

text \<open>A HelmApp without a spec, or with components but no chart repository, makes the handler panic;
  it has written nothing by then.\<close>

theorem missing_spec_or_repo_panics:
  assumes "run_state (init_helm H (om_Namespace (ha_Meta app))) tr = (None, t)"
    and "ha_Spec app = None \<or>
      (\<exists>spec. ha_Spec app = Some spec \<and> spec_Repo spec = None \<and> slice (spec_Components spec) \<noteq> [])"
  shows "result_of (HelmApp_apply L K H app) tr = Panicked \<and>
    events_of (HelmApp_apply L K H app) tr = [NewRegistryClient, HelmInit (om_Namespace (ha_Meta app))]"
  using assms(2)
proof
  assume "ha_Spec app = None"
  with init_helm_ok [OF assms(1)] show ?thesis
    by (simp add: result_of_def events_of_def apply_nil_spec [OF assms(1)])
next
  assume "\<exists>spec. ha_Spec app = Some spec \<and> spec_Repo spec = None \<and> slice (spec_Components spec) \<noteq> []"
  then obtain spec c cs where spec: "ha_Spec app = Some spec" "spec_Repo spec = None"
      "slice (spec_Components spec) = c # cs" by (metis list.exhaust)
  then have "run_state (component_statuses L H app spec) t = (Panicked, t)"
    by (simp add: component_statuses_def reconcileComponent_panics)
  with init_helm_ok [OF assms(1)] show ?thesis
    by (simp add: result_of_def events_of_def apply_run [OF assms(1) spec(1)] Let_def)
qed

theorem missing_spec_or_repo_panics_witness:
  "result_of (HelmApp_apply sample_lib (demo_kube sample_app) sample_helm
     (sample_app\<lparr>ha_Spec := Some (sample_spec\<lparr>spec_Repo := None\<rparr>)\<rparr>)) [] = Panicked"
  using missing_spec_or_repo_panics [OF sample_init,
      of "sample_app\<lparr>ha_Spec := Some (sample_spec\<lparr>spec_Repo := None\<rparr>)\<rparr>"]
  by (simp add: sample_spec_def)

section \<open>The whole handler\<close>

lemma emits_reconcileDelete: "extends (HelmApp_reconcileDelete K H app)"
proof -
  have "extends (delete_loop H (length (st_Components st)) (st_Components st) True)" for st
    by (auto simp: delete_loop_all intro!: emits_intros)
  moreover have "extends (init_helm H ns)" for ns by (rule emits_extends [OF emits_init])
  ultimately show ?thesis
    by (auto simp: HelmApp_reconcileDelete_def intro!: emits_intros)
qed

lemma HelmApp_apply_extends: "extends (HelmApp_apply L K H app)"
  by (rule emits_extends [OF emits_HelmApp_apply])

lemma ensure_finalizer_extends: "extends (ensure_finalizer K app)"
  by (auto simp: ensure_finalizer_def intro!: emits_intros)

lemma HelmApp_Reconcile_extends: "extends (HelmApp_Reconcile L K H req)"
  by (auto simp: HelmApp_Reconcile_def emits_reconcileDelete HelmApp_apply_extends
      ensure_finalizer_extends intro!: emits_intros)

lemma HelmApp_Reconcile_events:
  "events_of (HelmApp_Reconcile L K H req) tr = GetHelmApp req #
   (case k_GetHelmApp K tr req of
      Inl e \<Rightarrow> []
    | Inr app \<Rightarrow>
        if is_deleting (ha_Meta app) then events_of (HelmApp_reconcileDelete K H app) (tr @ [GetHelmApp req])
        else events_of (ensure_finalizer K app) (tr @ [GetHelmApp req]) @
          (case result_of (ensure_finalizer K app) (tr @ [GetHelmApp req]) of
             Inl e \<Rightarrow> []
           | Inr app' \<Rightarrow> events_of (HelmApp_apply L K H app')
               (tr @ [GetHelmApp req] @ events_of (ensure_finalizer K app) (tr @ [GetHelmApp req]))))"
  by (auto simp: HelmApp_Reconcile_def events_bind emits_intros emits_reconcileDelete
      HelmApp_apply_extends ensure_finalizer_extends split: sum.splits)

lemma HelmApp_Reconcile_error:
  "k_GetHelmApp K tr req = Inl e \<Longrightarrow>
   run_state (HelmApp_Reconcile L K H req) tr =
     (Returned (no_requeue, IgnoreNotFound e), tr @ [GetHelmApp req])"
  by (simp add: HelmApp_Reconcile_def)

interpretation helmapps: reconciler "HelmApp_Reconcile L K H" GetHelmApp
    "\<lambda>tr k. \<exists>m. k_GetHelmApp K tr k = Inl (NotFound m)" for L K H
  by unfold_locales
     (auto simp: HelmApp_Reconcile_extends HelmApp_Reconcile_events HelmApp_Reconcile_error)

text \<open>Working off a queue of objects that are gone reads each of them once, in order, and does
  nothing else; no call fails or asks to be repeated.\<close>

theorem gone_helmapps_ignored:
  assumes "\<And>k tr'. k \<in> set ks \<Longrightarrow> \<exists>m. k_GetHelmApp K tr' k = Inl (NotFound m)"
  shows "run_state (for_each (HelmApp_Reconcile L K H) ks) tr =
    (Returned (map (\<lambda>_. (no_requeue, None)) ks), tr @ map GetHelmApp ks)"
  by (rule helmapps.missing_queue) (use assms in blast)

theorem gone_helmapps_ignored_witness:
  "run_state (for_each (HelmApp_Reconcile sample_lib
      (sample_kube (\<lambda>k. Inl (NotFound ''gone'')) (\<lambda>k. Inl (NotFound []))) sample_helm)
      [(''ns'', ''a''), (''ns'', ''b'')]) [] =
   (Returned [(no_requeue, None), (no_requeue, None)], [GetHelmApp (''ns'', ''a''), GetHelmApp (''ns'', ''b'')])"
  by (subst gone_helmapps_ignored) (auto simp: sample_kube_def)

text \<open>C18. The finalizer is stored before Helm is first contacted: a run on an object that lacks it begins
  by reading the object and writing it back with the finalizer and an unchanged spec; when that
  write fails, the run ends there with the error.\<close>

theorem finalizer_before_helm:
  assumes "finalizer_laws K" and "k_GetHelmApp K tr req = Inr app" and "\<not> is_deleting (ha_Meta app)"
    and "HelmAppFinalizer \<notin> set (om_Finalizers (ha_Meta app))"
  shows "\<exists>a es. events_of (HelmApp_Reconcile L K H req) tr = GetHelmApp req # UpdateHelmApp a # es \<and>
    HelmAppFinalizer \<in> set (om_Finalizers (ha_Meta a)) \<and> ha_Spec a = ha_Spec app \<and>
    (\<forall>e. k_UpdateHelmApp K (tr @ [GetHelmApp req]) a = Inl e \<longrightarrow> es = [] \<and>
       result_of (HelmApp_Reconcile L K H req) tr =
         Returned (requeue_after serverFailedAfter, Some (kube_text e)))"
proof -
  define a where "a = app\<lparr>ha_Meta := (ha_Meta app)\<lparr>om_Finalizers :=
      k_AddFinalizer K (om_Finalizers (ha_Meta app)) HelmAppFinalizer\<rparr>\<rparr>"
  have fin: "HelmAppFinalizer \<in> set (om_Finalizers (ha_Meta a))" "ha_Spec a = ha_Spec app"
    using assms(1) by (simp_all add: a_def finalizer_laws_def)
  have ens: "ensure_finalizer K app = call (UpdateHelmApp a) (\<lambda>tr. k_UpdateHelmApp K tr a)"
    using assms(1,4) by (simp add: ensure_finalizer_def a_def finalizer_laws_def Let_def)
  have "\<exists>es. events_of (HelmApp_Reconcile L K H req) tr = GetHelmApp req # UpdateHelmApp a # es \<and>
      (\<forall>e. k_UpdateHelmApp K (tr @ [GetHelmApp req]) a = Inl e \<longrightarrow> es = [])"
    using assms(2,3) by (auto simp: HelmApp_Reconcile_events ens split: sum.splits)
  moreover have "result_of (HelmApp_Reconcile L K H req) tr =
      Returned (requeue_after serverFailedAfter, Some (kube_text e))"
    if "k_UpdateHelmApp K (tr @ [GetHelmApp req]) a = Inl e" for e
    using assms(2,3) that by (simp add: result_of_def HelmApp_Reconcile_def ens)
  ultimately show ?thesis using fin by blast
qed

theorem finalizer_before_helm_witness:
  "\<exists>a es. events_of (HelmApp_Reconcile sample_lib (demo_kube sample_app) sample_helm (''default'', ''demo'')) [] =
      GetHelmApp (''default'', ''demo'') # UpdateHelmApp a # es \<and>
    HelmAppFinalizer \<in> set (om_Finalizers (ha_Meta a))"
proof -
  have "k_GetHelmApp (demo_kube sample_app) [] (''default'', ''demo'') = Inr sample_app"
    by (simp add: sample_kube_def)
  from finalizer_before_helm [OF sample_finalizer_laws this, of sample_lib sample_helm] show ?thesis
    by (auto simp: sample_app_def sample_meta_def is_deleting_def)
qed

end
