(* ===== verification/Iop_Convert.thy ===== *)
theory Iop_Convert
  imports Sample_World
begin

text \<open>
  The translation of an IstioOperator to a HelmApp, internal/istio/iop.go: \<open>structToMap\<close> (115-128),
  \<open>mergeIOPWithProfile\<close> (384-420) and \<open>convertIopToHelmApp\<close> (130-345), whose parts are definitions of
  their own: \<open>mesh_values\<close>, \<open>pilot_values\<close> and \<open>istiod_values\<close> for the values of istiod,
  \<open>gateway_values\<close> and \<open>buildGw\<close> for a gateway.

  \<^item> The accessors of the Istio API are nil-safe: they are \<open>get_or\<close> here.
  \<^item> \<open>mergo.Merge\<close> changes the IstioOperator the handler holds, so the names of the gateways, built
    after it, come from the merged object, while version and the names of base and istiod, built
    before it, come from the object as it was read.
  \<^item> A write to a nil map panics, which is a branch to \<open>Panicked\<close>.
\<close>

section \<open>Names and versions\<close>

definition buildName :: "string \<Rightarrow> string \<Rightarrow> string" where
  "buildName name p = ''iop-'' @ name @ ''-'' @ p"

definition default_version :: string where "default_version = ''1.21.1''"

definition iop_version :: "iop_spec \<Rightarrow> string" where
  "iop_version spec = (if GetStringValue (is_Tag spec) \<noteq> [] then GetStringValue (is_Tag spec)
     else default_version)"

section \<open>Values\<close>

definition structToMap :: "lib_api \<Rightarrow> any_message \<Rightarrow> gomap" where
  "structToMap L m = (case l_json_Marshal L m of
      Inl err \<Rightarrow> None
    | Inr inStr \<Rightarrow> (case l_json_Unmarshal L inStr of Inl err \<Rightarrow> None | Inr res \<Rightarrow> res))"

text \<open>\<open>iop.Spec.GetValues().GetFields()[k]\<close>\<close>

definition value_at :: "iop_spec option \<Rightarrow> string \<Rightarrow> pvalue option" where
  "value_at spec k = GetFields (get_or is_Values None spec) k"

definition is_enabled :: "component_spec option \<Rightarrow> bool" where
  "is_enabled c = (get_or ic_Enabled None c = Some True)"

text \<open>Comparing an \<open>any\<close> read from a map with nil.\<close>

definition is_nil :: "gval option \<Rightarrow> bool" where
  "is_nil v \<longleftrightarrow> v = None \<or> v = Some VNil"

definition mesh_values :: "lib_api \<Rightarrow> iop_spec option \<Rightarrow> (string \<times> gval) list outcome" where
  "mesh_values L spec =
     (let componentValues = (case get_or is_MeshConfig None spec of
            None \<Rightarrow> []
          | Some mc \<Rightarrow> AList.update ''meshConfig'' (VMap (structToMap L (MeshConfigMsg mc))) [])
      in case value_at spec ''meshConfig'' of
           None \<Rightarrow> Returned componentValues
         | Some mc \<Rightarrow>
             (let m = l_AsMap L (GetStructValue (Some mc)) in
              if is_nil (map_of componentValues ''meshConfig'')
              then Returned (AList.update ''meshConfig'' (VMap m) componentValues)
              else (case map_of componentValues ''meshConfig'' of
                  Some (VMap (Some cMC)) \<Rightarrow>
                    Returned (AList.update ''meshConfig''
                      (VMap (Some (fold (\<lambda>(k, v). AList.update k v) (gentries m) cMC))) componentValues)
                | Some (VMap None) \<Rightarrow> if gentries m = [] then Returned componentValues else Panicked
                | _ \<Rightarrow> Returned componentValues)))"

definition pilot_values ::
    "lib_api \<Rightarrow> k8s_spec option \<Rightarrow> (string \<times> gval) list \<Rightarrow> (string + (string \<times> gval) list) outcome" where
  "pilot_values L k8s componentValues =
     (case k8s of
        None \<Rightarrow> Returned (Inr componentValues)
      | Some iopK8s \<Rightarrow>
     (let componentValues = (case k8s_Affinity iopK8s of
            None \<Rightarrow> componentValues
          | Some a \<Rightarrow> AList.update ''affinity'' (VMap (structToMap L (AffinityMsg a))) componentValues)
      in case k8s_Resources iopK8s of
           None \<Rightarrow> Returned (Inr componentValues)
         | Some r \<Rightarrow>
             if is_nil (map_of componentValues ''pilot'')
             then Returned (Inr (AList.update ''pilot'' (VMap (Some [(''resources'', VOpaque r)])) componentValues))
             else (case map_of componentValues ''pilot'' of
                 Some (VMap (Some pilot)) \<Rightarrow>
                   Returned (Inr (AList.update ''pilot'' (VMap (Some (AList.update ''resources''
                     (VMap (structToMap L (ResourcesMsg r))) pilot))) componentValues))
               | Some (VMap None) \<Rightarrow> Panicked
               | _ \<Rightarrow> Returned (Inl ''componentValues['pilot'] is not a map[string]any''))))"

definition add_value :: "lib_api \<Rightarrow> iop_spec option \<Rightarrow> string \<Rightarrow> (string \<times> gval) list \<Rightarrow> (string \<times> gval) list" where
  "add_value L spec k componentValues = (case value_at spec k of
      None \<Rightarrow> componentValues
    | Some v \<Rightarrow> AList.update k (VMap (l_AsMap L (GetStructValue (Some v)))) componentValues)"

definition istiod_values :: "lib_api \<Rightarrow> iop_spec option \<Rightarrow> component_set \<Rightarrow> (string + pstruct) outcome" where
  "istiod_values L spec cs =
     (case mesh_values L spec of
        Panicked \<Rightarrow> Panicked
      | Returned componentValues \<Rightarrow>
     (let componentValues = add_value L spec ''sidecarInjectorWebhook'' componentValues;
          componentValues = add_value L spec ''pilot'' componentValues
      in case pilot_values L (get_or ic_K8S None (ics_Pilot cs)) componentValues of
           Panicked \<Rightarrow> Panicked
         | Returned (Inl e) \<Rightarrow> Returned (Inl e)
         | Returned (Inr componentValues) \<Rightarrow>
             Returned (case l_NewStruct L (Some componentValues) of
                 Inl e \<Rightarrow> Inl (''failed to convert component values to struct: '' @ e)
               | Inr s \<Rightarrow> Inr s)))"

definition autoscaling_values :: "iop_spec option \<Rightarrow> (string \<times> gval) list \<Rightarrow> (string \<times> gval) list" where
  "autoscaling_values spec componentValues =
     (case value_at spec ''gateways'' of
        None \<Rightarrow> componentValues
      | Some gateways \<Rightarrow>
     (case GetFields (GetStructValue (Some gateways)) ''istio-ingressgateway'' of
        None \<Rightarrow> componentValues
      | Some ingressGw \<Rightarrow>
     (case GetFields (GetStructValue (Some ingressGw)) ''autoscaleEnabled'' of
        None \<Rightarrow> componentValues
      | Some autoscaleEnabled \<Rightarrow>
          AList.update ''autoscaling'' (VMap (Some
            ((''enabled'', VBool (GetBoolValue (Some autoscaleEnabled))) #
             (case GetFields (GetStructValue (Some ingressGw)) ''autoscaleMin'' of
                None \<Rightarrow> []
              | Some autoscaleMin \<Rightarrow> [(''minReplicas'', VNum (GetNumberValue (Some autoscaleMin)))]))))
            componentValues)))"

definition gateway_values :: "lib_api \<Rightarrow> iop_spec option \<Rightarrow> gateway_spec \<Rightarrow> (string \<times> gval) list" where
  "gateway_values L spec gw =
     (let componentValues = [];
          componentValues = (case gw_K8S gw of
              None \<Rightarrow> componentValues
            | Some k \<Rightarrow>
                (let componentValues = (case k8s_Affinity k of None \<Rightarrow> componentValues
                       | Some a \<Rightarrow> AList.update ''affinity'' (VMap (structToMap L (AffinityMsg a))) componentValues)
                 in case k8s_Resources k of None \<Rightarrow> componentValues
                    | Some r \<Rightarrow> AList.update ''resources'' (VMap (structToMap L (ResourcesMsg r))) componentValues))
      in autoscaling_values spec componentValues)"

text \<open>\<open>buildGw\<close>: no component, one component, or an error.\<close>

definition buildGw ::
    "lib_api \<Rightarrow> string \<Rightarrow> string \<Rightarrow> iop_spec option \<Rightarrow> gateway_spec \<Rightarrow> string + HelmComponent list" where
  "buildGw L name version spec gw =
     (if gw_Enabled gw \<noteq> Some True then Inr []
      else if gw_Name gw = [] then Inr []
      else (case l_NewStruct L (Some (gateway_values L spec gw)) of
          Inl e \<Rightarrow> Inl (''failed to convert component values to struct: '' @ e)
        | Inr s \<Rightarrow> Inr [\<lparr>hc_Name = buildName name (gw_Name gw), hc_Chart = ''gateway'',
            hc_Version = version, hc_ComponentValues = Some s, hc_Repo = None,
            hc_IgnoreGlobalValues = False\<rparr>]))"

fun build_gateways ::
    "lib_api \<Rightarrow> string \<Rightarrow> string \<Rightarrow> iop_spec option \<Rightarrow> gateway_spec list \<Rightarrow> HelmComponent list \<Rightarrow>
     string + HelmComponent list" where
  "build_gateways L name version spec [] components = Inr components"
| "build_gateways L name version spec (gw # gws) components =
     (case buildGw L name version spec gw of
        Inl e \<Rightarrow> Inl e
      | Inr new \<Rightarrow> build_gateways L name version spec gws (components @ new))"

section \<open>The conversion\<close>

definition profile_path :: "string \<Rightarrow> iop_spec \<Rightarrow> string" where
  "profile_path dir spec = dir @ ''/'' @ (if is_Profile spec \<noteq> [] then is_Profile spec else ''default'') @ ''.yaml''"

definition mergeIOPWithProfile :: "lib_api \<Rightarrow> string \<Rightarrow> IstioOperator \<Rightarrow> (string + IstioOperator) act" where
  "mergeIOPWithProfile L profilesDir iop =
     (case iop_Spec iop of
        None \<Rightarrow> State_Monad.return (Inl ''input IstioOperator is nil or has nil Spec'')
      | Some spec \<Rightarrow>
     (let profilePath = profile_path profilesDir spec in do {
        profileData \<leftarrow> call (ReadFile profilePath) (\<lambda>tr. l_ReadFile L tr profilePath);
        State_Monad.return (case profileData of
            Inl e \<Rightarrow> Inl (''failed to read profile file '' @ profilePath @ '': '' @ e)
          | Inr text \<Rightarrow>
              (case l_yaml_Unmarshal L text of
                 Inl e \<Rightarrow> Inl (''failed to unmarshal profile data: '' @ e)
               | Inr profileIOP \<Rightarrow>
                   (case l_mergo_Merge L iop profileIOP of
                      Inl e \<Rightarrow> Inl (''failed to merge IOPs: '' @ e)
                    | Inr merged \<Rightarrow> Inr merged)))
      }))"

definition plain_component :: "string \<Rightarrow> string \<Rightarrow> string \<Rightarrow> pstruct option \<Rightarrow> HelmComponent" where
  "plain_component name chart version values = \<lparr>hc_Name = name, hc_Chart = chart, hc_Version = version,
     hc_ComponentValues = values, hc_Repo = None, hc_IgnoreGlobalValues = False\<rparr>"

text \<open>Lines 178-244: base and istiod.\<close>

definition core_components ::
    "lib_api \<Rightarrow> iop_spec option \<Rightarrow> component_set \<Rightarrow> HelmComponent \<Rightarrow> HelmComponent \<Rightarrow>
     (string + HelmComponent list) outcome" where
  "core_components L spec cs base istiodComponent =
     (let components = (if is_enabled (ics_Base cs) then [base] else []) in
      if is_enabled (ics_Pilot cs)
      then (case istiod_values L spec cs of
          Panicked \<Rightarrow> Panicked
        | Returned (Inl e) \<Rightarrow> Returned (Inl e)
        | Returned (Inr s) \<Rightarrow>
            Returned (Inr (components @ [istiodComponent\<lparr>hc_ComponentValues := Some s\<rparr>])))
      else Returned (Inr components))"

text \<open>Lines 175-317, with the components of the merged object.\<close>

definition convert_components ::
    "lib_api \<Rightarrow> IstioOperator \<Rightarrow> string \<Rightarrow> HelmComponent \<Rightarrow> HelmComponent \<Rightarrow>
     (string + HelmComponent list) outcome" where
  "convert_components L iop version base istiodComponent =
     (let spec = iop_Spec iop; name = om_Name (iop_Meta iop) in
      case get_or is_Components None spec of
        None \<Rightarrow> Returned (Inr [])
      | Some cs \<Rightarrow>
     (case core_components L spec cs base istiodComponent of
        Panicked \<Rightarrow> Panicked
      | Returned (Inl e) \<Rightarrow> Returned (Inl e)
      | Returned (Inr components) \<Rightarrow>
     (case build_gateways L name version spec (ics_IngressGateways cs) components of
        Inl e \<Rightarrow> Returned (Inl e)
      | Inr components \<Rightarrow>
     (case build_gateways L name version spec (ics_EgressGateways cs) components of
        Inl e \<Rightarrow> Returned (Inl e)
      | Inr components \<Rightarrow>
          (let cni = plain_component [] [] [] None; ztunnel = plain_component [] [] [] None;
               components = (if is_enabled (ics_Cni cs) then components @ [cni] else components);
               components = (if is_enabled (ics_Ztunnel cs) then components @ [ztunnel] else components)
           in Returned (Inr components))))))"

text \<open>Lines 169-173 and 319-336: the HelmApp built from the merged object.\<close>

definition converted_app :: "IstioOperator \<Rightarrow> HelmComponent list \<Rightarrow> HelmApp" where
  "converted_app iop components = \<lparr>ha_Meta = \<lparr>om_Name = om_Name (iop_Meta iop),
       om_Namespace = om_Namespace (iop_Meta iop), om_ResourceVersion = [],
       om_Labels = Some [(ManagedLabel, ManagedLabelValue)], om_Finalizers = [],
       om_DeletionTimestamp = None\<rparr>,
     ha_Spec = Some \<lparr>spec_Components = Some components,
       spec_GlobalValues = (case value_at (iop_Spec iop) ''global'' of
         None \<Rightarrow> None | Some g \<Rightarrow> GetStructValue (Some g)),
       spec_Repo = Some \<lparr>repo_Name = ''istio'',
         repo_Url = ''https://istio-release.storage.googleapis.com/charts''\<rparr>\<rparr>,
     ha_Status = None\<rparr>"

definition convertIopToHelmApp :: "lib_api \<Rightarrow> string \<Rightarrow> IstioOperator \<Rightarrow> (string + HelmApp) outcome act" where
  "convertIopToHelmApp L profilesDir inp =
     (case iop_Spec inp of
        None \<Rightarrow> State_Monad.return (Returned (Inl ''iop must required''))
      | Some in_spec \<Rightarrow>
     (let version = iop_version in_spec;
          base = plain_component (buildName (om_Name (iop_Meta inp)) ''base'') ''base'' version None;
          istiodComponent = plain_component (buildName (om_Name (iop_Meta inp)) ''istiod'') ''istiod'' version None
      in do {
        merged \<leftarrow> mergeIOPWithProfile L profilesDir inp;
        State_Monad.return (case merged of
            Inl e \<Rightarrow> Returned (Inl e)
          | Inr iop \<Rightarrow>
              (case convert_components L iop version base istiodComponent of
                 Panicked \<Rightarrow> Panicked
               | Returned (Inl e) \<Rightarrow> Returned (Inl e)
               | Returned (Inr components) \<Rightarrow> Returned (Inr (converted_app iop components))))
      }))"

end
