(* ===== verification/Iop_Controller.thy ===== *)
theory Iop_Controller
  imports Iop_Convert Reconciler
begin

text \<open>
  The IstioOperator controller, internal/istio/iop.go: \<open>createOrUpdateHelmApp\<close> (347-382),
  \<open>reconcileDelete\<close> (45-73) and \<open>Reconcile\<close> (77-113). It owns one HelmApp per IstioOperator, of the
  same name and namespace, and recognises it by the label \<open>ManagedLabel\<close>. \<open>profilesDir\<close> is the field
  \<open>Config.ProfilesDir\<close> of the reconciler.

  \<open>spec_DeepEqual\<close> is \<open>reflect.DeepEqual\<close> of two specs: on the exported fields it is written out, with
  the difference between a nil and an empty slice; Structs and private fields are compared by the
  parameters \<open>l_Struct_DeepEqual\<close> and \<open>l_private_DeepEqual\<close>.
\<close>

section \<open>Comparing specs\<close>

definition component_DeepEqual :: "lib_api \<Rightarrow> HelmComponent \<Rightarrow> HelmComponent \<Rightarrow> bool" where
  "component_DeepEqual L a b \<longleftrightarrow> hc_Name a = hc_Name b \<and> hc_Chart a = hc_Chart b \<and>
     hc_Version a = hc_Version b \<and> l_Struct_DeepEqual L (hc_ComponentValues a) (hc_ComponentValues b) \<and>
     hc_Repo a = hc_Repo b \<and> hc_IgnoreGlobalValues a = hc_IgnoreGlobalValues b"

definition spec_DeepEqual :: "lib_api \<Rightarrow> HelmAppSpec option \<Rightarrow> HelmAppSpec option \<Rightarrow> bool" where
  "spec_DeepEqual L x y =
     (case (x, y) of
        (None, None) \<Rightarrow> True
      | (Some a, Some b) \<Rightarrow>
          (case (spec_Components a, spec_Components b) of
             (None, None) \<Rightarrow> True
           | (Some as, Some bs) \<Rightarrow> list_all2 (component_DeepEqual L) as bs
           | _ \<Rightarrow> False) \<and>
          l_Struct_DeepEqual L (spec_GlobalValues a) (spec_GlobalValues b) \<and>
          spec_Repo a = spec_Repo b \<and> l_private_DeepEqual L a b
      | _ \<Rightarrow> False)"

section \<open>The handlers\<close>

text \<open>The key of an object: its namespace and name.\<close>

definition key_of :: "ObjectMeta \<Rightarrow> key" where
  "key_of m = (om_Namespace m, om_Name m)"

definition createOrUpdateHelmApp :: "lib_api \<Rightarrow> kube_api \<Rightarrow> HelmApp \<Rightarrow> string option act" where
  "createOrUpdateHelmApp L K helmApp = do {
     got \<leftarrow> call (GetHelmApp (key_of (ha_Meta helmApp))) (\<lambda>tr. k_GetHelmApp K tr (key_of (ha_Meta helmApp)));
     case got of
       Inl (NotFound m) \<Rightarrow> do {
         res \<leftarrow> call (CreateHelmApp helmApp) (\<lambda>tr. k_CreateHelmApp K tr helmApp);
         State_Monad.return (case res of
             Inl e \<Rightarrow> Some (''failed to create HelmApp: '' @ kube_text e)
           | Inr a \<Rightarrow> None)
       }
     | Inl (KubeError m) \<Rightarrow> State_Monad.return (Some (''failed to get HelmApp: '' @ m))
     | Inr existingHelmApp \<Rightarrow>
         if managed (ha_Meta existingHelmApp) \<and>
            \<not> spec_DeepEqual L (ha_Spec existingHelmApp) (ha_Spec helmApp)
         then (let existingHelmApp = existingHelmApp\<lparr>ha_Spec := ha_Spec helmApp\<rparr> in do {
           res \<leftarrow> call (UpdateHelmApp existingHelmApp) (\<lambda>tr. k_UpdateHelmApp K tr existingHelmApp);
           State_Monad.return (case res of
               Inl e \<Rightarrow> Some (''failed to update HelmApp: '' @ kube_text e)
             | Inr a \<Rightarrow> None)
         })
         else State_Monad.return None
   }"

definition without_finalizer :: "kube_api \<Rightarrow> IstioOperator \<Rightarrow> IstioOperator" where
  "without_finalizer K iop = iop\<lparr>iop_Meta := (iop_Meta iop)\<lparr>om_Finalizers :=
     k_RemoveFinalizer K (om_Finalizers (iop_Meta iop)) IOPFinalizer\<rparr>\<rparr>"

definition IOP_reconcileDelete :: "kube_api \<Rightarrow> IstioOperator \<Rightarrow> (ctrl_result \<times> string option) act" where
  "IOP_reconcileDelete K iop = do {
     got \<leftarrow> call (GetHelmApp (key_of (iop_Meta iop))) (\<lambda>tr. k_GetHelmApp K tr (key_of (iop_Meta iop)));
     removed \<leftarrow> (case got of
         Inl (KubeError m) \<Rightarrow> State_Monad.return (Some (''failed to get HelmApp: '' @ m))
       | Inl (NotFound m) \<Rightarrow> State_Monad.return None
       | Inr hApp \<Rightarrow>
           if om_Name (ha_Meta hApp) = om_Name (iop_Meta iop) \<and> managed (ha_Meta hApp) then do {
             err \<leftarrow> call (DeleteHelmApp hApp) (\<lambda>tr. k_DeleteHelmApp K tr hApp);
             State_Monad.return (map_option (\<lambda>e. ''failed to delete HelmApp: '' @ kube_text e) err)
           }
           else State_Monad.return None);
     case removed of
       Some m \<Rightarrow> State_Monad.return (no_requeue, Some m)
     | None \<Rightarrow> do {
         res \<leftarrow> call (UpdateIOP (without_finalizer K iop)) (\<lambda>tr. k_UpdateIOP K tr (without_finalizer K iop));
         State_Monad.return (case res of
             Inl e \<Rightarrow> (no_requeue, Some (kube_text e))
           | Inr i \<Rightarrow> (no_requeue, None))
       }
   }"

definition IOP_ensure_finalizer :: "kube_api \<Rightarrow> IstioOperator \<Rightarrow> (kube_error + IstioOperator) act" where
  "IOP_ensure_finalizer K iop =
     (if \<not> k_ContainsFinalizer K (om_Finalizers (iop_Meta iop)) IOPFinalizer then
        (let iop = iop\<lparr>iop_Meta := (iop_Meta iop)\<lparr>om_Finalizers :=
               k_AddFinalizer K (om_Finalizers (iop_Meta iop)) IOPFinalizer\<rparr>\<rparr>
         in call (UpdateIOP iop) (\<lambda>tr. k_UpdateIOP K tr iop))
      else State_Monad.return (Inr iop))"

text \<open>Lines 99-112: from the object with its finalizer to the HelmApp.\<close>

definition IOP_apply :: "lib_api \<Rightarrow> kube_api \<Rightarrow> string \<Rightarrow> IstioOperator \<Rightarrow> reconcile_result act" where
  "IOP_apply L K profilesDir iop = do {
     converted \<leftarrow> convertIopToHelmApp L profilesDir iop;
     case converted of
       Panicked \<Rightarrow> State_Monad.return Panicked
     | Returned (Inl e) \<Rightarrow> State_Monad.return (Returned (no_requeue, Some e))
     | Returned (Inr helmApp) \<Rightarrow> do {
         err \<leftarrow> createOrUpdateHelmApp L K helmApp;
         State_Monad.return (Returned (no_requeue, err))
       }
   }"

definition IOP_Reconcile :: "lib_api \<Rightarrow> kube_api \<Rightarrow> string \<Rightarrow> key \<Rightarrow> reconcile_result act" where
  "IOP_Reconcile L K profilesDir req = do {
     got \<leftarrow> call (GetIOP req) (\<lambda>tr. k_GetIOP K tr req);
     case got of
       Inl e \<Rightarrow> State_Monad.return (Returned (no_requeue, IgnoreNotFound e))
     | Inr iop \<Rightarrow>
         if is_deleting (iop_Meta iop) then do {
           r \<leftarrow> IOP_reconcileDelete K iop;
           State_Monad.return (Returned r)
         }
         else do {
           res \<leftarrow> IOP_ensure_finalizer K iop;
           case res of
             Inl e \<Rightarrow> State_Monad.return (Returned (no_requeue, Some (kube_text e)))
           | Inr iop \<Rightarrow> IOP_apply L K profilesDir iop
         }
   }"

end
