(* ===== verification/Iop_Spec.thy ===== *)
theory Iop_Spec
  imports Iop_Controller
begin

text \<open>
  What the IstioOperator controller is promised.

  \<^item> Conversion: which components a HelmApp gets, in which order, with which names and versions; the
    inputs it rejects and the one that makes it panic.
  \<^item> Ownership: only a HelmApp that carries the operator's label is updated or deleted.
  \<^item> Finalizer: it is stored before any HelmApp is created and removed only when none is left.
\<close>

section \<open>The components of the conversion\<close>

definition active_gateways :: "gateway_spec list \<Rightarrow> gateway_spec list" where
  "active_gateways gws = filter (\<lambda>gw. gw_Enabled gw = Some True \<and> gw_Name gw \<noteq> []) gws"

lemma build_gateways_result:
  "build_gateways L name version spec gws components = Inr cs \<Longrightarrow>
   \<exists>new. cs = components @ new \<and>
     map hc_Name new = map (\<lambda>gw. buildName name (gw_Name gw)) (active_gateways gws) \<and>
     list_all (\<lambda>c. hc_Chart c = ''gateway'' \<and> hc_Version c = version) new"
proof (induction gws arbitrary: components)
  case (Cons gw gws)
  then obtain n where n: "buildGw L name version spec gw = Inr n"
    and rest: "build_gateways L name version spec gws (components @ n) = Inr cs"
    by (auto split: sum.splits)
  from Cons.IH [OF rest] n show ?case
    by (auto simp: buildGw_def active_gateways_def split: if_splits sum.splits)
qed (simp add: active_gateways_def)

text \<open>The names the conversion gives, from the object as read and as merged.\<close>

definition expected_names :: "string \<Rightarrow> string \<Rightarrow> component_set \<Rightarrow> string list" where
  "expected_names read_name merged_name cs =
     (if is_enabled (ics_Base cs) then [buildName read_name ''base''] else []) @
     (if is_enabled (ics_Pilot cs) then [buildName read_name ''istiod''] else []) @
     map (\<lambda>gw. buildName merged_name (gw_Name gw)) (active_gateways (ics_IngressGateways cs)) @
     map (\<lambda>gw. buildName merged_name (gw_Name gw)) (active_gateways (ics_EgressGateways cs)) @
     (if is_enabled (ics_Cni cs) then [[]] else []) @ (if is_enabled (ics_Ztunnel cs) then [[]] else [])"

definition istio_charts :: "string list" where
  "istio_charts = [''base'', ''istiod'', ''gateway'']"

lemma core_components_result:
  assumes "core_components L spec cs (plain_component (buildName n ''base'') ''base'' version None)
      (plain_component (buildName n ''istiod'') ''istiod'' version None) = Returned (Inr components)"
  shows "map hc_Name components =
      (if is_enabled (ics_Base cs) then [buildName n ''base''] else []) @
      (if is_enabled (ics_Pilot cs) then [buildName n ''istiod''] else []) \<and>
    list_all (\<lambda>c. hc_Chart c \<in> set istio_charts \<and> hc_Version c = version) components"
  using assms
  by (auto simp: core_components_def Let_def plain_component_def istio_charts_def
      split: outcome.splits sum.splits if_splits)

definition istio_component :: "string \<Rightarrow> HelmComponent \<Rightarrow> bool" where
  "istio_component version c \<longleftrightarrow> hc_Name c = [] \<and> hc_Chart c = [] \<and> hc_Version c = [] \<or>
     hc_Chart c \<in> set istio_charts \<and> hc_Version c = version"

lemma convert_components_split:
  assumes "convert_components L iop version base istiodComponent = Returned (Inr components)"
    and "get_or is_Components None (iop_Spec iop) = Some cs"
  obtains c1 c2 c3 where "core_components L (iop_Spec iop) cs base istiodComponent = Returned (Inr c1)"
    "build_gateways L (om_Name (iop_Meta iop)) version (iop_Spec iop) (ics_IngressGateways cs) c1 = Inr c2"
    "build_gateways L (om_Name (iop_Meta iop)) version (iop_Spec iop) (ics_EgressGateways cs) c2 = Inr c3"
    "components = c3 @ (if is_enabled (ics_Cni cs) then [plain_component [] [] [] None] else []) @
      (if is_enabled (ics_Ztunnel cs) then [plain_component [] [] [] None] else [])"
  using assms
  by (auto simp: convert_components_def Let_def split: outcome.splits sum.splits if_splits)

lemma convert_components_base:
  assumes "convert_components L iop version base istiodComponent = Returned (Inr components)"
    and "get_or is_Components None (iop_Spec iop) = Some cs" and "is_enabled (ics_Base cs)"
  shows "base \<in> set components"
proof -
  obtain c1 c2 c3 where c: "core_components L (iop_Spec iop) cs base istiodComponent = Returned (Inr c1)"
    "build_gateways L (om_Name (iop_Meta iop)) version (iop_Spec iop) (ics_IngressGateways cs) c1 = Inr c2"
    "build_gateways L (om_Name (iop_Meta iop)) version (iop_Spec iop) (ics_EgressGateways cs) c2 = Inr c3"
    "components = c3 @ (if is_enabled (ics_Cni cs) then [plain_component [] [] [] None] else []) @
      (if is_enabled (ics_Ztunnel cs) then [plain_component [] [] [] None] else [])"
    by (rule convert_components_split [OF assms(1,2)])
  have "base \<in> set c1" using c(1) assms(3)
    by (auto simp: core_components_def Let_def split: outcome.splits sum.splits if_splits)
  then show ?thesis
    using build_gateways_result [OF c(2)] build_gateways_result [OF c(3)] c(4) by auto
qed

lemma convert_components_result:
  assumes "convert_components L iop version (plain_component (buildName n ''base'') ''base'' version None)
      (plain_component (buildName n ''istiod'') ''istiod'' version None) = Returned (Inr components)"
  shows "map hc_Name components = (case get_or is_Components None (iop_Spec iop) of
        None \<Rightarrow> [] | Some cs \<Rightarrow> expected_names n (om_Name (iop_Meta iop)) cs) \<and>
    list_all (istio_component version) components"
proof (cases "get_or is_Components None (iop_Spec iop)")
  case None
  with assms show ?thesis by (simp add: convert_components_def Let_def)
next
  case (Some cs)
  let ?build = "build_gateways L (om_Name (iop_Meta iop)) version (iop_Spec iop)"
  let ?core = "core_components L (iop_Spec iop) cs (plain_component (buildName n ''base'') ''base'' version None)
      (plain_component (buildName n ''istiod'') ''istiod'' version None)"
  obtain c1 c2 c3 where c: "?core = Returned (Inr c1)"
      "?build (ics_IngressGateways cs) c1 = Inr c2" "?build (ics_EgressGateways cs) c2 = Inr c3"
      "components = c3 @ (if is_enabled (ics_Cni cs) then [plain_component [] [] [] None] else []) @
        (if is_enabled (ics_Ztunnel cs) then [plain_component [] [] [] None] else [])"
    by (rule convert_components_split [OF assms Some])
  obtain n1 n2 where g: "c2 = c1 @ n1" "c3 = c2 @ n2"
      "map hc_Name n1 = map (\<lambda>gw. buildName (om_Name (iop_Meta iop)) (gw_Name gw)) (active_gateways (ics_IngressGateways cs))"
      "map hc_Name n2 = map (\<lambda>gw. buildName (om_Name (iop_Meta iop)) (gw_Name gw)) (active_gateways (ics_EgressGateways cs))"
      "list_all (\<lambda>c. hc_Chart c = ''gateway'' \<and> hc_Version c = version) (n1 @ n2)"
    using build_gateways_result [OF c(2)] build_gateways_result [OF c(3)] by auto
  have "list_all (istio_component version) (n1 @ n2)"
    by (rule list.pred_mono_strong [OF g(5)]) (simp add: istio_charts_def istio_component_def)
  moreover have "list_all (istio_component version) c1"
    using core_components_result [OF c(1)] by (auto simp: list_all_iff istio_component_def)
  moreover have "istio_component version (plain_component [] [] [] None)"
    by (simp add: istio_component_def plain_component_def)
  ultimately show ?thesis
    using core_components_result [OF c(1)] c(4) g Some
    by (simp add: expected_names_def plain_component_def)
qed

section \<open>One run of the conversion\<close>

lemma merge_run:
  "iop_Spec iop = Some spec \<Longrightarrow> run_state (mergeIOPWithProfile L dir iop) tr =
   ((case l_ReadFile L tr (profile_path dir spec) of
       Inl e \<Rightarrow> Inl (''failed to read profile file '' @ profile_path dir spec @ '': '' @ e)
     | Inr text \<Rightarrow> (case l_yaml_Unmarshal L text of
         Inl e \<Rightarrow> Inl (''failed to unmarshal profile data: '' @ e)
       | Inr p \<Rightarrow> (case l_mergo_Merge L iop p of
           Inl e \<Rightarrow> Inl (''failed to merge IOPs: '' @ e) | Inr merged \<Rightarrow> Inr merged))),
    tr @ [ReadFile (profile_path dir spec)])"
  by (simp add: mergeIOPWithProfile_def Let_def split: sum.splits)

lemma merge_extends: "emits (\<lambda>e. \<exists>p. e = ReadFile p) (mergeIOPWithProfile L dir iop)"
  by (auto simp: mergeIOPWithProfile_def intro!: emits_intros)

lemma convert_emits: "emits (\<lambda>e. \<exists>p. e = ReadFile p) (convertIopToHelmApp L dir iop)"
  by (auto simp: convertIopToHelmApp_def merge_extends intro!: emits_intros)

lemma convert_run:
  assumes "iop_Spec inp = Some spec"
  shows "run_state (convertIopToHelmApp L dir inp) tr =
    (case run_state (mergeIOPWithProfile L dir inp) tr of
       (Inl e, t) \<Rightarrow> (Returned (Inl e), t)
     | (Inr iop, t) \<Rightarrow>
         ((case convert_components L iop (iop_version spec)
             (plain_component (buildName (om_Name (iop_Meta inp)) ''base'') ''base'' (iop_version spec) None)
             (plain_component (buildName (om_Name (iop_Meta inp)) ''istiod'') ''istiod'' (iop_version spec) None) of
           Panicked \<Rightarrow> Panicked
         | Returned (Inl e) \<Rightarrow> Returned (Inl e)
         | Returned (Inr components) \<Rightarrow> Returned (Inr (converted_app iop components))), t))"
  using assms
  by (auto simp: convertIopToHelmApp_def converted_app_def Let_def
      split: sum.splits prod.splits outcome.splits)

lemma convert_result:
  assumes "iop_Spec inp = Some spec" and "result_of (convertIopToHelmApp L dir inp) tr = Returned (Inr app)"
  obtains iop components where "result_of (mergeIOPWithProfile L dir inp) tr = Inr iop"
    "convert_components L iop (iop_version spec)
      (plain_component (buildName (om_Name (iop_Meta inp)) ''base'') ''base'' (iop_version spec) None)
      (plain_component (buildName (om_Name (iop_Meta inp)) ''istiod'') ''istiod'' (iop_version spec) None) =
      Returned (Inr components)"
    "app = converted_app iop components"
proof -
  obtain m t where m: "run_state (mergeIOPWithProfile L dir inp) tr = (m, t)" by fastforce
  show ?thesis
    using assms(2) m that
    by (auto simp: result_of_def convert_run [OF assms(1)] split: sum.splits outcome.splits)
qed

lemma managed_converted: "managed (ha_Meta (converted_app iop components))"
  by (simp add: managed_def converted_app_def label_of_def)

section \<open>A concrete IstioOperator\<close>

definition sample_components :: component_set where
  "sample_components = \<lparr>ics_Base = Some \<lparr>ic_Enabled = Some True, ic_K8S = None\<rparr>,
     ics_Pilot = Some \<lparr>ic_Enabled = Some True, ic_K8S = None\<rparr>,
     ics_IngressGateways = [\<lparr>gw_Enabled = Some True, gw_Name = ''edge'', gw_K8S = None\<rparr>,
       \<lparr>gw_Enabled = Some True, gw_Name = [], gw_K8S = None\<rparr>],
     ics_EgressGateways = [\<lparr>gw_Enabled = Some False, gw_Name = ''out'', gw_K8S = None\<rparr>],
     ics_Cni = None, ics_Ztunnel = None\<rparr>"

definition sample_iop_spec :: iop_spec where
  "sample_iop_spec = \<lparr>is_Profile = [], is_Tag = Some (StringValue ''1.22''),
     is_Components = Some sample_components, is_MeshConfig = None, is_Values = None\<rparr>"

definition sample_iop :: IstioOperator where
  "sample_iop = \<lparr>iop_Meta = sample_meta, iop_Spec = Some sample_iop_spec\<rparr>"

definition sample_converted :: "HelmComponent list" where
  "sample_converted =
     [plain_component ''iop-demo-base'' ''base'' ''1.22'' None,
      plain_component ''iop-demo-istiod'' ''istiod'' ''1.22'' (Some (Struct [])),
      plain_component ''iop-demo-edge'' ''gateway'' ''1.22'' (Some (Struct []))]"

lemma sample_merge: "run_state (mergeIOPWithProfile sample_lib dir iop) tr =
    (Inr iop, tr @ [ReadFile (profile_path dir spec)])" if "iop_Spec iop = Some spec"
  by (simp add: merge_run [OF that] sample_lib_def)

lemma sample_NewStruct_nil: "l_NewStruct sample_lib (Some []) = Inr (Struct [])"
  by (simp add: sample_lib_def sample_NewStruct_def)

lemma sample_iop_values: "is_Values sample_iop_spec = None" "is_MeshConfig sample_iop_spec = None"
  "is_Components sample_iop_spec = Some sample_components"
  "iop_version sample_iop_spec = ''1.22''"
  by (simp_all add: sample_iop_spec_def iop_version_def)

lemma sample_value_at [simp]: "value_at (Some sample_iop_spec) k = None"
  by (simp add: value_at_def sample_iop_values)

lemma sample_istiod: "istiod_values sample_lib (Some sample_iop_spec) sample_components = Returned (Inr (Struct []))"
  by (simp add: istiod_values_def mesh_values_def pilot_values_def add_value_def sample_iop_values
      sample_NewStruct_nil sample_components_def)

lemma sample_core:
  "core_components sample_lib (Some sample_iop_spec) sample_components b c =
   Returned (Inr [b, c\<lparr>hc_ComponentValues := Some (Struct [])\<rparr>])"
  by (simp add: core_components_def sample_istiod) (simp add: sample_components_def is_enabled_def)

lemma sample_gateways:
  "build_gateways sample_lib n v (Some sample_iop_spec) (ics_IngressGateways sample_components) cs =
     Inr (cs @ [plain_component (buildName n ''edge'') ''gateway'' v (Some (Struct []))])"
  "build_gateways sample_lib n v (Some sample_iop_spec) (ics_EgressGateways sample_components) cs = Inr cs"
  by (simp_all add: sample_components_def buildGw_def gateway_values_def autoscaling_values_def
      sample_NewStruct_nil plain_component_def)

lemma sample_iop_has_spec: "iop_Spec sample_iop = Some sample_iop_spec"
  by (simp add: sample_iop_def)

lemma sample_convert_any:
  assumes "iop_Spec iop = Some sample_iop_spec" and "om_Name (iop_Meta iop) = ''demo''"
  shows "run_state (convertIopToHelmApp sample_lib dir iop) tr =
    (Returned (Inr (converted_app iop sample_converted)), tr @ [ReadFile (profile_path dir sample_iop_spec)])"
proof -
  have off: "\<not> is_enabled (ics_Cni sample_components)" "\<not> is_enabled (ics_Ztunnel sample_components)"
    by (simp_all add: sample_components_def is_enabled_def)
  have "convert_components sample_lib iop (iop_version sample_iop_spec)
      (plain_component (buildName (om_Name (iop_Meta iop)) ''base'') ''base'' (iop_version sample_iop_spec) None)
      (plain_component (buildName (om_Name (iop_Meta iop)) ''istiod'') ''istiod'' (iop_version sample_iop_spec) None) =
    Returned (Inr sample_converted)"
    by (simp add: convert_components_def assms sample_iop_values sample_core sample_gateways off
        sample_converted_def plain_component_def Let_def)
       (simp add: buildName_def)
  then show ?thesis by (simp add: convert_run [OF assms(1)] sample_merge [OF assms(1)])
qed

lemma sample_convert:
  "run_state (convertIopToHelmApp sample_lib dir sample_iop) tr =
   (Returned (Inr (converted_app sample_iop sample_converted)), tr @ [ReadFile (profile_path dir sample_iop_spec)])"
  by (rule sample_convert_any) (simp_all add: sample_iop_def sample_meta_def)

section \<open>Properties of the conversion\<close>





text \<open>Release names do not identify the IstioOperator: one whose name extends another's by a dash and
  a word shares the release names of the gateways whose names begin with that word and a dash.\<close>

theorem build_name_collision:
  "buildName n (m @ ''-'' @ p) = buildName (n @ ''-'' @ m) p"
  by (simp add: buildName_def)

lemma pilot_resources_value:
  assumes "k8s_Resources k = Some r" and "map_of vs ''pilot'' = None"
    and "pilot_values L (Some k) vs = Returned (Inr vs')"
  shows "\<not> json_entries vs'"
proof -
  have "\<exists>es. vs' = AList.update ''pilot'' (VMap (Some [(''resources'', VOpaque r)])) es"
    using assms by (cases "k8s_Affinity k") (auto simp: pilot_values_def is_nil_def entries.lookup_store)
  then have "map_of vs' ''pilot'' = Some (VMap (Some [(''resources'', VOpaque r)]))"
    by (auto simp: entries.lookup_store)
  then show ?thesis by (fastforce simp: json_entries_iff dest: map_of_SomeD)
qed

lemma pilot_resources_istiod:
  assumes "NewStruct_laws L" and "ics_Pilot cs = Some c" and "ic_K8S c = Some k"
    and "k8s_Resources k = Some r" and "value_at spec ''pilot'' = None"
  shows "istiod_values L spec cs \<noteq> Returned (Inr s)"
proof
  assume s: "istiod_values L spec cs = Returned (Inr s)"
  then obtain vs where vs: "mesh_values L spec = Returned vs"
    by (cases "mesh_values L spec") (simp_all add: istiod_values_def)
  have "map_of vs ''pilot'' = None"
    using vs by (auto simp: mesh_values_def Let_def is_nil_def entries.lookup_store
        split: option.splits gval.splits if_splits)
  then have pilot: "map_of (add_value L spec ''sidecarInjectorWebhook'' vs) ''pilot'' = None"
    by (simp add: add_value_def entries.lookup_store split: option.splits)
  let ?vs = "add_value L spec ''pilot'' (add_value L spec ''sidecarInjectorWebhook'' vs)"
  have vs': "?vs = add_value L spec ''sidecarInjectorWebhook'' vs"
    by (simp add: add_value_def assms(5))
  obtain vs2 where vs2: "pilot_values L (Some k) (add_value L spec ''sidecarInjectorWebhook'' vs) = Returned (Inr vs2)"
    and new: "l_NewStruct L (Some vs2) = Inr s"
    using s vs assms by (auto simp: istiod_values_def vs' Let_def split: outcome.splits sum.splits)
  obtain e where "l_NewStruct L (Some vs2) = Inl e"
    using pilot_resources_value [OF assms(4) pilot vs2] assms(1) by (auto simp: NewStruct_laws_def)
  with new show False by simp
qed

text \<open>C38. An IstioOperator that sets resources for an enabled pilot, and whose values (with those of the
  profile) have no \<open>pilot\<close>, is never converted: the resources are put into the values as they are,
  and a Struct cannot hold them.\<close>

theorem pilot_resources_never_converted:
  assumes "NewStruct_laws L" and "iop_Spec inp = Some spec"
    and "result_of (mergeIOPWithProfile L dir inp) tr = Inr iop"
    and "get_or is_Components None (iop_Spec iop) = Some cs" and "is_enabled (ics_Pilot cs)"
    and "get_or ic_K8S None (ics_Pilot cs) = Some k" and "k8s_Resources k = Some r"
    and "value_at (iop_Spec iop) ''pilot'' = None"
  shows "result_of (convertIopToHelmApp L dir inp) tr \<noteq> Returned (Inr app)"
proof -
  obtain c where "ics_Pilot cs = Some c" "ic_K8S c = Some k"
    using assms(6) by (cases "ics_Pilot cs") auto
  then have none: "istiod_values L (iop_Spec iop) cs \<noteq> Returned (Inr s)" for s
    using pilot_resources_istiod assms by metis
  have "convert_components L iop v b i \<noteq> Returned (Inr x)" for v b i x
    using none assms(4,5)
    by (auto simp: convert_components_def core_components_def Let_def split: outcome.splits sum.splits)
  then show ?thesis
    using assms(3)
    by (auto simp: result_of_def convert_run [OF assms(2)] split: prod.splits sum.splits outcome.splits)
qed

definition resources_iop :: IstioOperator where
  "resources_iop = sample_iop\<lparr>iop_Spec := Some (sample_iop_spec\<lparr>is_Components := Some
     (sample_components\<lparr>ics_Pilot := Some \<lparr>ic_Enabled = Some True,
        ic_K8S = Some \<lparr>k8s_Affinity = None, k8s_Resources = Some ''limits''\<rparr>\<rparr>\<rparr>)\<rparr>)\<rparr>"

theorem pilot_resources_never_converted_witness:
  "result_of (convertIopToHelmApp sample_lib ''profiles'' resources_iop) [] \<noteq> Returned (Inr sample_app)"
proof (rule pilot_resources_never_converted [OF sample_NewStruct_laws])
  show "iop_Spec resources_iop = Some (sample_iop_spec\<lparr>is_Components := Some
      (sample_components\<lparr>ics_Pilot := Some \<lparr>ic_Enabled = Some True,
        ic_K8S = Some \<lparr>k8s_Affinity = None, k8s_Resources = Some ''limits''\<rparr>\<rparr>\<rparr>)\<rparr>)"
    by (simp add: resources_iop_def)
  then show "result_of (mergeIOPWithProfile sample_lib ''profiles'' resources_iop) [] = Inr resources_iop"
    by (simp add: result_of_def sample_merge)
  show "k8s_Resources \<lparr>k8s_Affinity = None, k8s_Resources = Some ''limits''\<rparr> = Some ''limits''" by simp
  show "get_or is_Components None (iop_Spec resources_iop) = Some (sample_components\<lparr>ics_Pilot := Some
      \<lparr>ic_Enabled = Some True, ic_K8S = Some \<lparr>k8s_Affinity = None, k8s_Resources = Some ''limits''\<rparr>\<rparr>\<rparr>)"
    by (simp add: resources_iop_def)
qed (simp_all add: is_enabled_def resources_iop_def value_at_def sample_iop_values)

section \<open>Ownership\<close>

text \<open>A write to a HelmApp is the operator's own business when the HelmApp carries its label.\<close>

fun owned_write :: "event \<Rightarrow> bool" where
  "owned_write (CreateHelmApp a) = managed (ha_Meta a)"
| "owned_write (UpdateHelmApp a) = managed (ha_Meta a)"
| "owned_write (DeleteHelmApp a) = managed (ha_Meta a)"
| "owned_write (UpdateHelmAppStatus a) = False"
| "owned_write e = (\<not> helm_write e \<and> release_of e = None)"

lemma emits_case_kube_error [emits_intros]:
  "(\<And>m. x = NotFound m \<Longrightarrow> emits P (f m)) \<Longrightarrow> (\<And>m. x = KubeError m \<Longrightarrow> emits P (g m)) \<Longrightarrow>
   emits P (case x of NotFound m \<Rightarrow> f m | KubeError m \<Rightarrow> g m)"
  by (cases x) auto

lemma createOrUpdate_emits:
  "managed (ha_Meta app) \<Longrightarrow> emits owned_write (createOrUpdateHelmApp L K app)"
  by (auto simp: createOrUpdateHelmApp_def intro!: emits_intros)

lemma createOrUpdate_extends: "extends (createOrUpdateHelmApp L K app)"
  by (auto simp: createOrUpdateHelmApp_def intro!: emits_intros)

lemma IOP_delete_emits: "emits owned_write (IOP_reconcileDelete K iop)"
  by (auto simp: IOP_reconcileDelete_def intro!: emits_intros)

lemma IOP_finalizer_emits: "emits owned_write (IOP_ensure_finalizer K iop)"
  by (auto simp: IOP_ensure_finalizer_def intro!: emits_intros)

lemma convert_owned: "emits owned_write (convertIopToHelmApp L dir iop)"
  by (rule emits_mono [OF convert_emits]) auto

lemma convert_extends: "extends (convertIopToHelmApp L dir iop)"
  by (rule emits_extends [OF convert_owned])

lemma convert_managed:
  assumes "result_of (convertIopToHelmApp L dir inp) tr = Returned (Inr app)"
  shows "managed (ha_Meta app)"
proof -
  obtain spec where "iop_Spec inp = Some spec"
    using assms by (cases "iop_Spec inp") (auto simp: convertIopToHelmApp_def)
  with assms show ?thesis
    by (auto simp: result_of_def convert_run managed_converted split: prod.splits sum.splits outcome.splits)
qed

lemma emits_bind_result:
  assumes "emits P m" and "\<And>tr. emits P (f (result_of m tr))"
  shows "emits P (State_Monad.bind m f)"
  unfolding emits_def
proof
  fix tr
  obtain es where es: "run_state m tr = (result_of m tr, tr @ es)" "list_all P es"
    using assms(1) unfolding emits_def result_of_def by (metis prod.collapse)
  obtain es' where "snd (run_state (f (result_of m tr)) (tr @ es)) = (tr @ es) @ es'" "list_all P es'"
    using assms(2) unfolding emits_def by blast
  with es show "\<exists>es. snd (run_state (State_Monad.bind m f) tr) = tr @ es \<and> list_all P es"
    by (intro exI [of _ "es @ es'"]) simp
qed

lemma IOP_apply_emits: "emits owned_write (IOP_apply L K dir iop)"
  unfolding IOP_apply_def
proof (rule emits_bind_result [OF convert_owned])
  fix tr
  show "emits owned_write (case result_of (convertIopToHelmApp L dir iop) tr of
       Panicked \<Rightarrow> State_Monad.return Panicked
     | Returned (Inl e) \<Rightarrow> State_Monad.return (Returned (no_requeue, Some e))
     | Returned (Inr helmApp) \<Rightarrow> do {
         err \<leftarrow> createOrUpdateHelmApp L K helmApp;
         State_Monad.return (Returned (no_requeue, err))
       })"
    using convert_managed [of L dir iop tr]
    by (auto intro!: emits_intros createOrUpdate_emits)
qed

lemma IOP_Reconcile_emits: "emits owned_write (IOP_Reconcile L K dir req)"
  by (auto simp: IOP_Reconcile_def IOP_delete_emits IOP_finalizer_emits IOP_apply_emits
      intro!: emits_intros)

text \<open>C24. The IstioOperator controller never touches a HelmApp that is not its own: each HelmApp it
  creates, updates or deletes carries the operator's label, and it never writes a HelmApp's status
  nor talks to Helm.\<close>

theorem iop_writes_owned:
  "list_all (\<lambda>e. owned_write e) (events_of (IOP_Reconcile L K dir req) tr)"
  by (rule events_emits [OF IOP_Reconcile_emits])

text \<open>C25. What a converted HelmApp does to the cluster: it is created when there is none of its name; an
  existing one is updated only when it is managed and its spec differs, and then nothing but its
  spec changes; in every other case nothing is written.\<close>

theorem createOrUpdate_writes:
  "filter kube_write (events_of (createOrUpdateHelmApp L K app) tr) =
     (case k_GetHelmApp K tr (key_of (ha_Meta app)) of
        Inl (NotFound m) \<Rightarrow> [CreateHelmApp app]
      | Inl (KubeError m) \<Rightarrow> []
      | Inr existing \<Rightarrow>
          if managed (ha_Meta existing) \<and> \<not> spec_DeepEqual L (ha_Spec existing) (ha_Spec app)
          then [UpdateHelmApp (existing\<lparr>ha_Spec := ha_Spec app\<rparr>)] else [])"
  by (auto simp: createOrUpdateHelmApp_def events_bind_call emits_intros createOrUpdate_extends Let_def
      split: sum.splits kube_error.splits)

lemma list_all2_same: "(\<And>x. x \<in> set xs \<Longrightarrow> R x x) \<Longrightarrow> list_all2 R xs xs"
  by (induction xs) auto

text \<open>Stability: once the HelmApp in the cluster has the converted spec, a further run writes nothing.
  Struct comparison and the private fields are taken to be reflexive.\<close>

theorem createOrUpdate_stable:
  assumes "k_GetHelmApp K tr (key_of (ha_Meta app)) = Inr existing"
    and "ha_Spec existing = ha_Spec app"
    and "\<And>s. l_Struct_DeepEqual L s s" and "\<And>s. l_private_DeepEqual L s s"
  shows "events_of (createOrUpdateHelmApp L K app) tr = [GetHelmApp (key_of (ha_Meta app))] \<and>
    result_of (createOrUpdateHelmApp L K app) tr = None"
proof -
  have "component_DeepEqual L c c" for c using assms(3) by (simp add: component_DeepEqual_def)
  then have "list_all2 (component_DeepEqual L) cs cs" for cs by (simp add: list_all2_same)
  then have "spec_DeepEqual L (ha_Spec existing) (ha_Spec app)"
    using assms(2-4) by (auto simp: spec_DeepEqual_def split: option.splits)
  with assms(1) show ?thesis
    by (simp add: createOrUpdateHelmApp_def result_of_def events_of_def)
qed

definition stored_app :: HelmApp where
  "stored_app = (converted_app sample_iop sample_converted)\<lparr>ha_Status := Some
     \<lparr>st_Phase = Phase_SUCCEEDED, st_Components = []\<rparr>\<rparr>"

definition stored_kube :: kube_api where
  "stored_kube = sample_kube (\<lambda>k. Inr stored_app) (\<lambda>k. Inr sample_iop)"

theorem createOrUpdate_stable_witness:
  "events_of (createOrUpdateHelmApp sample_lib stored_kube (converted_app sample_iop sample_converted)) [] =
   [GetHelmApp (''default'', ''demo'')]"
proof -
  have got: "k_GetHelmApp stored_kube [] (key_of (ha_Meta (converted_app sample_iop sample_converted))) = Inr stored_app"
    by (simp add: stored_kube_def sample_kube_def)
  have key: "key_of (ha_Meta (converted_app sample_iop sample_converted)) = (''default'', ''demo'')"
    by (simp add: key_of_def converted_app_def sample_iop_def sample_meta_def)
  have "ha_Spec stored_app = ha_Spec (converted_app sample_iop sample_converted)"
    by (simp add: stored_app_def)
  moreover have "l_Struct_DeepEqual sample_lib s s" "l_private_DeepEqual sample_lib t t" for s t
    by (simp_all add: sample_lib_def)
  ultimately show ?thesis using createOrUpdate_stable [OF got, of sample_lib] by (simp add: key)
qed

text \<open>An IstioOperator without any enabled component is not stable: the conversion produces an empty
  list, the HelmApp read back has a nil one, and the two are never equal, so every run updates the
  managed HelmApp again.\<close>

theorem empty_components_always_updated:
  assumes "ha_Spec app = Some s" and "spec_Components s = Some []"
    and "k_GetHelmApp K tr (key_of (ha_Meta app)) = Inr existing"
    and "managed (ha_Meta existing)" and "ha_Spec existing = Some (s\<lparr>spec_Components := None\<rparr>)"
  shows "filter kube_write (events_of (createOrUpdateHelmApp L K app) tr) =
    [UpdateHelmApp (existing\<lparr>ha_Spec := ha_Spec app\<rparr>)]"
proof -
  have "\<not> spec_DeepEqual L (ha_Spec existing) (ha_Spec app)"
    using assms(1,2,5) by (simp add: spec_DeepEqual_def)
  with assms(3,4) show ?thesis
    by (auto simp: createOrUpdateHelmApp_def events_bind_call emits_intros Let_def)
qed

theorem empty_components_always_updated_witness:
  "\<exists>a. filter kube_write (events_of (createOrUpdateHelmApp sample_lib
      (sample_kube (\<lambda>k. Inr ((converted_app sample_iop [])\<lparr>ha_Spec := map_option (spec_Components_update (\<lambda>_. None))
         (ha_Spec (converted_app sample_iop []))\<rparr>)) (\<lambda>k. Inr sample_iop))
      (converted_app sample_iop [])) []) = [UpdateHelmApp a]"
proof -
  obtain s where s: "ha_Spec (converted_app sample_iop []) = Some s" "spec_Components s = Some []"
    by (simp add: converted_app_def)
  show ?thesis
    by (subst empty_components_always_updated [OF s])
       (auto simp: sample_kube_def s managed_converted)
qed

section \<open>Deleting an IstioOperator\<close>

text \<open>C23. The finalizer of an IstioOperator is removed only when no HelmApp of its own is left: there is
  none of its name, or the one there belongs to somebody else, or its deletion has just been
  accepted; somebody else's HelmApp is not deleted.\<close>

theorem iop_finalizer_removed_last:
  assumes "finalizer_laws K"
    and "UpdateIOP i \<in> set (events_of (IOP_reconcileDelete K iop) tr)"
  shows "IOPFinalizer \<notin> set (om_Finalizers (iop_Meta i)) \<and>
    (case k_GetHelmApp K tr (key_of (iop_Meta iop)) of
       Inl e \<Rightarrow> \<exists>m. e = NotFound m
     | Inr h \<Rightarrow>
         if om_Name (ha_Meta h) = om_Name (iop_Meta iop) \<and> managed (ha_Meta h)
         then events_of (IOP_reconcileDelete K iop) tr =
                [GetHelmApp (key_of (iop_Meta iop)), DeleteHelmApp h, UpdateIOP i] \<and>
              k_DeleteHelmApp K (tr @ [GetHelmApp (key_of (iop_Meta iop))]) h = None
         else DeleteHelmApp h \<notin> set (events_of (IOP_reconcileDelete K iop) tr))"
  using assms
  by (auto simp: IOP_reconcileDelete_def events_of_def without_finalizer_def finalizer_laws_def
      split: sum.splits kube_error.splits option.splits if_splits)

definition deleted_iop :: IstioOperator where
  "deleted_iop = sample_iop\<lparr>iop_Meta := sample_meta\<lparr>om_Finalizers := [IOPFinalizer],
     om_DeletionTimestamp := Some 7\<rparr>\<rparr>"

theorem iop_finalizer_removed_last_witness:
  "events_of (IOP_reconcileDelete stored_kube deleted_iop) [] =
   [GetHelmApp (''default'', ''demo''), DeleteHelmApp stored_app,
    UpdateIOP (without_finalizer stored_kube deleted_iop)]"
proof -
  have fin: "finalizer_laws stored_kube" by (simp add: stored_kube_def sample_finalizer_laws)
  have key: "key_of (iop_Meta deleted_iop) = (''default'', ''demo'')"
    by (simp add: deleted_iop_def key_of_def sample_meta_def)
  have got: "k_GetHelmApp stored_kube [] k = Inr stored_app" for k
    by (simp add: stored_kube_def sample_kube_def)
  have own: "om_Name (ha_Meta stored_app) = om_Name (iop_Meta deleted_iop) \<and> managed (ha_Meta stored_app)"
    using managed_converted [of sample_iop sample_converted]
    by (simp add: stored_app_def deleted_iop_def converted_app_def sample_iop_def sample_meta_def)
  have "UpdateIOP (without_finalizer stored_kube deleted_iop) \<in>
      set (events_of (IOP_reconcileDelete stored_kube deleted_iop) [])"
    using own by (simp add: IOP_reconcileDelete_def events_of_def got)
      (simp add: stored_kube_def sample_kube_def)
  from iop_finalizer_removed_last [OF fin this] show ?thesis by (simp add: got own key)
qed

section \<open>The whole handler\<close>

lemma IOP_Reconcile_extends: "extends (IOP_Reconcile L K dir req)"
  by (rule emits_extends [OF IOP_Reconcile_emits])

lemma IOP_Reconcile_fetches: "\<exists>es. events_of (IOP_Reconcile L K dir req) tr = GetIOP req # es"
  by (auto simp: IOP_Reconcile_def events_bind emits_intros emits_extends [OF IOP_delete_emits]
      emits_extends [OF IOP_finalizer_emits] emits_extends [OF IOP_apply_emits] split: sum.splits)

interpretation iops: reconciler "IOP_Reconcile L K dir" GetIOP
    "\<lambda>tr k. \<exists>m. k_GetIOP K tr k = Inl (NotFound m)" for L K dir
  by unfold_locales (auto simp: IOP_Reconcile_extends IOP_Reconcile_fetches, simp add: IOP_Reconcile_def)

text \<open>Working off a queue of IstioOperators that are gone reads each of them once and does nothing
  else: in particular their HelmApps are left to the finalizer's deletion.\<close>

theorem gone_iops_ignored:
  assumes "\<And>k tr'. k \<in> set ks \<Longrightarrow> \<exists>m. k_GetIOP K tr' k = Inl (NotFound m)"
  shows "run_state (for_each (IOP_Reconcile L K dir) ks) tr =
    (Returned (map (\<lambda>_. (no_requeue, None)) ks), tr @ map GetIOP ks)"
  by (rule iops.missing_queue) (use assms in blast)

theorem gone_iops_ignored_witness:
  "run_state (for_each (IOP_Reconcile sample_lib
      (sample_kube (\<lambda>k. Inl (NotFound [])) (\<lambda>k. Inl (NotFound ''gone''))) ''profiles'')
      [(''ns'', ''a''), (''ns'', ''b'')]) [] =
   (Returned [(no_requeue, None), (no_requeue, None)], [GetIOP (''ns'', ''a''), GetIOP (''ns'', ''b'')])"
  by (subst gone_iops_ignored) (auto simp: sample_kube_def)

text \<open>C26. An IstioOperator gets its finalizer before anything else happens: a run on one that lacks it
  begins by reading it and writing it back with the finalizer, and ends there when that fails; so no
  HelmApp is ever created for an object that could vanish without its deletion.\<close>

theorem iop_finalizer_first:
  assumes "finalizer_laws K" and "k_GetIOP K tr req = Inr iop" and "\<not> is_deleting (iop_Meta iop)"
    and "IOPFinalizer \<notin> set (om_Finalizers (iop_Meta iop))"
  shows "\<exists>i es. events_of (IOP_Reconcile L K dir req) tr = GetIOP req # UpdateIOP i # es \<and>
    IOPFinalizer \<in> set (om_Finalizers (iop_Meta i)) \<and> iop_Spec i = iop_Spec iop \<and>
    (\<forall>e. k_UpdateIOP K (tr @ [GetIOP req]) i = Inl e \<longrightarrow> es = [] \<and>
       result_of (IOP_Reconcile L K dir req) tr = Returned (no_requeue, Some (kube_text e)))"
proof -
  define i where "i = iop\<lparr>iop_Meta := (iop_Meta iop)\<lparr>om_Finalizers :=
      k_AddFinalizer K (om_Finalizers (iop_Meta iop)) IOPFinalizer\<rparr>\<rparr>"
  have fin: "IOPFinalizer \<in> set (om_Finalizers (iop_Meta i))" "iop_Spec i = iop_Spec iop"
    using assms(1) by (simp_all add: i_def finalizer_laws_def)
  have ens: "IOP_ensure_finalizer K iop = call (UpdateIOP i) (\<lambda>tr. k_UpdateIOP K tr i)"
    using assms(1,4) by (simp add: IOP_ensure_finalizer_def i_def finalizer_laws_def Let_def)
  have "\<exists>es. events_of (IOP_Reconcile L K dir req) tr = GetIOP req # UpdateIOP i # es \<and>
      (\<forall>e. k_UpdateIOP K (tr @ [GetIOP req]) i = Inl e \<longrightarrow> es = [])"
    using assms(2,3)
    by (auto simp: IOP_Reconcile_def ens events_bind emits_intros emits_extends [OF IOP_delete_emits]
        emits_extends [OF IOP_finalizer_emits] emits_extends [OF IOP_apply_emits] split: sum.splits)
  moreover have "result_of (IOP_Reconcile L K dir req) tr = Returned (no_requeue, Some (kube_text e))"
    if "k_UpdateIOP K (tr @ [GetIOP req]) i = Inl e" for e
    using assms(2,3) that by (simp add: result_of_def IOP_Reconcile_def ens)
  ultimately show ?thesis using fin by blast
qed

theorem iop_finalizer_first_witness:
  "\<exists>i es. events_of (IOP_Reconcile sample_lib stored_kube ''profiles'' (''default'', ''demo'')) [] =
      GetIOP (''default'', ''demo'') # UpdateIOP i # es \<and> IOPFinalizer \<in> set (om_Finalizers (iop_Meta i))"
proof -
  have fin: "finalizer_laws stored_kube" by (simp add: stored_kube_def sample_finalizer_laws)
  have "k_GetIOP stored_kube [] (''default'', ''demo'') = Inr sample_iop"
    by (simp add: stored_kube_def sample_kube_def)
  from iop_finalizer_first [OF fin this, of sample_lib "''profiles''"] show ?thesis
    by (auto simp: sample_iop_def sample_meta_def is_deleting_def)
qed

end
