(* ===== verification/Api_Server.thy ===== *)
theory Api_Server
  imports HelmApp_Spec Iop_Spec
begin

text \<open>
  What the controllers rely on of the Kubernetes API server when they share one: the documented
  behaviour of the five verbs on their two kinds of objects, as a law of the responses.

  \<^item> \<open>api_view\<close> is what the server holds after a trace. Reads return it, a write changes the entry of its
    key only, and every other event leaves it alone, so nobody but the operator writes.
  \<^item> The status of a HelmApp is a subresource (the marker in helmapp_types.go): an update leaves it,
    and a status update leaves everything else. A write based on an old resource version has no law.
  \<^item> An object with finalizers is only marked when it is deleted, and goes when an update takes the
    last one away.
  \<^item> A spec is stored as JSON, where an empty list of components is left out (\<open>read_back\<close>).
  \<^item> \<open>replay_kube\<close> is a server with these laws.
\<close>

section \<open>The law\<close>

record api_view =
  av_app :: "trace \<Rightarrow> key \<Rightarrow> HelmApp option"
  av_iop :: "trace \<Rightarrow> key \<Rightarrow> IstioOperator option"

definition read_back :: "HelmAppSpec option \<Rightarrow> HelmAppSpec option" where
  "read_back = map_option (\<lambda>s. if spec_Components s = Some [] then s\<lparr>spec_Components := None\<rparr> else s)"

definition meta_updated :: "ObjectMeta \<Rightarrow> ObjectMeta \<Rightarrow> ObjectMeta \<Rightarrow> bool" where
  "meta_updated old new stored \<longleftrightarrow> key_of stored = key_of old \<and> om_Labels stored = om_Labels new \<and>
     om_Finalizers stored = om_Finalizers new \<and> om_DeletionTimestamp stored = om_DeletionTimestamp old"

definition app_created :: "HelmApp \<Rightarrow> HelmApp \<Rightarrow> bool" where
  "app_created new stored \<longleftrightarrow> ha_Spec stored = read_back (ha_Spec new) \<and> ha_Status stored = None \<and>
     meta_updated ((ha_Meta new)\<lparr>om_DeletionTimestamp := None\<rparr>) (ha_Meta new) (ha_Meta stored)"

definition app_updated :: "HelmApp \<Rightarrow> HelmApp \<Rightarrow> HelmApp \<Rightarrow> bool" where
  "app_updated old new stored \<longleftrightarrow> ha_Spec stored = read_back (ha_Spec new) \<and> ha_Status stored = ha_Status old \<and>
     meta_updated (ha_Meta old) (ha_Meta new) (ha_Meta stored)"

definition status_updated :: "HelmApp \<Rightarrow> HelmApp \<Rightarrow> HelmApp \<Rightarrow> bool" where
  "status_updated old new stored \<longleftrightarrow> ha_Spec stored = ha_Spec old \<and> ha_Status stored = ha_Status new \<and>
     meta_updated (ha_Meta old) (ha_Meta old) (ha_Meta stored)"

definition app_marked :: "HelmApp \<Rightarrow> HelmApp \<Rightarrow> bool" where
  "app_marked old stored \<longleftrightarrow> ha_Spec stored = ha_Spec old \<and> ha_Status stored = ha_Status old \<and>
     is_deleting (ha_Meta stored) \<and> key_of (ha_Meta stored) = key_of (ha_Meta old) \<and>
     om_Labels (ha_Meta stored) = om_Labels (ha_Meta old) \<and> om_Finalizers (ha_Meta stored) = om_Finalizers (ha_Meta old)"

definition iop_updated :: "IstioOperator \<Rightarrow> IstioOperator \<Rightarrow> IstioOperator \<Rightarrow> bool" where
  "iop_updated old new stored \<longleftrightarrow> iop_Spec stored = iop_Spec new \<and>
     meta_updated (iop_Meta old) (iop_Meta new) (iop_Meta stored)"

text \<open>An object being deleted goes with its last finalizer.\<close>

definition unless_done :: "ObjectMeta \<Rightarrow> string list \<Rightarrow> 'a \<Rightarrow> 'a option" where
  "unless_done m fs a = (if is_deleting m \<and> fs = [] then None else Some a)"

definition same_version :: "ObjectMeta \<Rightarrow> ObjectMeta \<Rightarrow> bool" where
  "same_version m n \<longleftrightarrow> om_ResourceVersion m = om_ResourceVersion n"

definition reads_view :: "kube_api \<Rightarrow> api_view \<Rightarrow> bool" where
  "reads_view K V \<longleftrightarrow>
     (\<forall>tr k. case av_app V tr k of
        None \<Rightarrow> \<exists>m. k_GetHelmApp K tr k = Inl (NotFound m)
      | Some a \<Rightarrow> k_GetHelmApp K tr k = Inr a \<and> key_of (ha_Meta a) = k) \<and>
     (\<forall>tr k. case av_iop V tr k of
        None \<Rightarrow> \<exists>m. k_GetIOP K tr k = Inl (NotFound m)
      | Some i \<Rightarrow> k_GetIOP K tr k = Inr i \<and> key_of (iop_Meta i) = k)"

definition keeps_view :: "api_view \<Rightarrow> bool" where
  "keeps_view V \<longleftrightarrow>
     (\<forall>tr e. \<not> kube_write e \<longrightarrow> av_app V (tr @ [e]) = av_app V tr) \<and>
     (\<forall>tr i. av_app V (tr @ [UpdateIOP i]) = av_app V tr) \<and>
     (\<forall>tr e. (\<forall>i. e \<noteq> UpdateIOP i) \<longrightarrow> av_iop V (tr @ [e]) = av_iop V tr)"

definition creates_app :: "kube_api \<Rightarrow> api_view \<Rightarrow> bool" where
  "creates_app K V \<longleftrightarrow> (\<forall>tr a. av_app V tr (key_of (ha_Meta a)) = None \<longrightarrow>
     (\<exists>a'. k_CreateHelmApp K tr a = Inr a' \<and> app_created a a' \<and>
        av_app V (tr @ [CreateHelmApp a]) = (av_app V tr)(key_of (ha_Meta a) \<mapsto> a')))"

definition updates_app :: "kube_api \<Rightarrow> api_view \<Rightarrow> bool" where
  "updates_app K V \<longleftrightarrow> (\<forall>tr a b.
     av_app V tr (key_of (ha_Meta a)) = Some b \<and> same_version (ha_Meta a) (ha_Meta b) \<longrightarrow>
     (\<exists>a'. k_UpdateHelmApp K tr a = Inr a' \<and> app_updated b a a' \<and> av_app V (tr @ [UpdateHelmApp a]) =
        (av_app V tr)(key_of (ha_Meta a) := unless_done (ha_Meta b) (om_Finalizers (ha_Meta a)) a')))"

definition updates_status :: "kube_api \<Rightarrow> api_view \<Rightarrow> bool" where
  "updates_status K V \<longleftrightarrow> (\<forall>tr a b.
     av_app V tr (key_of (ha_Meta a)) = Some b \<and> same_version (ha_Meta a) (ha_Meta b) \<longrightarrow>
     (\<exists>a'. k_UpdateHelmAppStatus K tr a = Inr a' \<and> status_updated b a a' \<and>
        av_app V (tr @ [UpdateHelmAppStatus a]) = (av_app V tr)(key_of (ha_Meta a) \<mapsto> a')))"

definition deletes_app :: "kube_api \<Rightarrow> api_view \<Rightarrow> bool" where
  "deletes_app K V \<longleftrightarrow> (\<forall>tr a b. av_app V tr (key_of (ha_Meta a)) = Some b \<longrightarrow>
     k_DeleteHelmApp K tr a = None \<and>
     (\<exists>b'. app_marked b b' \<and> av_app V (tr @ [DeleteHelmApp a]) =
        (av_app V tr)(key_of (ha_Meta a) := if om_Finalizers (ha_Meta b) = [] then None else Some b')))"

definition updates_iop :: "kube_api \<Rightarrow> api_view \<Rightarrow> bool" where
  "updates_iop K V \<longleftrightarrow> (\<forall>tr i j.
     av_iop V tr (key_of (iop_Meta i)) = Some j \<and> same_version (iop_Meta i) (iop_Meta j) \<longrightarrow>
     (\<exists>i'. k_UpdateIOP K tr i = Inr i' \<and> iop_updated j i i' \<and> av_iop V (tr @ [UpdateIOP i]) =
        (av_iop V tr)(key_of (iop_Meta i) := unless_done (iop_Meta j) (om_Finalizers (iop_Meta i)) i')))"

definition api_laws :: "kube_api \<Rightarrow> api_view \<Rightarrow> bool" where
  "api_laws K V \<longleftrightarrow> reads_view K V \<and> keeps_view V \<and> creates_app K V \<and> updates_app K V \<and>
     updates_status K V \<and> deletes_app K V \<and> updates_iop K V"

lemma same_version_refl [simp]: "same_version m m"
  by (simp add: same_version_def)

lemma read_back_None [simp]: "read_back None = None"
  by (simp add: read_back_def)

lemma read_back_idem [simp]: "read_back (read_back s) = read_back s"
  by (cases s) (simp_all add: read_back_def)

section \<open>Reading the law\<close>

lemma api_get_app:
  assumes "api_laws K V"
  shows "av_app V tr k = Some a \<Longrightarrow> k_GetHelmApp K tr k = Inr a \<and> key_of (ha_Meta a) = k"
    and "av_app V tr k = None \<Longrightarrow> \<exists>m. k_GetHelmApp K tr k = Inl (NotFound m)"
proof -
  have "reads_view K V" using assms by (simp add: api_laws_def)
  then have "case av_app V tr k of None \<Rightarrow> \<exists>m. k_GetHelmApp K tr k = Inl (NotFound m)
      | Some a \<Rightarrow> k_GetHelmApp K tr k = Inr a \<and> key_of (ha_Meta a) = k"
    unfolding reads_view_def by blast
  then show "av_app V tr k = Some a \<Longrightarrow> k_GetHelmApp K tr k = Inr a \<and> key_of (ha_Meta a) = k"
    and "av_app V tr k = None \<Longrightarrow> \<exists>m. k_GetHelmApp K tr k = Inl (NotFound m)" by simp_all
qed

lemma api_get_iop:
  assumes "api_laws K V"
  shows "av_iop V tr k = Some i \<Longrightarrow> k_GetIOP K tr k = Inr i \<and> key_of (iop_Meta i) = k"
proof -
  have "reads_view K V" using assms by (simp add: api_laws_def)
  then have "case av_iop V tr k of None \<Rightarrow> \<exists>m. k_GetIOP K tr k = Inl (NotFound m)
      | Some i \<Rightarrow> k_GetIOP K tr k = Inr i \<and> key_of (iop_Meta i) = k"
    unfolding reads_view_def by blast
  then show "av_iop V tr k = Some i \<Longrightarrow> k_GetIOP K tr k = Inr i \<and> key_of (iop_Meta i) = k" by simp
qed

lemma api_frame:
  assumes "api_laws K V"
  shows "\<not> kube_write e \<Longrightarrow> av_app V (tr @ [e]) = av_app V tr"
    and "av_app V (tr @ [UpdateIOP i]) = av_app V tr"
    and "(\<And>i. e \<noteq> UpdateIOP i) \<Longrightarrow> av_iop V (tr @ [e]) = av_iop V tr"
  using assms unfolding api_laws_def keeps_view_def by blast+

lemma api_create:
  assumes "api_laws K V" and "av_app V tr (key_of (ha_Meta a)) = None"
  obtains a' where "k_CreateHelmApp K tr a = Inr a'" "app_created a a'"
    "av_app V (tr @ [CreateHelmApp a]) = (av_app V tr)(key_of (ha_Meta a) \<mapsto> a')"
proof -
  have "creates_app K V" using assms(1) by (simp add: api_laws_def)
  then show ?thesis using assms(2) that unfolding creates_app_def by blast
qed

lemma api_update:
  assumes "api_laws K V" and "av_app V tr (key_of (ha_Meta a)) = Some b" and "same_version (ha_Meta a) (ha_Meta b)"
  obtains a' where "k_UpdateHelmApp K tr a = Inr a'" "app_updated b a a'" "av_app V (tr @ [UpdateHelmApp a]) =
      (av_app V tr)(key_of (ha_Meta a) := unless_done (ha_Meta b) (om_Finalizers (ha_Meta a)) a')"
proof -
  have "updates_app K V" using assms(1) by (simp add: api_laws_def)
  then show ?thesis using assms(2,3) that unfolding updates_app_def by blast
qed

lemma api_status:
  assumes "api_laws K V" and "av_app V tr (key_of (ha_Meta a)) = Some b" and "same_version (ha_Meta a) (ha_Meta b)"
  obtains a' where "k_UpdateHelmAppStatus K tr a = Inr a'" "status_updated b a a'"
    "av_app V (tr @ [UpdateHelmAppStatus a]) = (av_app V tr)(key_of (ha_Meta a) \<mapsto> a')"
proof -
  have "updates_status K V" using assms(1) by (simp add: api_laws_def)
  then show ?thesis using assms(2,3) that unfolding updates_status_def by blast
qed

lemma api_delete:
  assumes "api_laws K V" and "av_app V tr (key_of (ha_Meta a)) = Some b"
  obtains b' where "k_DeleteHelmApp K tr a = None" "app_marked b b'" "av_app V (tr @ [DeleteHelmApp a]) =
      (av_app V tr)(key_of (ha_Meta a) := if om_Finalizers (ha_Meta b) = [] then None else Some b')"
proof -
  have "deletes_app K V" using assms(1) by (simp add: api_laws_def)
  then have "k_DeleteHelmApp K tr a = None \<and> (\<exists>b'. app_marked b b' \<and> av_app V (tr @ [DeleteHelmApp a]) =
      (av_app V tr)(key_of (ha_Meta a) := if om_Finalizers (ha_Meta b) = [] then None else Some b'))"
    using assms(2) unfolding deletes_app_def by simp
  then show ?thesis using that by blast
qed

lemma api_update_iop:
  assumes "api_laws K V" and "av_iop V tr (key_of (iop_Meta i)) = Some j" and "same_version (iop_Meta i) (iop_Meta j)"
  obtains i' where "k_UpdateIOP K tr i = Inr i'" "iop_updated j i i'" "av_iop V (tr @ [UpdateIOP i]) =
      (av_iop V tr)(key_of (iop_Meta i) := unless_done (iop_Meta j) (om_Finalizers (iop_Meta i)) i')"
proof -
  have "updates_iop K V" using assms(1) by (simp add: api_laws_def)
  then show ?thesis using assms(2,3) that unfolding updates_iop_def by blast
qed

lemma api_quiet:
  assumes "api_laws K V" and "list_all (\<lambda>e. \<not> kube_write e) es"
  shows "av_app V (tr @ es) = av_app V tr \<and> av_iop V (tr @ es) = av_iop V tr"
  using assms(2)
proof (induction es rule: rev_induct)
  case (snoc e es)
  then have "\<not> kube_write e" by simp
  moreover from this have "e \<noteq> UpdateIOP i" for i by auto
  ultimately have "av_app V ((tr @ es) @ [e]) = av_app V (tr @ es)" "av_iop V ((tr @ es) @ [e]) = av_iop V (tr @ es)"
    using api_frame [OF assms(1)] by blast+
  with snoc show ?case by simp
qed simp

section \<open>A server that replays the trace\<close>

record server =
  sv_apps :: "key \<Rightarrow> HelmApp option"
  sv_iops :: "key \<Rightarrow> IstioOperator option"

text \<open>What is stored for a write. Versions are never changed here, so no write is out of date.\<close>

definition store_created :: "HelmApp \<Rightarrow> HelmApp" where
  "store_created a = a\<lparr>ha_Spec := read_back (ha_Spec a), ha_Status := None,
     ha_Meta := (ha_Meta a)\<lparr>om_DeletionTimestamp := None\<rparr>\<rparr>"

definition store_updated :: "HelmApp \<Rightarrow> HelmApp \<Rightarrow> HelmApp" where
  "store_updated b a = a\<lparr>ha_Spec := read_back (ha_Spec a), ha_Status := ha_Status b,
     ha_Meta := (ha_Meta a)\<lparr>om_DeletionTimestamp := om_DeletionTimestamp (ha_Meta b)\<rparr>\<rparr>"

definition store_status :: "HelmApp \<Rightarrow> HelmApp \<Rightarrow> HelmApp" where
  "store_status b a = b\<lparr>ha_Status := ha_Status a\<rparr>"

definition store_marked :: "HelmApp \<Rightarrow> HelmApp" where
  "store_marked b = b\<lparr>ha_Meta := (ha_Meta b)\<lparr>om_DeletionTimestamp := Some 1\<rparr>\<rparr>"

definition store_iop :: "IstioOperator \<Rightarrow> IstioOperator \<Rightarrow> IstioOperator" where
  "store_iop j i = i\<lparr>iop_Meta := (iop_Meta i)\<lparr>om_DeletionTimestamp := om_DeletionTimestamp (iop_Meta j)\<rparr>\<rparr>"

fun server_step :: "event \<Rightarrow> server \<Rightarrow> server" where
  "server_step (CreateHelmApp a) s =
     (if sv_apps s (key_of (ha_Meta a)) = None
      then s\<lparr>sv_apps := (sv_apps s)(key_of (ha_Meta a) \<mapsto> store_created a)\<rparr> else s)"
| "server_step (UpdateHelmApp a) s =
     (case sv_apps s (key_of (ha_Meta a)) of
        None \<Rightarrow> s
      | Some b \<Rightarrow> s\<lparr>sv_apps := (sv_apps s)(key_of (ha_Meta a) :=
          unless_done (ha_Meta b) (om_Finalizers (ha_Meta a)) (store_updated b a))\<rparr>)"
| "server_step (UpdateHelmAppStatus a) s =
     (case sv_apps s (key_of (ha_Meta a)) of
        None \<Rightarrow> s | Some b \<Rightarrow> s\<lparr>sv_apps := (sv_apps s)(key_of (ha_Meta a) \<mapsto> store_status b a)\<rparr>)"
| "server_step (DeleteHelmApp a) s =
     (case sv_apps s (key_of (ha_Meta a)) of
        None \<Rightarrow> s
      | Some b \<Rightarrow> s\<lparr>sv_apps := (sv_apps s)(key_of (ha_Meta a) :=
          if om_Finalizers (ha_Meta b) = [] then None else Some (store_marked b))\<rparr>)"
| "server_step (UpdateIOP i) s =
     (case sv_iops s (key_of (iop_Meta i)) of
        None \<Rightarrow> s
      | Some j \<Rightarrow> s\<lparr>sv_iops := (sv_iops s)(key_of (iop_Meta i) :=
          unless_done (iop_Meta j) (om_Finalizers (iop_Meta i)) (store_iop j i))\<rparr>)"
| "server_step _ s = s"

definition served :: "server \<Rightarrow> trace \<Rightarrow> server" where
  "served s tr = fold server_step tr s"

definition found :: "'a option \<Rightarrow> kube_error + 'a" where
  "found x = (case x of None \<Rightarrow> Inl (NotFound ''not found'') | Some a \<Rightarrow> Inr a)"

definition replay_kube :: "server \<Rightarrow> kube_api" where
  "replay_kube s = \<lparr>k_GetHelmApp = (\<lambda>tr k. found (sv_apps (served s tr) k)),
     k_UpdateHelmApp = (\<lambda>tr a. found (map_option (\<lambda>b. store_updated b a) (sv_apps (served s tr) (key_of (ha_Meta a))))),
     k_UpdateHelmAppStatus = (\<lambda>tr a. found (map_option (\<lambda>b. store_status b a) (sv_apps (served s tr) (key_of (ha_Meta a))))),
     k_CreateHelmApp = (\<lambda>tr a. case sv_apps (served s tr) (key_of (ha_Meta a)) of
        None \<Rightarrow> Inr (store_created a) | Some b \<Rightarrow> Inl (KubeError ''already exists'')),
     k_DeleteHelmApp = (\<lambda>tr a. case sv_apps (served s tr) (key_of (ha_Meta a)) of
        None \<Rightarrow> Some (NotFound ''not found'') | Some b \<Rightarrow> None),
     k_GetIOP = (\<lambda>tr k. found (sv_iops (served s tr) k)),
     k_UpdateIOP = (\<lambda>tr i. found (map_option (\<lambda>j. store_iop j i) (sv_iops (served s tr) (key_of (iop_Meta i))))),
     k_ContainsFinalizer = (\<lambda>fs f. f \<in> set fs),
     k_AddFinalizer = (\<lambda>fs f. if f \<in> set fs then fs else fs @ [f]),
     k_RemoveFinalizer = (\<lambda>fs f. filter (\<lambda>g. g \<noteq> f) fs)\<rparr>"

definition replay_view :: "server \<Rightarrow> api_view" where
  "replay_view s = \<lparr>av_app = (\<lambda>tr. sv_apps (served s tr)), av_iop = (\<lambda>tr. sv_iops (served s tr))\<rparr>"

definition well_keyed :: "server \<Rightarrow> bool" where
  "well_keyed s \<longleftrightarrow> (\<forall>k a. sv_apps s k = Some a \<longrightarrow> key_of (ha_Meta a) = k) \<and>
     (\<forall>k i. sv_iops s k = Some i \<longrightarrow> key_of (iop_Meta i) = k)"

lemma served_snoc: "served s (tr @ [e]) = server_step e (served s tr)"
  by (simp add: served_def)

lemma served_nil [simp]: "served s [] = s"
  by (simp add: served_def)

lemmas store_defs = store_created_def store_updated_def store_status_def store_marked_def store_iop_def
  unless_done_def

lemma server_step_keyed: "well_keyed s \<Longrightarrow> well_keyed (server_step e s)"
  by (cases e) (auto simp: well_keyed_def store_defs key_of_def split: option.splits if_splits)

lemma served_keyed: "well_keyed s \<Longrightarrow> well_keyed (served s tr)"
  by (induction tr rule: rev_induct) (simp_all add: served_snoc server_step_keyed)

lemmas updated_defs = app_created_def app_updated_def status_updated_def app_marked_def iop_updated_def
  meta_updated_def

lemma replay_finalizer_laws: "finalizer_laws (replay_kube s)"
  by (auto simp: finalizer_laws_def replay_kube_def)

lemma replay_laws:
  assumes "well_keyed s"
  shows "api_laws (replay_kube s) (replay_view s)"
  unfolding api_laws_def
proof (intro conjI)
  have keyed: "well_keyed (served s tr)" for tr by (rule served_keyed [OF assms])
  show "reads_view (replay_kube s) (replay_view s)"
    using keyed by (auto simp: reads_view_def replay_kube_def replay_view_def found_def well_keyed_def split: option.splits)
  have "sv_apps (server_step e t) = sv_apps t" if "\<not> kube_write e" for e t
    using that by (cases e) auto
  moreover have "sv_apps (server_step (UpdateIOP i) t) = sv_apps t" for i t
    by (simp split: option.splits)
  moreover have "sv_iops (server_step e t) = sv_iops t" if "\<forall>i. e \<noteq> UpdateIOP i" for e t
    using that by (cases e) (auto split: option.splits)
  ultimately show "keeps_view (replay_view s)"
    by (simp add: keeps_view_def replay_view_def served_snoc del: server_step.simps)
  show "creates_app (replay_kube s) (replay_view s)"
    by (auto simp: creates_app_def replay_kube_def replay_view_def served_snoc updated_defs store_created_def key_of_def)
  show "updates_app (replay_kube s) (replay_view s)"
    using keyed by (auto simp: updates_app_def replay_kube_def replay_view_def served_snoc updated_defs
        store_updated_def found_def key_of_def well_keyed_def)
  show "updates_status (replay_kube s) (replay_view s)"
    by (auto simp: updates_status_def replay_kube_def replay_view_def served_snoc updated_defs store_status_def found_def)
  have "app_marked b (store_marked b)" for b
    by (simp add: app_marked_def store_marked_def is_deleting_def key_of_def)
  then show "deletes_app (replay_kube s) (replay_view s)"
    by (auto simp: deletes_app_def replay_kube_def replay_view_def served_snoc)
  show "updates_iop (replay_kube s) (replay_view s)"
    using keyed by (auto simp: updates_iop_def replay_kube_def replay_view_def served_snoc updated_defs
        store_iop_def found_def key_of_def well_keyed_def)
qed

end
