(* ===== verification/Deletion_Runs.thy ===== *)
theory Deletion_Runs
  imports Api_Server
begin

text \<open>
  The deletion of a HelmApp over several runs (\<open>reconcileDelete\<close> of internal/controller/helmapp.go): every
  run that cannot uninstall everything writes back what is left and is retried from there. The
  measure is the number of calls that Helm still fails.
\<close>

section \<open>Failing calls\<close>

text \<open>The calls of a deletion that Helm answers with an error the code does not ignore.\<close>

fun failed_at :: "helm_api \<Rightarrow> trace \<Rightarrow> event \<Rightarrow> bool" where
  "failed_at H tr NewRegistryClient = (h_NewRegistryClient H tr \<noteq> None)"
| "failed_at H tr (HelmInit ns) = (h_Init H tr ns \<noteq> None)"
| "failed_at H tr (HelmGet n) = (case snd (h_Get H tr n) of Some (HelmError m) \<Rightarrow> True | _ \<Rightarrow> False)"
| "failed_at H tr (HelmUninstall n) = (case h_Uninstall H tr n of Some (HelmError m) \<Rightarrow> True | _ \<Rightarrow> False)"
| "failed_at H tr _ = False"

primrec failures :: "helm_api \<Rightarrow> trace \<Rightarrow> event list \<Rightarrow> nat" where
  "failures H tr [] = 0"
| "failures H tr (e # es) = (if failed_at H tr e then 1 else 0) + failures H (tr @ [e]) es"

lemma failures_append [simp]: "failures H tr (es @ fs) = failures H tr es + failures H (tr @ es) fs"
  by (induction es arbitrary: tr) simp_all

lemma failed_uninstall:
  assumes "result_of (uninstallComponent H n) tr = Some m"
  shows "failures H tr (events_of (uninstallComponent H n) tr) \<ge> 1"
proof -
  obtain r e where g: "h_Get H tr n = (r, e)" by fastforce
  show ?thesis
  proof (cases "\<exists>x. e = Some (HelmError x)")
    case True
    then show ?thesis using g by (cases r) (auto simp: events_of_def uninstallComponent_run)
  next
    case False
    then have run: "run_state (uninstallComponent H n) tr =
       (case r of None \<Rightarrow> (None, tr @ [HelmGet n])
        | Some _ \<Rightarrow> (case h_Uninstall H (tr @ [HelmGet n]) n of Some (HelmError m) \<Rightarrow> Some m | _ \<Rightarrow> None,
            tr @ [HelmGet n, HelmUninstall n]))"
      using g by (cases r) (auto simp: uninstallComponent_run split: option.splits helm_error.splits)
    then show ?thesis using assms
      by (auto simp: result_of_def events_of_def split: option.splits helm_error.splits)
  qed
qed

text \<open>Every component the loop keeps has cost Helm a failing call.\<close>

lemma drain_failures:
  "length (result_of (drain H cs) tr) \<le> failures H tr (events_of (drain H cs) tr)"
proof (induction cs)
  case (Cons c cs)
  let ?t = "tr @ events_of (drain H cs) tr"
  show ?case
  proof (cases "result_of (uninstallComponent H (hs_Name c)) ?t")
    case None
    then show ?thesis using Cons.IH by (simp add: drain_Cons)
  next
    case (Some m)
    then show ?thesis using Cons.IH failed_uninstall [OF Some] by (simp add: drain_Cons)
  qed
qed simp

lemma failed_init:
  assumes "run_state (init_helm H ns) tr = (Some m, tr @ es)"
  shows "failures H tr es \<ge> 1"
  using assms by (auto simp: init_helm_run split: option.splits)

section \<open>One run\<close>

text \<open>A HelmApp on its way out: marked, with a status, and held by no finalizer but the operator's.\<close>

definition being_deleted :: "HelmApp \<Rightarrow> bool" where
  "being_deleted app \<longleftrightarrow> is_deleting (ha_Meta app) \<and> ha_Status app \<noteq> None \<and>
     set (om_Finalizers (ha_Meta app)) \<subseteq> {HelmAppFinalizer}"

text \<open>The releases a HelmApp still answers for.\<close>

definition named :: "HelmApp \<Rightarrow> string set" where
  "named app = {n. n \<noteq> [] \<and> (\<exists>st. ha_Status app = Some st \<and> n \<in> hs_Name ` set (st_Components st))}"

definition named_at :: "api_view \<Rightarrow> trace \<Rightarrow> key \<Rightarrow> string set" where
  "named_at V tr k = (case av_app V tr k of None \<Rightarrow> {} | Some app \<Rightarrow> named app)"

lemma drained_app_simps [simp]:
  "ha_Meta (drained_app app kept) = ha_Meta app"
  "ha_Status (drained_app app kept) = Some \<lparr>st_Phase = calculateOverallPhase app kept, st_Components = kept\<rparr>"
  by (simp_all add: drained_app_def)

lemma released_app_simps [simp]:
  "om_Finalizers (ha_Meta (released_app K app)) = k_RemoveFinalizer K (om_Finalizers (ha_Meta app)) HelmAppFinalizer"
  "key_of (ha_Meta (released_app K app)) = key_of (ha_Meta app)"
  "same_version (ha_Meta (released_app K app)) m = same_version (ha_Meta app) m"
  by (simp_all add: released_app_def key_of_def same_version_def)

text \<open>One run removes the object or costs Helm a failing call. It returns, and every release the object
  answers for is uninstalled in it or still answered for afterwards.\<close>

definition run_outcome :: "api_view \<Rightarrow> helm_api \<Rightarrow> key \<Rightarrow> trace \<Rightarrow> event list \<Rightarrow> bool" where
  "run_outcome V H key tr es \<longleftrightarrow> av_iop V (tr @ es) = av_iop V tr \<and>
     (av_app V (tr @ es) key = None \<or>
        failures H tr es \<ge> 1 \<and> (\<exists>app. av_app V (tr @ es) key = Some app \<and> being_deleted app)) \<and>
     (\<forall>n \<in> named_at V tr key. ran (uninstallComponent H n) None tr es \<or> n \<in> named_at V (tr @ es) key)"

lemma run_outcome_shift:
  assumes "run_outcome V H key (tr @ [e]) es" and "av_app V (tr @ [e]) = av_app V tr"
    and "av_iop V (tr @ [e]) = av_iop V tr"
  shows "run_outcome V H key tr (e # es)"
proof -
  have "ran m None (tr @ [e]) es \<Longrightarrow> ran m None tr (e # es)" for m :: "(event, string option) prog"
    using ran_shift [of m None tr "[e]" es] by simp
  with assms show ?thesis by (auto simp: run_outcome_def named_at_def)
qed

text \<open>The status update that writes back what is left, and the update that gives the object up.\<close>

lemma status_written:
  assumes "api_laws K V" and "av_app V tr key = Some app" and "being_deleted app"
    and "list_all (\<lambda>e. \<not> kube_write e) pre"
  obtains app2 where "k_UpdateHelmAppStatus K (tr @ pre) (drained_app app kept) = Inr app2"
    "av_app V (tr @ pre @ [UpdateHelmAppStatus (drained_app app kept)]) = (av_app V tr)(key \<mapsto> app2)"
    "av_iop V (tr @ pre @ [UpdateHelmAppStatus (drained_app app kept)]) = av_iop V tr"
    "being_deleted app2" "named app2 = hs_Name ` set kept - {[]}"
proof -
  let ?a = "drained_app app kept"
  have key: "key_of (ha_Meta ?a) = key" using api_get_app(1) [OF assms(1,2)] by simp
  have quiet: "av_app V (tr @ pre) = av_app V tr \<and> av_iop V (tr @ pre) = av_iop V tr"
    by (rule api_quiet [OF assms(1,4)])
  have cur: "av_app V (tr @ pre) (key_of (ha_Meta ?a)) = Some app" using quiet assms(2) key by simp
  have "same_version (ha_Meta ?a) (ha_Meta app)" by simp
  then obtain app2 where upd: "k_UpdateHelmAppStatus K (tr @ pre) ?a = Inr app2" "status_updated app ?a app2"
      "av_app V ((tr @ pre) @ [UpdateHelmAppStatus ?a]) = (av_app V (tr @ pre))(key_of (ha_Meta ?a) \<mapsto> app2)"
    using api_status [OF assms(1) cur] by metis
  have "av_iop V ((tr @ pre) @ [UpdateHelmAppStatus ?a]) = av_iop V tr"
    using api_frame(3) [OF assms(1), of "UpdateHelmAppStatus ?a" "tr @ pre"] quiet by simp
  moreover have "being_deleted app2" "named app2 = hs_Name ` set kept - {[]}"
    using upd(2) assms(3) by (auto simp: status_updated_def meta_updated_def is_deleting_def being_deleted_def named_def)
  ultimately show ?thesis using that upd(1,3) quiet key by simp
qed

lemma release_written:
  assumes "finalizer_laws K" and "api_laws K V" and "av_app V tr key = Some app" and "being_deleted app"
  obtains app2 where "k_UpdateHelmApp K tr (released_app K app) = Inr app2"
    "av_app V (tr @ [UpdateHelmApp (released_app K app)]) key = None"
    "av_iop V (tr @ [UpdateHelmApp (released_app K app)]) = av_iop V tr"
proof -
  let ?a = "released_app K app"
  have key: "key_of (ha_Meta ?a) = key" using api_get_app(1) [OF assms(2,3)] by simp
  have "set (k_RemoveFinalizer K (om_Finalizers (ha_Meta app)) HelmAppFinalizer) = {}"
    using assms(1,4) by (auto simp: finalizer_laws_def being_deleted_def)
  then have none: "om_Finalizers (ha_Meta ?a) = []" by simp
  have cur: "av_app V tr (key_of (ha_Meta ?a)) = Some app" using assms(3) key by simp
  have "same_version (ha_Meta ?a) (ha_Meta app)" by simp
  then obtain app2 where upd: "k_UpdateHelmApp K tr ?a = Inr app2"
      "av_app V (tr @ [UpdateHelmApp ?a]) =
        (av_app V tr)(key_of (ha_Meta ?a) := unless_done (ha_Meta app) (om_Finalizers (ha_Meta ?a)) app2)"
    using api_update [OF assms(2) cur] by metis
  have "av_app V (tr @ [UpdateHelmApp ?a]) key = None"
    unfolding upd(2) using none key assms(4) by (simp add: unless_done_def being_deleted_def)
  moreover have "av_iop V (tr @ [UpdateHelmApp ?a]) = av_iop V tr"
    using api_frame(3) [OF assms(2), of "UpdateHelmApp ?a" tr] by simp
  ultimately show ?thesis using that upd(1) by blast
qed

lemma init_failed_outcome:
  assumes "api_laws K V" and "av_app V tr key = Some app" and "being_deleted app"
    and "run_state (init_helm H ns) tr = (Some m, tr @ es)" and "list_all (\<lambda>e. \<not> kube_write e) es"
  shows "run_outcome V H key tr es"
  using api_quiet [OF assms(1,5), of tr] failed_init [OF assms(4)] assms(2,3)
  by (simp add: run_outcome_def named_at_def)

lemma drain_ran_named:
  assumes "n \<in> named app" and "ha_Status app = Some st" and "t = tr @ pre"
  shows "ran (uninstallComponent H n) None tr (pre @ events_of (drain H (st_Components st)) t @ es) \<or>
    n \<in> hs_Name ` set (result_of (drain H (st_Components st)) t)"
proof -
  obtain c where c: "c \<in> set (st_Components st)" "hs_Name c = n" "n \<noteq> []" using assms(1,2) by (auto simp: named_def)
  then have "ran (uninstallComponent H n) None t (events_of (drain H (st_Components st)) t) \<or>
      n \<in> hs_Name ` set (result_of (drain H (st_Components st)) t)"
    using drain_ran [of c "st_Components st" H t] by simp
  then show ?thesis unfolding assms(3) by (elim disjE) (simp_all only: ran_append ran_shift simp_thms)
qed

lemma delete_handler_run:
  assumes "finalizer_laws K" and "api_laws K V" and "av_app V tr key = Some app" and "being_deleted app"
  shows "\<exists>r es. run_state (HelmApp_reconcileDelete K H app) tr = (Returned r, tr @ es) \<and> run_outcome V H key tr es"
proof (cases rule: init_helm_cases [of H "om_Namespace (ha_Meta app)" tr])
  case (failed m t es)
  then have "list_all (\<lambda>e. \<not> kube_write e) es" by (auto simp: list_all_iff)
  with failed(1,2) init_failed_outcome [OF assms(2,3,4)] have "run_outcome V H key tr es" by metis
  then show ?thesis using failed(1,2) by (auto simp: reconcileDelete_init_error)
next
  case ok
  obtain st where st: "ha_Status app = Some st" using assms(4) by (auto simp: being_deleted_def)
  let ?i = "[NewRegistryClient, HelmInit (om_Namespace (ha_Meta app))]"
  let ?d = "drain H (st_Components st)"
  let ?kept = "result_of ?d (tr @ ?i)" and ?pre = "?i @ events_of ?d (tr @ ?i)"
  let ?u = "UpdateHelmAppStatus (drained_app app ?kept)"
  have "list_all (\<lambda>e. \<not> kube_write e) ?pre" using drain_no_kube [of H "st_Components st" "tr @ ?i"] by simp
  from status_written [OF assms(2,3,4) this, of ?kept] obtain app2 where
    upd: "k_UpdateHelmAppStatus K (tr @ ?pre) (drained_app app ?kept) = Inr app2"
    and now: "av_app V (tr @ ?pre @ [?u]) = (av_app V tr)(key \<mapsto> app2)" "av_iop V (tr @ ?pre @ [?u]) = av_iop V tr"
    and app2: "being_deleted app2" "named app2 = hs_Name ` set ?kept - {[]}" by metis
  have ran: "ran (uninstallComponent H n) None tr (?pre @ es) \<or> n \<in> hs_Name ` set ?kept \<and> n \<noteq> []"
    if "n \<in> named app" for n es
    using drain_ran_named [OF that st refl, of H tr ?i es] that by (auto simp: named_def)
  show ?thesis
  proof (cases "?kept = []")
    case True
    have "av_app V (tr @ ?pre @ [?u]) key = Some app2" using now(1) by simp
    from release_written [OF assms(1,2) this app2(1)] obtain app3 where
      "k_UpdateHelmApp K (tr @ ?pre @ [?u]) (released_app K app2) = Inr app3"
      and "av_app V ((tr @ ?pre @ [?u]) @ [UpdateHelmApp (released_app K app2)]) key = None"
      "av_iop V ((tr @ ?pre @ [?u]) @ [UpdateHelmApp (released_app K app2)]) = av_iop V tr" using now(2) by metis
    moreover from this have "run_outcome V H key tr (?pre @ [?u, UpdateHelmApp (released_app K app2)])"
      using ran True assms(3) by (simp add: run_outcome_def named_at_def)
    ultimately show ?thesis using upd True by (auto simp: reconcileDelete_run [OF ok st] Let_def)
  next
    case False
    then have "failures H tr (?pre @ [?u]) \<ge> 1"
      using drain_failures [of H "st_Components st" "tr @ ?i"] by (cases ?kept) auto
    then have "run_outcome V H key tr (?pre @ [?u])"
      using now app2 ran assms(3) by (auto simp: run_outcome_def named_at_def)
    then show ?thesis using upd False by (auto simp: reconcileDelete_run [OF ok st] Let_def)
  qed
qed

lemma deletion_run:
  assumes "finalizer_laws K" and "api_laws K V" and "av_app V tr key = Some app" and "being_deleted app"
  shows "\<exists>r es. run_state (HelmApp_Reconcile L K H key) tr = (Returned r, tr @ es) \<and> run_outcome V H key tr es"
proof -
  have frame: "av_app V (tr @ [GetHelmApp key]) = av_app V tr" "av_iop V (tr @ [GetHelmApp key]) = av_iop V tr"
    using api_frame(1,3) [OF assms(2), where e = "GetHelmApp key" and tr = tr] by simp_all
  obtain r es where run: "run_state (HelmApp_reconcileDelete K H app) (tr @ [GetHelmApp key]) =
      (Returned r, (tr @ [GetHelmApp key]) @ es)" and out: "run_outcome V H key (tr @ [GetHelmApp key]) es"
    using delete_handler_run [OF assms(1,2) _ assms(4), of "tr @ [GetHelmApp key]" key H] assms(3) frame(1) by auto
  have "run_state (HelmApp_Reconcile L K H key) tr = (Returned r, tr @ GetHelmApp key # es)"
    using api_get_app(1) [OF assms(2,3)] assms(4) run
    by (simp add: HelmApp_Reconcile_def being_deleted_def)
  with run_outcome_shift [OF out frame] show ?thesis by blast
qed

section \<open>Runs until the object is gone\<close>

text \<open>Runs on an object that is gone only look for it.\<close>

lemma gone_runs:
  assumes "api_laws K V" and "av_app V tr key = None"
  shows "run_state (HelmApp_Reconcile L K H key) tr = (Returned (no_requeue, None), tr @ [GetHelmApp key]) \<and>
    av_app V (tr @ [GetHelmApp key]) = av_app V tr \<and> av_iop V (tr @ [GetHelmApp key]) = av_iop V tr"
  using api_get_app(2) [OF assms] api_frame(1,3) [OF assms(1), where e = "GetHelmApp key" and tr = tr]
  by (auto simp: HelmApp_Reconcile_def)

lemma deletion_runs:
  assumes "finalizer_laws K" and "api_laws K V" and bound: "\<And>es. failures H tr es \<le> k"
    and "av_app V (tr @ es) key = None \<or>
      k < n + failures H tr es \<and> (\<exists>app. av_app V (tr @ es) key = Some app \<and> being_deleted app)"
  shows "\<exists>ys fs. run_state (for_each (HelmApp_Reconcile L K H) (replicate n key)) (tr @ es) = (Returned ys, tr @ es @ fs) \<and>
    av_app V (tr @ es @ fs) key = None \<and> av_iop V (tr @ es @ fs) = av_iop V (tr @ es) \<and>
    (\<forall>m \<in> named_at V (tr @ es) key. ran (uninstallComponent H m) None (tr @ es) fs)"
  using assms(4)
proof (induction n arbitrary: es)
  case 0
  then show ?case using bound [of es] by (auto simp: named_at_def)
next
  case (Suc n)
  let ?goal = "\<lambda>es. \<exists>ys fs. run_state (for_each (HelmApp_Reconcile L K H) (replicate n key)) (tr @ es) =
      (Returned ys, tr @ es @ fs) \<and> av_app V (tr @ es @ fs) key = None \<and> av_iop V (tr @ es @ fs) = av_iop V (tr @ es) \<and>
      (\<forall>m \<in> named_at V (tr @ es) key. ran (uninstallComponent H m) None (tr @ es) fs)"
  have "\<exists>r es1. run_state (HelmApp_Reconcile L K H key) (tr @ es) = (Returned r, tr @ es @ es1) \<and> ?goal (es @ es1) \<and>
      av_iop V (tr @ es @ es1) = av_iop V (tr @ es) \<and>
      (\<forall>m \<in> named_at V (tr @ es) key. ran (uninstallComponent H m) None (tr @ es) es1 \<or> m \<in> named_at V (tr @ es @ es1) key)"
  proof (cases "av_app V (tr @ es) key")
    case None
    with gone_runs [OF assms(2) None, of L H] Suc.IH [of "es @ [GetHelmApp key]"] show ?thesis
      by (auto simp: named_at_def intro!: exI [of _ "[GetHelmApp key]"])
  next
    case (Some app)
    with Suc.prems have "being_deleted app" by simp
    then obtain r es1 where run: "run_state (HelmApp_Reconcile L K H key) (tr @ es) = (Returned r, (tr @ es) @ es1)"
      and out: "run_outcome V H key (tr @ es) es1"
      using deletion_run [OF assms(1,2) Some, of L H] by blast
    have "?goal (es @ es1)"
      by (rule Suc.IH) (use out Suc.prems Some in \<open>auto simp: run_outcome_def\<close>)
    with run out show ?thesis by (auto simp: run_outcome_def intro!: exI [of _ es1])
  qed
  then obtain r es1 ys fs where r: "run_state (HelmApp_Reconcile L K H key) (tr @ es) = (Returned r, tr @ es @ es1)"
    and iop1: "av_iop V (tr @ es @ es1) = av_iop V (tr @ es)"
    and n1: "\<forall>m \<in> named_at V (tr @ es) key. ran (uninstallComponent H m) None (tr @ es) es1 \<or> m \<in> named_at V (tr @ es @ es1) key"
    and ys: "run_state (for_each (HelmApp_Reconcile L K H) (replicate n key)) (tr @ es @ es1) = (Returned ys, tr @ es @ es1 @ fs)"
    and gone: "av_app V (tr @ es @ es1 @ fs) key = None" "av_iop V (tr @ es @ es1 @ fs) = av_iop V (tr @ es @ es1)"
    and n2: "\<forall>m \<in> named_at V (tr @ es @ es1) key. ran (uninstallComponent H m) None (tr @ es @ es1) fs"
    by auto
  have "ran (uninstallComponent H m) None (tr @ es) (es1 @ fs)" if "m \<in> named_at V (tr @ es) key" for m
    using n1 n2 that ran_append ran_shift [of _ _ "tr @ es" es1 fs] by fastforce
  with r ys gone iop1 show ?case by (auto intro!: exI [of _ "es1 @ fs"])
qed

text \<open>C12. A deletion ends, and leaves nothing behind: if Helm fails at most \<open>k\<close> calls, then \<open>k + 1\<close> runs of
  the handler, each working on the status the one before wrote back, remove the object, and every
  release its status named has been uninstalled in them without an error; no run panics.\<close>

theorem deletion_terminates:
  assumes "finalizer_laws K" and "api_laws K V" and "\<And>es. failures H tr es \<le> k"
    and "av_app V tr key = Some app" and "being_deleted app"
    and "runs = for_each (HelmApp_Reconcile L K H) (replicate (Suc k) key)"
  shows "result_of runs tr \<noteq> Panicked \<and> av_app V (tr @ events_of runs tr) key = None \<and>
    (\<forall>n \<in> named app. ran (uninstallComponent H n) None tr (events_of runs tr))"
proof -
  have start: "av_app V (tr @ []) key = None \<or>
      k < Suc k + failures H tr [] \<and> (\<exists>app. av_app V (tr @ []) key = Some app \<and> being_deleted app)"
    using assms(4,5) by simp
  from deletion_runs [OF assms(1-3) start, of L] obtain ys fs where
    "run_state runs tr = (Returned ys, tr @ fs)" "av_app V (tr @ fs) key = None"
    "\<forall>m \<in> named_at V tr key. ran (uninstallComponent H m) None tr fs"
    unfolding assms(6) by auto
  then show ?thesis using assms(4) by (simp add: result_of_def events_of_def named_at_def)
qed

section \<open>A concrete case\<close>

text \<open>A Helm that fails the first uninstallation it is asked for.\<close>

definition flaky_helm :: helm_api where
  "flaky_helm = sample_helm\<lparr>h_Uninstall := (\<lambda>tr n.
     if list_ex (\<lambda>e. \<exists>n. e = HelmUninstall n) tr then None else Some (HelmError ''busy''))\<rparr>"

lemma flaky_failures: "failures flaky_helm tr es \<le> (if list_ex (\<lambda>e. \<exists>n. e = HelmUninstall n) tr then 0 else 1)"
proof (induction es arbitrary: tr)
  case (Cons e es)
  have "failed_at flaky_helm tr e \<longleftrightarrow> (\<exists>n. e = HelmUninstall n) \<and> \<not> list_ex (\<lambda>e. \<exists>n. e = HelmUninstall n) tr"
    by (cases "(flaky_helm, tr, e)" rule: failed_at.cases) (auto simp: flaky_helm_def sample_helm_def)
  with Cons.IH [of "tr @ [e]"] show ?case by (auto split: if_splits)
qed simp

definition leaving_app :: HelmApp where
  "leaving_app = deleted_app\<lparr>ha_Meta := (ha_Meta deleted_app)\<lparr>om_Finalizers := [HelmAppFinalizer]\<rparr>\<rparr>"

definition leaving_server :: server where
  "leaving_server = \<lparr>sv_apps = [(''default'', ''demo'') \<mapsto> leaving_app], sv_iops = (\<lambda>_. None)\<rparr>"

lemma leaving_keyed: "well_keyed leaving_server"
  by (simp add: well_keyed_def leaving_server_def leaving_app_def deleted_app_def sample_app_def sample_meta_def key_of_def)

theorem deletion_terminates_witness:
  "sv_apps (served leaving_server (events_of (for_each (HelmApp_Reconcile sample_lib (replay_kube leaving_server) flaky_helm)
     (replicate 2 (''default'', ''demo''))) [])) (''default'', ''demo'') = None"
proof -
  have bound: "failures flaky_helm [] es \<le> 1" for es using flaky_failures [of "[]" es] by simp
  have shown: "av_app (replay_view leaving_server) [] (''default'', ''demo'') = Some leaving_app"
    by (simp add: replay_view_def leaving_server_def)
  have del: "being_deleted leaving_app"
    by (simp add: being_deleted_def leaving_app_def deleted_app_def sample_app_def sample_meta_def is_deleting_def)
  from deletion_terminates [OF replay_finalizer_laws replay_laws [OF leaving_keyed] bound shown del refl, of sample_lib]
  show ?thesis by (simp add: numeral_2_eq_2 replay_view_def del: replicate.simps for_each.simps)
qed

end
