(* ===== verification/Teardown.thy ===== *)
theory Teardown
  imports Deletion_Runs
begin

text \<open>
  The two controllers over one API server when an IstioOperator goes: \<open>IOP_Reconcile\<close> deletes the
  HelmApp and gives the IstioOperator up (internal/istio/iop.go), the runs of \<open>HelmApp_Reconcile\<close> that
  follow uninstall the releases and give the HelmApp up (internal/controller/helmapp.go).

  \<^item> \<open>teardown\<close>: one run of the first controller, then as many of the second as are asked for.
  \<^item> The IstioOperator does not wait for its HelmApp, so one of the same name can be created anew while
    the HelmApp is still going; the last section says what happens then.
\<close>

section \<open>Runs of the IstioOperator controller\<close>

definition teardown :: "lib_api \<Rightarrow> kube_api \<Rightarrow> helm_api \<Rightarrow> string \<Rightarrow> key \<Rightarrow> nat \<Rightarrow> (ctrl_result \<times> string option) list outcome act" where
  "teardown L K H dir key n = do {
     r \<leftarrow> IOP_Reconcile L K dir key;
     for_each (HelmApp_Reconcile L K H) (replicate n key)
   }"

lemma key_of_name: "key_of m = key_of m' \<Longrightarrow> om_Name m = om_Name m'"
  by (simp add: key_of_def)

text \<open>An IstioOperator that is only held by the operator goes in the first run, and its HelmApp is left
  marked.\<close>

lemma iop_delete_run:
  assumes "finalizer_laws K" and "api_laws K V" and "av_iop V tr key = Some iop" and "is_deleting (iop_Meta iop)"
    and "set (om_Finalizers (iop_Meta iop)) \<subseteq> {IOPFinalizer}"
    and "av_app V tr key = Some app" and "managed (ha_Meta app)" and "ha_Status app \<noteq> None"
    and "om_Finalizers (ha_Meta app) = [HelmAppFinalizer]"
  shows "\<exists>es b. run_state (IOP_Reconcile L K dir key) tr = (Returned (no_requeue, None), tr @ es) \<and>
    av_iop V (tr @ es) key = None \<and> av_app V (tr @ es) key = Some b \<and> being_deleted b \<and> named b = named app"
proof -
  let ?i = "without_finalizer K iop"
  let ?t = "tr @ [GetIOP key, GetHelmApp key]"
  have iop: "k_GetIOP K tr key = Inr iop" "key_of (iop_Meta iop) = key" using api_get_iop [OF assms(2,3)] by simp_all
  have t: "av_app V (tr @ [GetIOP key]) = av_app V tr" "av_app V ?t = av_app V tr" "av_iop V ?t = av_iop V tr"
    using api_quiet [OF assms(2), of "[GetIOP key]" tr] api_quiet [OF assms(2), of "[GetIOP key, GetHelmApp key]" tr] by simp_all
  then have app: "k_GetHelmApp K (tr @ [GetIOP key]) key = Inr app" "key_of (ha_Meta app) = key"
    using api_get_app(1) [OF assms(2), of "tr @ [GetIOP key]" key app] assms(6) by simp_all
  have name: "om_Name (ha_Meta app) = om_Name (iop_Meta iop)" by (rule key_of_name) (simp add: iop app)
  have here: "av_app V ?t (key_of (ha_Meta app)) = Some app" using t(2) app(2) assms(6) by simp
  obtain b where del: "k_DeleteHelmApp K ?t app = None" "app_marked app b"
      "av_app V (?t @ [DeleteHelmApp app]) =
        (av_app V ?t)(key_of (ha_Meta app) := if om_Finalizers (ha_Meta app) = [] then None else Some b)"
    by (rule api_delete [OF assms(2) here])
  have marked: "av_app V (?t @ [DeleteHelmApp app]) key = Some b" unfolding del(3) using app(2) assms(9) by simp
  have cur: "av_iop V (?t @ [DeleteHelmApp app]) (key_of (iop_Meta ?i)) = Some iop"
    using api_frame(3) [OF assms(2), of "DeleteHelmApp app" ?t] t(3) assms(3) iop(2)
    by (simp add: without_finalizer_def key_of_def)
  have "same_version (iop_Meta ?i) (iop_Meta iop)" by (simp add: without_finalizer_def same_version_def)
  then obtain i where upd: "k_UpdateIOP K (?t @ [DeleteHelmApp app]) ?i = Inr i"
      "av_iop V ((?t @ [DeleteHelmApp app]) @ [UpdateIOP ?i]) = (av_iop V (?t @ [DeleteHelmApp app]))
        (key_of (iop_Meta ?i) := unless_done (iop_Meta iop) (om_Finalizers (iop_Meta ?i)) i)"
    using api_update_iop [OF assms(2) cur] by metis
  have "set (om_Finalizers (iop_Meta ?i)) = {}"
    using assms(1,5) by (auto simp: without_finalizer_def finalizer_laws_def)
  then have "av_iop V ((?t @ [DeleteHelmApp app]) @ [UpdateIOP ?i]) key = None"
    unfolding upd(2) using assms(4) iop(2) by (simp add: unless_done_def) (simp add: without_finalizer_def key_of_def)
  moreover have "av_app V ((?t @ [DeleteHelmApp app]) @ [UpdateIOP ?i]) key = Some b"
    unfolding api_frame(2) [OF assms(2)] by (rule marked)
  moreover have "being_deleted b" "named b = named app"
    using del(2) assms(8,9) by (auto simp: app_marked_def being_deleted_def named_def)
  moreover have "run_state (IOP_Reconcile L K dir key) tr =
      (Returned (no_requeue, None), tr @ [GetIOP key, GetHelmApp key, DeleteHelmApp app, UpdateIOP ?i])"
    using iop assms(4,7) app(1) name del(1) upd(1) by (simp add: IOP_Reconcile_def IOP_reconcileDelete_def)
  ultimately show ?thesis by (auto intro!: exI [of _ "[GetIOP key, GetHelmApp key, DeleteHelmApp app, UpdateIOP ?i]"])
qed

section \<open>The whole teardown\<close>

lemma teardown_run:
  assumes "run_state (IOP_Reconcile L K dir key) tr = (Returned r, tr @ es)"
    and "finalizer_laws K" and "api_laws K V" and "\<And>es. failures H tr es \<le> k"
    and "av_app V (tr @ es) key = None \<or> (\<exists>app. av_app V (tr @ es) key = Some app \<and> being_deleted app)"
  obtains ys fs where "run_state (teardown L K H dir key (Suc k)) tr = (Returned ys, tr @ es @ fs)"
    "av_app V (tr @ es @ fs) key = None" "av_iop V (tr @ es @ fs) = av_iop V (tr @ es)"
    "\<forall>m \<in> named_at V (tr @ es) key. ran (uninstallComponent H m) None tr (es @ fs)"
proof -
  have start: "av_app V (tr @ es) key = None \<or>
      k < Suc k + failures H tr es \<and> (\<exists>app. av_app V (tr @ es) key = Some app \<and> being_deleted app)"
    using assms(5) by auto
  obtain ys fs where run: "run_state (for_each (HelmApp_Reconcile L K H) (replicate (Suc k) key)) (tr @ es) =
      (Returned ys, tr @ es @ fs)"
    and rest: "av_app V (tr @ es @ fs) key = None" "av_iop V (tr @ es @ fs) = av_iop V (tr @ es)"
      "\<forall>m \<in> named_at V (tr @ es) key. ran (uninstallComponent H m) None (tr @ es) fs"
    using deletion_runs [OF assms(2-4) start] by blast
  have "run_state (teardown L K H dir key (Suc k)) tr = (Returned ys, tr @ es @ fs)"
    unfolding teardown_def using assms(1) run by (simp del: for_each.simps replicate.simps)
  moreover have "\<forall>m \<in> named_at V (tr @ es) key. ran (uninstallComponent H m) None tr (es @ fs)"
    by (intro ballI ran_shift) (rule rest(3) [rule_format])
  ultimately show ?thesis using that rest(1,2) by blast
qed

text \<open>C8. Deleting an IstioOperator removes everything it stood for: when it and its HelmApp are held by the
  operator's own finalizers only and Helm fails at most \<open>k\<close> calls, one run of the IstioOperator
  controller and \<open>k + 1\<close> runs of the HelmApp controller leave neither object on the server, and every
  release the HelmApp's status named has been uninstalled without an error.\<close>

theorem iop_teardown:
  assumes "finalizer_laws K" and "api_laws K V" and "\<And>es. failures H tr es \<le> k"
    and "av_iop V tr key = Some iop" and "is_deleting (iop_Meta iop)"
    and "set (om_Finalizers (iop_Meta iop)) \<subseteq> {IOPFinalizer}"
    and "av_app V tr key = Some app" and "managed (ha_Meta app)" and "ha_Status app \<noteq> None"
    and "om_Finalizers (ha_Meta app) = [HelmAppFinalizer]"
    and "es = events_of (teardown L K H dir key (Suc k)) tr"
  shows "result_of (teardown L K H dir key (Suc k)) tr \<noteq> Panicked \<and>
    av_iop V (tr @ es) key = None \<and> av_app V (tr @ es) key = None \<and>
    (\<forall>n \<in> named app. ran (uninstallComponent H n) None tr es)"
proof -
  obtain fs b where iop: "run_state (IOP_Reconcile L K dir key) tr = (Returned (no_requeue, None), tr @ fs)"
    and after: "av_iop V (tr @ fs) key = None" "av_app V (tr @ fs) key = Some b" "being_deleted b" "named b = named app"
    using iop_delete_run [OF assms(1,2,4-10)] by blast
  have "named_at V (tr @ fs) key = named app" by (simp add: named_at_def after)
  then obtain ys gs where "run_state (teardown L K H dir key (Suc k)) tr = (Returned ys, tr @ fs @ gs)"
    "av_app V (tr @ fs @ gs) key = None" "av_iop V (tr @ fs @ gs) = av_iop V (tr @ fs)"
    "\<forall>n \<in> named app. ran (uninstallComponent H n) None tr (fs @ gs)"
    using teardown_run [OF iop assms(1-3)] after(2,3) by metis
  then show ?thesis using after(1) by (simp add: assms(11) result_of_def events_of_def)
qed

text \<open>A server with an IstioOperator on its way out and the HelmApp that belongs to it.\<close>

definition owned_leaving :: HelmApp where
  "owned_leaving = deleted_app\<lparr>ha_Meta := (ha_Meta deleted_app)\<lparr>om_Finalizers := [HelmAppFinalizer],
     om_Labels := Some [(ManagedLabel, ManagedLabelValue)]\<rparr>\<rparr>"

definition teardown_server :: server where
  "teardown_server = \<lparr>sv_apps = [(''default'', ''demo'') \<mapsto> owned_leaving\<lparr>ha_Meta :=
     (ha_Meta owned_leaving)\<lparr>om_DeletionTimestamp := None\<rparr>\<rparr>], sv_iops = [(''default'', ''demo'') \<mapsto> deleted_iop]\<rparr>"

lemmas leaving_defs = owned_leaving_def deleted_app_def sample_app_def sample_meta_def sample_iop_def deleted_iop_def

lemma teardown_keyed: "well_keyed teardown_server"
  by (simp add: well_keyed_def teardown_server_def leaving_defs key_of_def)

theorem iop_teardown_witness:
  "let s = served teardown_server (events_of (teardown sample_lib (replay_kube teardown_server) flaky_helm ''profiles''
      (''default'', ''demo'') 2) [])
   in sv_iops s (''default'', ''demo'') = None \<and> sv_apps s (''default'', ''demo'') = None"
proof -
  have bound: "failures flaky_helm [] es \<le> 1" for es using flaky_failures [of "[]" es] by simp
  have "av_iop (replay_view teardown_server) [] (''default'', ''demo'') = Some deleted_iop"
    by (simp add: replay_view_def teardown_server_def)
  from iop_teardown [OF replay_finalizer_laws replay_laws [OF teardown_keyed] bound this _ _ _ _ _ _ refl,
      of _ sample_lib "''profiles''"]
  show ?thesis
    by (simp add: replay_view_def teardown_server_def numeral_2_eq_2)
      (simp add: leaving_defs is_deleting_def managed_def label_of_def)
qed

section \<open>An IstioOperator created anew too early\<close>

text \<open>The conversion gives one HelmApp, however the finalizers and versions of the object stand.\<close>

definition converts_to :: "lib_api \<Rightarrow> string \<Rightarrow> IstioOperator \<Rightarrow> HelmApp \<Rightarrow> bool" where
  "converts_to L dir iop new \<longleftrightarrow> key_of (ha_Meta new) = key_of (iop_Meta iop) \<and>
     (\<forall>tr i. key_of (iop_Meta i) = key_of (iop_Meta iop) \<and> iop_Spec i = iop_Spec iop \<longrightarrow>
       result_of (convertIopToHelmApp L dir i) tr = Returned (Inr new))"

lemma converts_run:
  assumes "converts_to L dir iop new" and "key_of (iop_Meta i) = key_of (iop_Meta iop)" and "iop_Spec i = iop_Spec iop"
  obtains es where "run_state (convertIopToHelmApp L dir i) tr = (Returned (Inr new), tr @ es)"
    "list_all (\<lambda>e. \<not> kube_write e) es"
proof -
  have "list_all (\<lambda>e. \<not> kube_write e) (events_of (convertIopToHelmApp L dir i) tr)"
    by (rule events_emits [OF emits_mono [OF convert_emits]]) auto
  moreover have "result_of (convertIopToHelmApp L dir i) tr = Returned (Inr new)"
    using assms unfolding converts_to_def by blast
  ultimately show ?thesis using that run_extends [OF convert_extends, of L dir i tr] by metis
qed

text \<open>The HelmApp of a converted object is never created next to one that is there.\<close>

lemma createOrUpdate_existing:
  assumes "api_laws K V" and "av_app V tr (key_of (ha_Meta new)) = Some app"
  obtains es where "run_state (createOrUpdateHelmApp L K new) tr = (None, tr @ es)" "av_iop V (tr @ es) = av_iop V tr"
    "managed (ha_Meta app) \<and> \<not> spec_DeepEqual L (ha_Spec app) (ha_Spec new) \<Longrightarrow>
      \<exists>b. app_updated app (app\<lparr>ha_Spec := ha_Spec new\<rparr>) b \<and>
        av_app V (tr @ es) = (av_app V tr)(key_of (ha_Meta new) := unless_done (ha_Meta app) (om_Finalizers (ha_Meta app)) b)"
    "\<not> (managed (ha_Meta app) \<and> \<not> spec_DeepEqual L (ha_Spec app) (ha_Spec new)) \<Longrightarrow>
      es = [GetHelmApp (key_of (ha_Meta new))] \<and> av_app V (tr @ es) = av_app V tr"
proof -
  let ?k = "key_of (ha_Meta new)" and ?a = "app\<lparr>ha_Spec := ha_Spec new\<rparr>"
  have app: "k_GetHelmApp K tr ?k = Inr app" "key_of (ha_Meta app) = ?k" using api_get_app(1) [OF assms] by simp_all
  have t: "av_app V (tr @ [GetHelmApp ?k]) = av_app V tr" "av_iop V (tr @ [GetHelmApp ?k]) = av_iop V tr"
    using api_quiet [OF assms(1), of "[GetHelmApp ?k]" tr] by simp_all
  show ?thesis
  proof (cases "managed (ha_Meta app) \<and> \<not> spec_DeepEqual L (ha_Spec app) (ha_Spec new)")
    case True
    have cur: "av_app V (tr @ [GetHelmApp ?k]) (key_of (ha_Meta ?a)) = Some app" using t app assms(2) by simp
    have "same_version (ha_Meta ?a) (ha_Meta app)" by simp
    from api_update [OF assms(1) cur this] obtain b where
      upd: "k_UpdateHelmApp K (tr @ [GetHelmApp ?k]) ?a = Inr b" "app_updated app ?a b"
        "av_app V ((tr @ [GetHelmApp ?k]) @ [UpdateHelmApp ?a]) = (av_app V (tr @ [GetHelmApp ?k]))
          (key_of (ha_Meta ?a) := unless_done (ha_Meta app) (om_Finalizers (ha_Meta ?a)) b)" by metis
    have "av_iop V ((tr @ [GetHelmApp ?k]) @ [UpdateHelmApp ?a]) = av_iop V tr"
      using api_frame(3) [OF assms(1), of "UpdateHelmApp ?a" "tr @ [GetHelmApp ?k]"] t(2) by simp
    then show ?thesis
      using that [of "[GetHelmApp ?k, UpdateHelmApp ?a]"] upd app t(1) True
      by (auto simp: createOrUpdateHelmApp_def Let_def)
  next
    case False
    then show ?thesis
      using that [of "[GetHelmApp ?k]"] app t by (auto simp: createOrUpdateHelmApp_def)
  qed
qed

text \<open>A run on an IstioOperator that stays comes to the conversion with the finalizer in place.\<close>

lemma iop_prepared:
  assumes "finalizer_laws K" and "api_laws K V" and "av_iop V tr key = Some iop" and "\<not> is_deleting (iop_Meta iop)"
  obtains pre iop' where "run_state (IOP_Reconcile L K dir key) tr = run_state (IOP_apply L K dir iop') (tr @ pre)"
    "av_app V (tr @ pre) = av_app V tr" "av_iop V (tr @ pre) = (av_iop V tr)(key \<mapsto> iop')"
    "iop_Spec iop' = iop_Spec iop" "key_of (iop_Meta iop') = key" "\<not> is_deleting (iop_Meta iop')"
    "IOPFinalizer \<in> set (om_Finalizers (iop_Meta iop'))"
    "IOPFinalizer \<in> set (om_Finalizers (iop_Meta iop)) \<Longrightarrow> iop' = iop \<and> pre = [GetIOP key]"
    "\<exists>i. pre = [GetIOP key] \<or> pre = [GetIOP key, UpdateIOP i]"
proof -
  have iop: "k_GetIOP K tr key = Inr iop" "key_of (iop_Meta iop) = key" using api_get_iop [OF assms(2,3)] by simp_all
  have t: "av_app V (tr @ [GetIOP key]) = av_app V tr" "av_iop V (tr @ [GetIOP key]) = av_iop V tr"
    using api_quiet [OF assms(2), of "[GetIOP key]" tr] by simp_all
  let ?i = "iop\<lparr>iop_Meta := (iop_Meta iop)\<lparr>om_Finalizers := k_AddFinalizer K (om_Finalizers (iop_Meta iop)) IOPFinalizer\<rparr>\<rparr>"
  show ?thesis
  proof (cases "IOPFinalizer \<in> set (om_Finalizers (iop_Meta iop))")
    case True
    then have "IOP_ensure_finalizer K iop = State_Monad.return (Inr iop)"
      using assms(1) by (simp add: IOP_ensure_finalizer_def finalizer_laws_def)
    then show ?thesis
      using that [of iop "[GetIOP key]"] iop t assms(3,4) True by (simp add: IOP_Reconcile_def fun_upd_idem)
  next
    case False
    have ens: "IOP_ensure_finalizer K iop = call (UpdateIOP ?i) (\<lambda>tr. k_UpdateIOP K tr ?i)"
      using assms(1) False by (simp add: IOP_ensure_finalizer_def finalizer_laws_def Let_def)
    have cur: "av_iop V (tr @ [GetIOP key]) (key_of (iop_Meta ?i)) = Some iop"
      using t iop(2) assms(3) by (simp add: key_of_def)
    have "same_version (iop_Meta ?i) (iop_Meta iop)" by (simp add: same_version_def)
    from api_update_iop [OF assms(2) cur this] obtain i' where
      upd: "k_UpdateIOP K (tr @ [GetIOP key]) ?i = Inr i'" "iop_updated iop ?i i'"
        "av_iop V ((tr @ [GetIOP key]) @ [UpdateIOP ?i]) = (av_iop V (tr @ [GetIOP key]))
          (key_of (iop_Meta ?i) := unless_done (iop_Meta iop) (om_Finalizers (iop_Meta ?i)) i')" by metis
    have now: "av_iop V (tr @ [GetIOP key, UpdateIOP ?i]) = (av_iop V tr)(key \<mapsto> i')"
      using upd(3) iop(2) assms(4) t(2) by (simp add: unless_done_def key_of_def)
    have app: "av_app V (tr @ [GetIOP key, UpdateIOP ?i]) = av_app V tr"
      using api_frame(2) [OF assms(2), of "tr @ [GetIOP key]" ?i] t(1) by simp
    have "IOPFinalizer \<in> set (om_Finalizers (iop_Meta i'))"
      using upd(2) assms(1) by (simp add: iop_updated_def meta_updated_def finalizer_laws_def)
    moreover have "iop_Spec i' = iop_Spec iop" "key_of (iop_Meta i') = key" "\<not> is_deleting (iop_Meta i')"
      using upd(2) iop(2) assms(4) by (simp_all add: iop_updated_def meta_updated_def is_deleting_def)
    moreover have "run_state (IOP_Reconcile L K dir key) tr = run_state (IOP_apply L K dir i') (tr @ [GetIOP key, UpdateIOP ?i])"
      using iop(1) assms(4) upd(1) by (simp add: IOP_Reconcile_def ens)
    ultimately show ?thesis using that [OF _ app now] False by simp
  qed
qed

lemma IOP_apply_converted:
  assumes "converts_to L dir iop new" and "key_of (iop_Meta i) = key_of (iop_Meta iop)" and "iop_Spec i = iop_Spec iop"
  obtains es where "list_all (\<lambda>e. \<exists>p. e = ReadFile p) es"
    "run_state (IOP_apply L K dir i) tr = (let (err, t) = run_state (createOrUpdateHelmApp L K new) (tr @ es)
       in (Returned (no_requeue, err), t))"
proof -
  have "list_all (\<lambda>e. \<exists>p. e = ReadFile p) (events_of (convertIopToHelmApp L dir i) tr)"
    by (rule events_emits [OF convert_emits])
  moreover have "result_of (convertIopToHelmApp L dir i) tr = Returned (Inr new)"
    using assms unfolding converts_to_def by blast
  then have "run_state (convertIopToHelmApp L dir i) tr =
      (Returned (Inr new), tr @ events_of (convertIopToHelmApp L dir i) tr)"
    using run_extends [OF convert_extends, of L dir i tr] by simp
  ultimately show ?thesis using that by (simp add: IOP_apply_def split: prod.splits)
qed

text \<open>A HelmApp that is going goes on going when it is taken for the object's own.\<close>

lemma createOrUpdate_going:
  assumes "api_laws K V" and "av_app V tr (key_of (ha_Meta new)) = Some app" and "being_deleted app"
  obtains es where "run_state (createOrUpdateHelmApp L K new) tr = (None, tr @ es)" "av_iop V (tr @ es) = av_iop V tr"
    "av_app V (tr @ es) (key_of (ha_Meta new)) = None \<or>
      (\<exists>b. av_app V (tr @ es) (key_of (ha_Meta new)) = Some b \<and> being_deleted b)"
proof (rule createOrUpdate_existing [OF assms(1,2), of L], goal_cases)
  case (1 es)
  let ?k = "key_of (ha_Meta new)"
  have "av_app V (tr @ es) ?k = None \<or> (\<exists>b. av_app V (tr @ es) ?k = Some b \<and> being_deleted b)"
  proof (cases "managed (ha_Meta app) \<and> \<not> spec_DeepEqual L (ha_Spec app) (ha_Spec new)")
    case True
    from 1(4) [OF True] obtain b where b: "app_updated app (app\<lparr>ha_Spec := ha_Spec new\<rparr>) b"
      "av_app V (tr @ es) = (av_app V tr)(?k := unless_done (ha_Meta app) (om_Finalizers (ha_Meta app)) b)" by blast
    have "being_deleted b"
      using b(1) assms(3) by (simp add: app_updated_def meta_updated_def being_deleted_def is_deleting_def)
    with b(2) show ?thesis by (simp add: unless_done_def)
  next
    case False
    with 1(5) assms(2,3) show ?thesis by auto
  qed
  then show ?case using 1 by blast
qed


definition recreated_iop :: IstioOperator where
  "recreated_iop = sample_iop\<lparr>iop_Meta := sample_meta\<lparr>om_Finalizers := [IOPFinalizer]\<rparr>\<rparr>"

lemma sample_converts: "converts_to sample_lib ''profiles'' recreated_iop (converted_app sample_iop sample_converted)"
  unfolding converts_to_def
proof (intro conjI allI impI)
  fix tr :: trace and i :: IstioOperator
  assume i: "key_of (iop_Meta i) = key_of (iop_Meta recreated_iop) \<and> iop_Spec i = iop_Spec recreated_iop"
  then have spec: "iop_Spec i = Some sample_iop_spec"
    and names: "om_Name (iop_Meta i) = ''demo''" "om_Namespace (iop_Meta i) = ''default''"
    by (simp_all add: recreated_iop_def sample_iop_def sample_meta_def key_of_def)
  have "converted_app i cs = converted_app sample_iop cs" for cs
    by (simp add: converted_app_def spec names) (simp add: sample_iop_def sample_meta_def)
  then show "result_of (convertIopToHelmApp sample_lib ''profiles'' i) tr =
      Returned (Inr (converted_app sample_iop sample_converted))"
    by (simp add: result_of_def sample_convert_any [OF spec names(1)])
qed (simp add: converted_app_def recreated_iop_def sample_iop_def key_of_def)

definition recreated_server :: server where
  "recreated_server = \<lparr>sv_apps = [(''default'', ''demo'') \<mapsto> owned_leaving],
     sv_iops = [(''default'', ''demo'') \<mapsto> recreated_iop]\<rparr>"

lemma recreated_keyed: "well_keyed recreated_server"
  by (simp add: well_keyed_def recreated_server_def recreated_iop_def leaving_defs key_of_def)


end
