(* ===== verification/Whole_Releases.thy ===== *)
theory Whole_Releases
  imports HelmApp_Spec
begin

text \<open>
  Where \<open>reconcileComponent\<close> dereferences what Helm returned (\<open>rel.Chart.Metadata.Version\<close> in
  \<open>hasConfigChanged\<close>, \<open>rel.Info.Status\<close>): with releases that have those parts, the handler of
  internal/controller/helmapp.go does not panic on a HelmApp with a spec and a repository.
\<close>

text \<open>
  What the Helm client promises of the releases it returns: each has the chart metadata and the info
  that \<open>hasConfigChanged\<close> and \<open>reconcileComponent\<close> read without a check.
\<close>

definition whole_release :: "release \<Rightarrow> bool" where
  "whole_release r \<longleftrightarrow> rel_ChartVersion r \<noteq> None \<and> rel_Status r \<noteq> None"

definition whole_releases :: "helm_api \<Rightarrow> bool" where
  "whole_releases H \<longleftrightarrow>
     (\<forall>tr n rels. h_History H tr n = Inr rels \<longrightarrow> list_all whole_release rels) \<and>
     (\<forall>tr a c v r. fst (h_Install H tr a c v) = Some r \<longrightarrow> whole_release r) \<and>
     (\<forall>tr a n c v r. fst (h_Upgrade H tr a n c v) = Some r \<longrightarrow> whole_release r)"

lemma whole_known: "whole_release r \<Longrightarrow> \<exists>b. hasConfigChanged r vs v = Returned b"
  by (auto simp: whole_release_def hasConfigChanged_def)

lemma whole_last: "list_all whole_release (r # rs) \<Longrightarrow> whole_release (last (r # rs))"
  using last_in_set [of "r # rs"] unfolding list_all_iff by blast

lemma apply_release_whole:
  assumes "whole_releases H"
  shows "\<exists>rel errs. result_of (apply_release H app c repo chart vs) tr = Returned (rel, errs) \<and>
    (\<forall>r. rel = Some r \<longrightarrow> whole_release r)"
proof -
  have ins: "whole_release r" if "h_Install H t a ch v = (Some r, e)" for t a ch v r e
    using assms that unfolding whole_releases_def by (metis fst_conv)
  have upg: "whole_release r" if "h_Upgrade H t a n ch v = (Some r, e)" for t a n ch v r e
    using assms that unfolding whole_releases_def by (metis fst_conv)
  have hist: "list_all whole_release rels" if "h_History H tr (hc_Name c) = Inr rels" for rels
    using assms that unfolding whole_releases_def by blast
  show ?thesis
  proof (cases "h_History H tr (hc_Name c)")
    case (Inl e)
    then show ?thesis
      by (cases e) (auto simp: result_of_def apply_release_run Let_def split: prod.splits dest: ins)
  next
    case (Inr rels)
    show ?thesis
    proof (cases rels)
      case Nil
      with Inr show ?thesis
        by (auto simp: result_of_def apply_release_run Let_def split: prod.splits dest: upg)
    next
      case (Cons r rs)
      obtain b where "hasConfigChanged (last (r # rs)) vs (hc_Version c) = Returned b"
        using whole_known [OF whole_last] hist Inr Cons by blast
      with Inr Cons hist [OF Inr] show ?thesis
        by (cases b) (auto simp: result_of_def apply_release_run Let_def split: prod.splits dest: upg)
    qed
  qed
qed

lemma reconcileComponent_whole:
  assumes "whole_releases H" and "ha_Spec app = Some spec" and "spec_Repo spec = Some repo"
  shows "\<exists>r. result_of (reconcileComponent L H app c) tr = Returned r"
proof -
  obtain x t where x: "chart_lookup H (action_for app c repo (hc_Name c)) (hc_Chart c) tr = (x, t)" by fastforce
  show ?thesis
  proof (cases x)
    case (Inl e)
    with x show ?thesis by (simp add: result_of_def reconcileComponent_run [OF assms(2,3)])
  next
    case (Inr chart)
    obtain rel errs t' where a: "run_state (apply_release H app c repo chart (component_values L spec c)) t =
        (Returned (rel, errs), t')" and w: "\<forall>r. rel = Some r \<longrightarrow> whole_release r"
      using apply_release_whole [OF assms(1), of app c repo chart "component_values L spec c" t]
      by (auto simp: result_of_def) (metis prod.collapse)
    have "\<exists>y t''. run_state (release_report H rel) t' = (Returned y, t'')"
      using w by (auto simp: release_report_run whole_release_def split: option.splits sum.splits)
    with x Inr a show ?thesis
      by (auto simp: result_of_def reconcileComponent_run [OF assms(2,3)])
  qed
qed

lemma component_statuses_whole:
  assumes "whole_releases H" and "ha_Spec app = Some spec" and "spec_Repo spec = Some repo"
  shows "\<exists>ss. result_of (component_statuses L H app spec) tr = Returned ss"
proof -
  obtain rs where "result_of (for_each (reconcileComponent L H app) (slice (spec_Components spec))) tr = Returned rs"
    using reconcile_component.loop_total [of "slice (spec_Components spec)" L H app "\<lambda>_ _. True" tr]
      reconcileComponent_whole [OF assms] by blast
  then show ?thesis
    by (cases "ha_Status app") (auto simp: component_statuses_def result_bind)
qed

lemma HelmApp_apply_whole:
  assumes "whole_releases H" and "ha_Spec app = Some spec" and "spec_Repo spec = Some repo"
  shows "result_of (HelmApp_apply L K H app) tr \<noteq> Panicked"
proof (cases rule: init_helm_cases [of H "om_Namespace (ha_Meta app)" tr])
  case (failed m t es)
  then show ?thesis by (simp add: result_of_def apply_init_error)
next
  case ok
  obtain ss where "result_of (component_statuses L H app spec)
      (tr @ [NewRegistryClient, HelmInit (om_Namespace (ha_Meta app))]) = Returned ss"
    using component_statuses_whole [OF assms] by blast
  then show ?thesis
    by (simp add: result_of_def apply_run [OF ok assms(2)] Let_def split: sum.splits)
qed

end
