(* ===== verification/Settling.thy ===== *)
theory Settling
  imports Whole_Releases
begin

text \<open>
  Runs of the HelmApp controller one after the other (internal/controller/helmapp.go), against a Helm
  that stores what it is given.

  \<^item> \<open>helm_store\<close> is what the theorems see of Helm's storage: the releases it holds for a name in a
    namespace after a trace, the version of a loaded chart, and the configuration a release is read
    back with. \<open>helm_store_laws\<close> states the documented behaviour that the code relies on.
  \<^item> Releases are kept in the namespace of the last \<open>HelmInit\<close>.
\<close>

section \<open>Helm's storage\<close>

fun init_of :: "event \<Rightarrow> string \<Rightarrow> string" where
  "init_of (HelmInit ns) _ = ns"
| "init_of _ ns = ns"

definition current_ns :: "trace \<Rightarrow> string" where
  "current_ns tr = fold init_of tr []"

record helm_store =
  hs_history :: "trace \<Rightarrow> string \<Rightarrow> string \<Rightarrow> release list"
  hs_chart_version :: "string \<Rightarrow> string"
  hs_encode :: "gomap \<Rightarrow> gomap"

text \<open>What the last entry of a history says after a release was written with given chart and values.\<close>

definition stored_as :: "helm_store \<Rightarrow> string \<Rightarrow> gomap \<Rightarrow> release list \<Rightarrow> bool" where
  "stored_as S chart values rels \<longleftrightarrow> rels \<noteq> [] \<and>
     rel_ChartVersion (last rels) = Some (hs_chart_version S chart) \<and>
     (gentries values \<noteq> [] \<longrightarrow> rel_Config (last rels) = hs_encode S values)"

definition helm_store_laws :: "helm_api \<Rightarrow> helm_store \<Rightarrow> bool" where
  "helm_store_laws H S \<longleftrightarrow>
     (\<forall>tr n. hs_history S tr (current_ns tr) n = [] \<longrightarrow> (\<exists>m. h_History H tr n = Inl (ReleaseNotFound m))) \<and>
     (\<forall>tr n. hs_history S tr (current_ns tr) n \<noteq> [] \<longrightarrow> (\<exists>rels. h_History H tr n = Inr rels \<and>
        rels \<noteq> [] \<and> last rels = last (hs_history S tr (current_ns tr) n))) \<and>
     (\<forall>tr e ns n. \<not> helm_write e \<or> release_of e \<noteq> Some n \<longrightarrow> hs_history S (tr @ [e]) ns n = hs_history S tr ns n) \<and>
     (\<forall>tr a c v r. h_Install H tr a c v = (Some r, None) \<longrightarrow>
        stored_as S c v (hs_history S (tr @ [HelmInstall a c v]) (current_ns tr) (ca_ReleaseName a))) \<and>
     (\<forall>tr a n c v r. h_Upgrade H tr a n c v = (Some r, None) \<longrightarrow>
        stored_as S c v (hs_history S (tr @ [HelmUpgrade a n c v]) (current_ns tr) n)) \<and>
     (\<forall>v. wf_gomap v \<and> plain_gomap v \<and> gentries v \<noteq> [] \<longrightarrow> gomap_deep_equal (hs_encode S v) v)"

text \<open>The Helm client starts and finds the charts; what it makes of them is left open.\<close>

definition helm_finds :: "helm_api \<Rightarrow> bool" where
  "helm_finds H \<longleftrightarrow> (\<forall>tr. h_NewRegistryClient H tr = None) \<and> (\<forall>tr ns. h_Init H tr ns = None) \<and>
     (\<forall>tr a c. \<exists>p. h_LocateChart H tr a c = Inr p) \<and> (\<forall>tr p. \<exists>c. h_Load H tr p = Inr c)"

text \<open>Helm does what it is asked to.\<close>

definition helm_works :: "helm_api \<Rightarrow> bool" where
  "helm_works H \<longleftrightarrow> helm_finds H \<and> (\<forall>tr a c v. \<exists>r. h_Install H tr a c v = (Some r, None)) \<and>
     (\<forall>tr a n c v. \<exists>r. h_Upgrade H tr a n c v = (Some r, None))"

lemma works_finds: "helm_works H \<Longrightarrow> helm_finds H"
  by (simp add: helm_works_def)

lemma store_no_history:
  "helm_store_laws H S \<Longrightarrow> hs_history S tr (current_ns tr) n = [] \<Longrightarrow> \<exists>m. h_History H tr n = Inl (ReleaseNotFound m)"
  unfolding helm_store_laws_def by (elim conjE) blast

lemma store_history:
  "helm_store_laws H S \<Longrightarrow> hs_history S tr (current_ns tr) n \<noteq> [] \<Longrightarrow>
   \<exists>rels. h_History H tr n = Inr rels \<and> rels \<noteq> [] \<and> last rels = last (hs_history S tr (current_ns tr) n)"
  unfolding helm_store_laws_def by (elim conjE) blast

lemma store_install:
  "helm_store_laws H S \<Longrightarrow> h_Install H tr a c v = (Some r, None) \<Longrightarrow>
   stored_as S c v (hs_history S (tr @ [HelmInstall a c v]) (current_ns tr) (ca_ReleaseName a))"
  unfolding helm_store_laws_def by (elim conjE) blast

lemma store_upgrade:
  "helm_store_laws H S \<Longrightarrow> h_Upgrade H tr a n c v = (Some r, None) \<Longrightarrow>
   stored_as S c v (hs_history S (tr @ [HelmUpgrade a n c v]) (current_ns tr) n)"
  unfolding helm_store_laws_def by (elim conjE) blast

lemma current_ns_snoc [simp]: "current_ns (tr @ [e]) = init_of e (current_ns tr)"
  by (simp add: current_ns_def)

lemma init_of_other: "\<forall>ns. e \<noteq> HelmInit ns \<Longrightarrow> init_of e n = n"
  by (cases e) auto

lemma current_ns_append:
  "list_all (\<lambda>e. \<forall>ns. e \<noteq> HelmInit ns) es \<Longrightarrow> current_ns (tr @ es) = current_ns tr"
proof (induction es rule: rev_induct)
  case (snoc e es)
  then have "current_ns ((tr @ es) @ [e]) = current_ns tr"
    by (simp add: init_of_other del: append_assoc)
  then show ?case by simp
qed simp

lemma history_frame:
  assumes "helm_store_laws H S" and "list_all (\<lambda>e. \<not> helm_write e \<or> release_of e \<noteq> Some n) es"
  shows "hs_history S (tr @ es) ns n = hs_history S tr ns n"
  using assms(2)
proof (induction es rule: rev_induct)
  case (snoc e es)
  then have "hs_history S ((tr @ es) @ [e]) ns n = hs_history S (tr @ es) ns n"
    using assms(1) unfolding helm_store_laws_def by (simp del: append_assoc)
  with snoc show ?case by simp
qed simp

lemma reconcileComponent_no_init:
  "emits (\<lambda>e. \<forall>ns. e \<noteq> HelmInit ns) (reconcileComponent L H app c)"
  by (auto simp: component_defs intro!: emits_intros)

section \<open>One component settles\<close>

text \<open>The release of a component is as wanted: its newest entry counts as unchanged.\<close>

definition settled :: "lib_api \<Rightarrow> helm_store \<Rightarrow> HelmAppSpec \<Rightarrow> string \<Rightarrow> HelmComponent \<Rightarrow> trace \<Rightarrow> bool" where
  "settled L S spec ns c tr \<longleftrightarrow> hs_history S tr ns (hc_Name c) \<noteq> [] \<and>
     hasConfigChanged (last (hs_history S tr ns (hc_Name c))) (component_values L spec c) (hc_Version c) = Returned False"

text \<open>The version of the component is exact (the chart found for it has it), and it has values.\<close>

definition pinned :: "lib_api \<Rightarrow> helm_api \<Rightarrow> helm_store \<Rightarrow> HelmApp \<Rightarrow> HelmAppSpec \<Rightarrow> HelmRepo \<Rightarrow> HelmComponent \<Rightarrow> bool" where
  "pinned L H S app spec repo c \<longleftrightarrow>
     (\<forall>tr t chart. chart_lookup H (action_for app c repo (hc_Name c)) (hc_Chart c) tr = (Inr chart, t) \<longrightarrow>
        hs_chart_version S chart = hc_Version c) \<and>
     gentries (component_values L spec c) \<noteq> [] \<and> wf_gomap (component_values L spec c) \<and>
     plain_gomap (component_values L spec c)"

lemma settled_frame:
  assumes "helm_store_laws H S" and "settled L S spec ns c tr"
    and "list_all (\<lambda>e. \<not> helm_write e \<or> release_of e \<noteq> Some (hc_Name c)) es"
  shows "settled L S spec ns c (tr @ es)"
  using assms by (simp add: settled_def history_frame)

lemma settled_quiet:
  assumes "helm_store_laws H S" and "settled L S spec ns c tr" and "list_all (\<lambda>e. \<not> helm_write e) es"
  shows "settled L S spec ns c (tr @ es)"
  by (rule settled_frame [OF assms(1,2)], rule list.pred_mono_strong [OF assms(3)]) simp

lemma chart_found:
  assumes "helm_finds H"
  obtains p chart where "chart_lookup H a ref tr = (Inr chart, tr @ [LocateChart a ref, LoadChart p])"
proof -
  obtain p where p: "h_LocateChart H tr a ref = Inr p" using assms unfolding helm_finds_def by blast
  obtain chart where "h_Load H (tr @ [LocateChart a ref]) p = Inr chart" using assms unfolding helm_finds_def by blast
  with p that show ?thesis by (simp add: chart_lookup_def)
qed

lemma component_events:
  assumes "ha_Spec app = Some spec" and "spec_Repo spec = Some repo"
    and "chart_lookup H (action_for app c repo (hc_Name c)) (hc_Chart c) tr = (Inr chart, t)"
  obtains rest where "tr @ events_of (reconcileComponent L H app c) tr =
      (t @ HelmHistory (hc_Name c) # chosen_write app c repo chart (component_values L spec c) (h_History H t (hc_Name c))) @ rest"
    "list_all (\<lambda>e. \<not> helm_write e) rest"
proof -
  let ?vs = "component_values L spec c"
  obtain x t1 where a: "run_state (apply_release H app c repo chart ?vs) t = (x, t1)" by fastforce
  have t1: "t1 = t @ HelmHistory (hc_Name c) # chosen_write app c repo chart ?vs (h_History H t (hc_Name c))"
    using apply_release_trace [of H app c repo chart ?vs t] a by simp
  have report: "\<exists>es. snd (run_state (release_report H rel) t1) = t1 @ es \<and> list_all (\<lambda>e. \<not> helm_write e) es" for rel
    using release_report_trace [of H rel t1] by (auto simp: filter_empty_conv list_all_iff)
  have "\<exists>rest. snd (run_state (reconcileComponent L H app c) tr) = t1 @ rest \<and> list_all (\<lambda>e. \<not> helm_write e) rest"
  proof (cases x)
    case Panicked
    then show ?thesis by (simp add: reconcileComponent_run [OF assms(1,2)] assms(3) a)
  next
    case (Returned y)
    obtain rel errs where "y = (rel, errs)" by fastforce
    with Returned report [of rel] show ?thesis
      by (auto simp: reconcileComponent_run [OF assms(1,2)] assms(3) a split: prod.splits outcome.splits)
  qed
  moreover have "snd (run_state (reconcileComponent L H app c) tr) = tr @ events_of (reconcileComponent L H app c) tr"
    using run_extends [OF reconcile_component.op_extends] by simp
  ultimately show ?thesis using that t1 by metis
qed

lemma stored_settled:
  assumes "helm_store_laws H S" and "pinned L H S app spec repo c" and "hs_chart_version S chart = hc_Version c"
    and "stored_as S chart (component_values L spec c) (hs_history S tr ns (hc_Name c))"
  shows "settled L S spec ns c tr"
  using assms by (auto simp: settled_def stored_as_def pinned_def hasConfigChanged_def helm_store_laws_def)

lemma write_settles:
  assumes "helm_store_laws H S" and "helm_works H" and "pinned L H S app spec repo c"
    and "hs_chart_version S chart = hc_Version c"
    and "w = HelmInstall (action_for app c repo (hc_Name c)) chart (component_values L spec c) \<or>
      w = HelmUpgrade (action_for app c repo []) (hc_Name c) chart (component_values L spec c)"
  shows "settled L S spec (current_ns tr) c (tr @ [w])"
proof -
  let ?n = "hc_Name c" and ?vs = "component_values L spec c"
  obtain r where "h_Install H tr (action_for app c repo ?n) chart ?vs = (Some r, None)"
    using assms(2) unfolding helm_works_def by blast
  note ins = store_install [OF assms(1) this]
  obtain r' where "h_Upgrade H tr (action_for app c repo []) ?n chart ?vs = (Some r', None)"
    using assms(2) unfolding helm_works_def by blast
  note upg = store_upgrade [OF assms(1) this]
  have "stored_as S chart ?vs (hs_history S (tr @ [w]) (current_ns tr) ?n)"
    using assms(5) ins upg by (auto simp: action_for_def)
  then show ?thesis by (rule stored_settled [OF assms(1,3,4)])
qed

text \<open>The switch on the history leaves the release settled, whichever branch it takes.\<close>

lemma choice_settles:
  assumes "helm_store_laws H S" and "helm_works H" and "whole_releases H"
    and "pinned L H S app spec repo c" and "hs_chart_version S chart = hc_Version c"
  shows "settled L S spec (current_ns t) c (t @ HelmHistory (hc_Name c) #
    chosen_write app c repo chart (component_values L spec c) (h_History H t (hc_Name c)))"
proof -
  let ?n = "hc_Name c" and ?vs = "component_values L spec c"
  let ?chosen = "chosen_write app c repo chart ?vs (h_History H t ?n)"
  define t1 where "t1 = t @ [HelmHistory ?n]"
  have ns: "current_ns t1 = current_ns t" by (simp add: t1_def)
  have hist: "hs_history S t1 ns ?n = hs_history S t ns ?n" for ns
    unfolding t1_def by (rule history_frame [OF assms(1)]) simp
  note written = write_settles [OF assms(1,2,4,5), of _ t1, unfolded ns]
  have "settled L S spec (current_ns t) c (t1 @ ?chosen)"
  proof (cases "hs_history S t (current_ns t) ?n = []")
    case True
    show ?thesis using store_no_history [OF assms(1) True] written by (auto simp: chosen_write_def)
  next
    case False
    from store_history [OF assms(1) this] obtain r rs where
      h: "h_History H t ?n = Inr (r # rs)" "last (r # rs) = last (hs_history S t (current_ns t) ?n)"
      by (metis list.exhaust)
    have "list_all whole_release (r # rs)" using assms(3) h(1) unfolding whole_releases_def by blast
    then obtain b where b: "hasConfigChanged (last (r # rs)) ?vs (hc_Version c) = Returned b"
      using whole_known [OF whole_last] by blast
    have "?chosen = (if b then [HelmUpgrade (action_for app c repo []) ?n chart ?vs] else [])"
      using h(1) b by (simp add: chosen_write_def)
    moreover have "settled L S spec (current_ns t) c t1" if "\<not> b"
      using that b h(2) False by (simp add: settled_def hist)
    ultimately show ?thesis using written by simp
  qed
  then show ?thesis by (simp add: t1_def)
qed

lemma component_settles:
  assumes "helm_store_laws H S" and "helm_works H" and "whole_releases H"
    and "ha_Spec app = Some spec" and "spec_Repo spec = Some repo" and "pinned L H S app spec repo c"
  shows "settled L S spec (current_ns tr) c (tr @ events_of (reconcileComponent L H app c) tr)"
proof -
  let ?a = "action_for app c repo (hc_Name c)"
  obtain p chart where look: "chart_lookup H ?a (hc_Chart c) tr = (Inr chart, tr @ [LocateChart ?a (hc_Chart c), LoadChart p])"
    using chart_found [OF works_finds [OF assms(2)]] by blast
  define t where "t = tr @ [LocateChart ?a (hc_Chart c), LoadChart p]"
  have "current_ns t = current_ns tr" unfolding t_def by (simp add: current_ns_append)
  moreover have "hs_chart_version S chart = hc_Version c" using assms(6) look unfolding pinned_def by blast
  ultimately have s: "settled L S spec (current_ns tr) c (t @ HelmHistory (hc_Name c) #
      chosen_write app c repo chart (component_values L spec c) (h_History H t (hc_Name c)))"
    using choice_settles [OF assms(1-3,6), of chart t] by simp
  obtain rest where ev: "tr @ events_of (reconcileComponent L H app c) tr = (t @ HelmHistory (hc_Name c) #
      chosen_write app c repo chart (component_values L spec c) (h_History H t (hc_Name c))) @ rest"
    and rest: "list_all (\<lambda>e. \<not> helm_write e) rest"
    using component_events [OF assms(4,5) look [folded t_def]] by metis
  show ?thesis unfolding ev by (rule settled_quiet [OF assms(1) s rest])
qed

lemma component_quiet:
  assumes "helm_store_laws H S" and "ha_Spec app = Some spec" and "spec_Repo spec = Some repo"
    and "settled L S spec (current_ns tr) c tr"
  shows "helm_writes (events_of (reconcileComponent L H app c) tr) = []"
proof (cases "chart_lookup H (action_for app c repo (hc_Name c)) (hc_Chart c) tr")
  case (Pair x t)
  show ?thesis
  proof (cases x)
    case (Inl e)
    then show ?thesis using Pair by (simp add: component_writes_eq [OF assms(2,3)])
  next
    case (Inr chart)
    obtain p where t: "t = tr @ [LocateChart (action_for app c repo (hc_Name c)) (hc_Chart c), LoadChart p]"
      using Pair Inr by (auto simp: chart_lookup_def Let_def split: sum.splits)
    have "settled L S spec (current_ns tr) c t"
      unfolding t by (rule settled_frame [OF assms(1,4)]) simp
    moreover have "current_ns t = current_ns tr" unfolding t by (simp add: current_ns_append)
    ultimately have s: "hs_history S t (current_ns t) (hc_Name c) \<noteq> []"
      "hasConfigChanged (last (hs_history S t (current_ns t) (hc_Name c))) (component_values L spec c) (hc_Version c) = Returned False"
      by (simp_all add: settled_def)
    from store_history [OF assms(1) s(1)] s(2) show ?thesis
      using Pair Inr by (auto simp: component_writes_eq [OF assms(2,3)] chosen_write_def Let_def split: list.splits)
  qed
qed

section \<open>A HelmApp settles in one run\<close>

lemma finds_init: "helm_finds H \<Longrightarrow> run_state (init_helm H ns) tr = (None, tr @ [NewRegistryClient, HelmInit ns])"
  by (simp add: init_helm_run helm_finds_def)

lemmas init_works = finds_init [OF works_finds]

text \<open>What a run does: the components in order, then the orphans of the status, then the status.\<close>

lemma apply_trace:
  assumes "run_state (init_helm H ns) tr = (None, tr @ [NewRegistryClient, HelmInit ns])" and "whole_releases H"
    and "ha_Spec app = Some spec" and "spec_Repo spec = Some repo" and "om_Namespace (ha_Meta app) = ns"
  obtains orphans rs failed where "events_of (HelmApp_apply L K H app) tr = [NewRegistryClient, HelmInit ns] @
    events_of (for_each (reconcileComponent L H app) (slice (spec_Components spec))) (tr @ [NewRegistryClient, HelmInit ns]) @
    orphans @ [UpdateHelmAppStatus (reported_app app (map fst rs @ failed))]"
    "list_all (\<lambda>e. \<exists>n. orphan_of app spec n \<and> uninstall_event n e) orphans"
    "result_of (component_statuses L H app spec) (tr @ [NewRegistryClient, HelmInit ns]) = Returned (map fst rs @ failed)"
    "result_of (for_each (reconcileComponent L H app) (slice (spec_Components spec)))
      (tr @ [NewRegistryClient, HelmInit ns]) = Returned rs"
proof -
  let ?t = "tr @ [NewRegistryClient, HelmInit ns]" and ?cs = "slice (spec_Components spec)"
  have init: "run_state (init_helm H (om_Namespace (ha_Meta app))) tr = (None, ?t)" using assms(1,5) by simp
  obtain rs where rs: "result_of (for_each (reconcileComponent L H app) ?cs) ?t = Returned rs"
    using reconcile_component.loop_total [of ?cs L H app "\<lambda>_ _. True" ?t] reconcileComponent_whole [OF assms(2-4)] by blast
  let ?u = "?t @ events_of (for_each (reconcileComponent L H app) ?cs) ?t"
  let ?orphans = "case ha_Status app of None \<Rightarrow> []
    | Some st \<Rightarrow> events_of (orphan_loop H (desired_components ?cs) (st_Components st) (map fst rs)) ?u"
  have "\<exists>failed. result_of (component_statuses L H app spec) ?t = Returned (map fst rs @ failed)"
  proof (cases "ha_Status app")
    case (Some st)
    obtain failed where "result_of (orphan_loop H (desired_components ?cs) (st_Components st) (map fst rs)) ?u = map fst rs @ failed"
      using orphan_loop_result by blast
    with Some rs show ?thesis by (auto simp: component_statuses_def result_bind)
  qed (use rs in \<open>auto simp: component_statuses_def result_bind\<close>)
  then obtain failed where ss: "result_of (component_statuses L H app spec) ?t = Returned (map fst rs @ failed)" by blast
  have "list_all (\<lambda>e. \<exists>n. orphan_of app spec n \<and> uninstall_event n e)
      (events_of (orphan_loop H (desired_components ?cs) (st_Components st) acc) u)" if "ha_Status app = Some st" for st acc u
    by (rule list.pred_mono_strong [OF events_emits [OF emits_orphan_loop]])
      (use that in \<open>auto simp: orphan_of_def names_of_def orphan_desired\<close>)
  then have "list_all (\<lambda>e. \<exists>n. orphan_of app spec n \<and> uninstall_event n e) ?orphans" by (auto split: option.splits)
  moreover have "events_of (component_statuses L H app spec) ?t =
      events_of (for_each (reconcileComponent L H app) ?cs) ?t @ ?orphans"
    using rs by (auto simp: component_statuses_def events_bind emits_intros split: option.splits)
  ultimately show ?thesis
    using that ss rs by (simp add: apply_events [OF init assms(3)] assms(5))
qed

lemma loop_settles:
  assumes "helm_store_laws H S" and "helm_works H" and "whole_releases H"
    and "ha_Spec app = Some spec" and "spec_Repo spec = Some repo"
    and "\<And>c. c \<in> set cs \<Longrightarrow> pinned L H S app spec repo c" and "distinct (map hc_Name cs)"
  shows "\<forall>c \<in> set cs. settled L S spec (current_ns tr) c (tr @ events_of (for_each (reconcileComponent L H app) cs) tr)"
proof -
  have ns: "current_ns (t @ events_of (reconcileComponent L H app c) t) = current_ns t" for c t
    by (rule current_ns_append [OF events_emits [OF reconcileComponent_no_init]])
  have keep: "settled L S spec n x (t @ events_of (reconcileComponent L H app y) t)"
    if "settled L S spec n x t" "hc_Name x \<noteq> hc_Name y" for n x y t
    by (rule settled_frame [OF assms(1) that(1)],
        rule list.pred_mono_strong [OF events_emits [OF reconcile_component.emits_own]])
       (use that(2) in \<open>auto simp: component_event_def\<close>)
  have "(\<exists>ys. result_of (for_each (reconcileComponent L H app) cs) tr = Returned ys) \<and>
      current_ns (tr @ events_of (for_each (reconcileComponent L H app) cs) tr) = current_ns tr \<and>
      (\<forall>c \<in> set cs. settled L S spec (current_ns tr) c (tr @ events_of (for_each (reconcileComponent L H app) cs) tr))"
  proof (rule reconcile_component.loop_establishes [where J = "\<lambda>t. current_ns t = current_ns tr"
        and P = "\<lambda>c t. settled L S spec (current_ns tr) c t"])
    fix c t assume "c \<in> set cs" "current_ns t = current_ns tr"
    then show "(\<exists>y. result_of (reconcileComponent L H app c) t = Returned y) \<and>
        current_ns (t @ events_of (reconcileComponent L H app c) t) = current_ns tr \<and>
        settled L S spec (current_ns tr) c (t @ events_of (reconcileComponent L H app c) t)"
      using reconcileComponent_whole [OF assms(3-5)] ns component_settles [OF assms(1-5) assms(6)] by metis
  next
    fix x y t assume "x \<in> set cs" "y \<in> set cs" "x \<noteq> y" "settled L S spec (current_ns tr) x t"
    then show "settled L S spec (current_ns tr) x (t @ events_of (reconcileComponent L H app y) t)"
      using keep assms(7) by (metis distinct_map inj_on_def)
  qed (use assms(7) in \<open>simp_all add: distinct_map\<close>)
  then show ?thesis by blast
qed

lemma loop_quiet:
  assumes "helm_store_laws H S" and "whole_releases H" and "ha_Spec app = Some spec" and "spec_Repo spec = Some repo"
    and "\<forall>c \<in> set cs. settled L S spec (current_ns tr) c tr"
  shows "helm_writes (events_of (for_each (reconcileComponent L H app) cs) tr) = []"
proof -
  let ?I = "\<lambda>t. current_ns t = current_ns tr \<and> (\<forall>c \<in> set cs. settled L S spec (current_ns tr) c t) \<and> helm_writes t = helm_writes tr"
  have "(\<exists>ys. result_of (for_each (reconcileComponent L H app) cs) tr = Returned ys) \<and>
      ?I (tr @ events_of (for_each (reconcileComponent L H app) cs) tr)"
  proof (rule reconcile_component.loop_invariant [of _ ?I])
    fix c t assume c: "c \<in> set cs" "?I t"
    then have q: "helm_writes (events_of (reconcileComponent L H app c) t) = []"
      using component_quiet [OF assms(1,3,4)] by metis
    then have "list_all (\<lambda>e. \<not> helm_write e \<or> release_of e \<noteq> n) (events_of (reconcileComponent L H app c) t)" for n
      by (auto simp: list_all_iff filter_empty_conv)
    then have "settled L S spec (current_ns tr) d (t @ events_of (reconcileComponent L H app c) t)" if "d \<in> set cs" for d
      using c(2) that settled_frame [OF assms(1)] by blast
    moreover have "current_ns (t @ events_of (reconcileComponent L H app c) t) = current_ns t"
      by (rule current_ns_append [OF events_emits [OF reconcileComponent_no_init]])
    ultimately show "(\<exists>y. result_of (reconcileComponent L H app c) t = Returned y) \<and>
        ?I (t @ events_of (reconcileComponent L H app c) t)"
      using reconcileComponent_whole [OF assms(2-4)] c(2) q by auto
  qed (use assms(5) in simp)
  then show ?thesis by simp
qed

lemma app_settles:
  assumes "helm_store_laws H S" and "helm_works H" and "whole_releases H"
    and "ha_Spec app = Some spec" and "spec_Repo spec = Some repo"
    and "\<And>c. c \<in> set (slice (spec_Components spec)) \<Longrightarrow> pinned L H S app spec repo c"
    and "distinct (map hc_Name (slice (spec_Components spec)))"
  shows "\<forall>c \<in> set (slice (spec_Components spec)).
    settled L S spec (om_Namespace (ha_Meta app)) c (tr @ events_of (HelmApp_apply L K H app) tr)"
proof
  let ?ns = "om_Namespace (ha_Meta app)" and ?cs = "slice (spec_Components spec)"
  let ?t = "tr @ [NewRegistryClient, HelmInit ?ns]"
  fix c assume c: "c \<in> set ?cs"
  obtain orphans failed and rs :: "(HelmComponentStatus \<times> string option) list"
    where ev: "events_of (HelmApp_apply L K H app) tr = [NewRegistryClient, HelmInit ?ns] @
      events_of (for_each (reconcileComponent L H app) ?cs) ?t @ orphans @ [UpdateHelmAppStatus (reported_app app (map fst rs @ failed))]"
    and orphans: "list_all (\<lambda>e. \<exists>n. orphan_of app spec n \<and> uninstall_event n e) orphans"
    by (rule apply_trace [OF init_works [OF assms(2)] assms(3-5) HOL.refl, where tr = tr and L = L and K = K])
  have "current_ns ?t = ?ns" using current_ns_snoc [of "tr @ [NewRegistryClient]" "HelmInit ?ns"] by simp
  then have here: "settled L S spec ?ns c (?t @ events_of (for_each (reconcileComponent L H app) ?cs) ?t)"
    using loop_settles [OF assms(1-5) assms(6,7), of ?t] c by simp
  have "hc_Name c \<in> names_of spec" using c by (simp add: names_of_def)
  then have "list_all (\<lambda>e. \<not> helm_write e \<or> release_of e \<noteq> Some (hc_Name c)) (orphans @ [UpdateHelmAppStatus (reported_app app (map fst rs @ failed))])"
    using orphans by (auto simp: list_all_iff orphan_of_def uninstall_event_def)
  from settled_frame [OF assms(1) here this]
  show "settled L S spec ?ns c (tr @ events_of (HelmApp_apply L K H app) tr)"
    unfolding ev by (simp only: append_assoc append_Cons append_Nil)
qed

lemma apply_quiet:
  assumes "helm_store_laws H S" and "helm_works H" and "whole_releases H"
    and "ha_Spec app = Some spec" and "spec_Repo spec = Some repo" and "\<And>n. \<not> orphan_of app spec n"
    and "\<And>c. c \<in> set (slice (spec_Components spec)) \<Longrightarrow> settled L S spec (om_Namespace (ha_Meta app)) c tr"
  shows "helm_writes (events_of (HelmApp_apply L K H app) tr) = []"
proof -
  let ?ns = "om_Namespace (ha_Meta app)" and ?cs = "slice (spec_Components spec)"
  let ?t = "tr @ [NewRegistryClient, HelmInit ?ns]"
  have all: "settled L S spec ?ns c ?t" if "c \<in> set ?cs" for c
    by (rule settled_quiet [OF assms(1)]) (simp_all add: that assms(7))
  have ns: "current_ns ?t = ?ns" using current_ns_snoc [of "tr @ [NewRegistryClient]" "HelmInit ?ns"] by simp
  obtain orphans failed and rs :: "(HelmComponentStatus \<times> string option) list"
    where ev: "events_of (HelmApp_apply L K H app) tr = [NewRegistryClient, HelmInit ?ns] @
      events_of (for_each (reconcileComponent L H app) ?cs) ?t @ orphans @ [UpdateHelmAppStatus (reported_app app (map fst rs @ failed))]"
    and "list_all (\<lambda>e. \<exists>n. orphan_of app spec n \<and> uninstall_event n e) orphans"
    by (rule apply_trace [OF init_works [OF assms(2)] assms(3-5) HOL.refl, where tr = tr and L = L and K = K])
  then have "orphans = []" using assms(6) by (cases orphans) auto
  moreover have "helm_writes (events_of (for_each (reconcileComponent L H app) ?cs) ?t) = []"
    by (rule loop_quiet [OF assms(1,3-5)]) (use all ns in simp)
  ultimately show ?thesis using ev by simp
qed


section \<open>A Helm that replays the trace\<close>

text \<open>A concrete Helm with these laws: its releases are computed from the calls made so far.\<close>

definition new_release :: "nat \<Rightarrow> gomap \<Rightarrow> release" where
  "new_release n v = sample_release\<lparr>rel_Version := int n, rel_Config := (if gentries v = [] then None else v)\<rparr>"

type_synonym releases = "string \<times> string \<Rightarrow> release list"

fun replay_step :: "event \<Rightarrow> string \<times> releases \<Rightarrow> string \<times> releases" where
  "replay_step (HelmInit ns) (cur, m) = (ns, m)"
| "replay_step (HelmInstall a c v) (cur, m) = (cur, m((cur, ca_ReleaseName a) := [new_release 1 v]))"
| "replay_step (HelmUpgrade a n c v) (cur, m) =
     (cur, m((cur, n) := m (cur, n) @ [new_release (Suc (length (m (cur, n)))) v]))"
| "replay_step (HelmUninstall n) (cur, m) = (cur, m((cur, n) := []))"
| "replay_step _ s = s"

definition replayed :: "trace \<Rightarrow> string \<times> releases" where
  "replayed tr = fold replay_step tr ([], \<lambda>_. [])"

definition replay_store :: helm_store where
  "replay_store = \<lparr>hs_history = (\<lambda>tr ns n. snd (replayed tr) (ns, n)), hs_chart_version = (\<lambda>c. ''1.0''),
     hs_encode = (\<lambda>v. v)\<rparr>"

definition replay_helm :: helm_api where
  "replay_helm = sample_helm\<lparr>
     h_History := (\<lambda>tr n. case snd (replayed tr) (fst (replayed tr), n) of
        [] \<Rightarrow> Inl (ReleaseNotFound ''release: not found'') | r # rs \<Rightarrow> Inr (r # rs)),
     h_Install := (\<lambda>tr a c v. (Some (new_release 1 v), None)),
     h_Upgrade := (\<lambda>tr a n c v. (Some (new_release (Suc (length (snd (replayed tr) (fst (replayed tr), n)))) v), None)),
     h_Get := (\<lambda>tr n. case snd (replayed tr) (fst (replayed tr), n) of
        [] \<Rightarrow> (None, Some (ReleaseNotFound ''release: not found'')) | r # rs \<Rightarrow> (Some (last (r # rs)), None))\<rparr>"

lemma replayed_snoc: "replayed (tr @ [e]) = replay_step e (replayed tr)"
  by (simp add: replayed_def)

lemma replayed_ns: "fst (replayed tr) = current_ns tr"
proof (induction tr rule: rev_induct)
  case (snoc e tr)
  then show ?case
    by (cases "(e, replayed tr)" rule: replay_step.cases) (auto simp: replayed_snoc)
qed (simp add: replayed_def current_ns_def)

lemma replay_frame:
  "\<not> helm_write e \<or> release_of e \<noteq> Some n \<Longrightarrow> snd (replay_step e s) (ns, n) = snd s (ns, n)"
  by (cases "(e, s)" rule: replay_step.cases) auto

lemma new_release_simps [simp]:
  "rel_ChartVersion (new_release k v) = Some ''1.0''" "rel_Status (new_release k v) = Some StatusDeployed"
  "rel_Config (new_release k v) = (if gentries v = [] then None else v)" "rel_Version (new_release k v) = int k"
  by (simp_all add: new_release_def sample_release_def)

lemma replay_releases: "(\<And>j v. P (new_release j v)) \<Longrightarrow> list_all P (snd (replayed tr) k)"
proof (induction tr arbitrary: k rule: rev_induct)
  case (snoc e tr)
  then show ?case
    by (cases "(e, replayed tr)" rule: replay_step.cases) (auto simp: replayed_snoc)
qed (simp add: replayed_def)

lemma replay_history: "h_History replay_helm tr n = Inr rels \<Longrightarrow> rels = snd (replayed tr) (fst (replayed tr), n)"
  by (cases "snd (replayed tr) (fst (replayed tr), n)") (auto simp: replay_helm_def)

lemma replay_whole_releases: "whole_releases replay_helm"
proof -
  have whole: "whole_release (new_release k v)" for k v
    by (simp add: whole_release_def)
  have "list_all whole_release rels" if "h_History replay_helm tr n = Inr rels" for tr n rels
    unfolding replay_history [OF that] by (rule replay_releases) (rule whole)
  then show ?thesis by (simp add: whole_releases_def replay_helm_def whole)
qed

lemma replay_store_laws: "helm_store_laws replay_helm replay_store"
proof -
  have "gomap_deep_equal v v" if "wf_gomap v" "plain_gomap v" for v
    using gomap_deep_equal_abs [OF that(1,1,2,2)] by simp
  moreover have "snd (replay_step (HelmInstall a c v) (replayed tr)) (current_ns tr, ca_ReleaseName a) = [new_release 1 v]" for a c v tr
    by (cases "replayed tr") (simp flip: replayed_ns)
  moreover have "snd (replay_step (HelmUpgrade a n c v) (replayed tr)) (current_ns tr, n) =
      snd (replayed tr) (current_ns tr, n) @
        [new_release (Suc (length (snd (replayed tr) (current_ns tr, n)))) v]" for a n c v tr
    by (cases "replayed tr") (simp flip: replayed_ns)
  ultimately show ?thesis
    unfolding helm_store_laws_def replay_store_def replay_helm_def stored_as_def
    by (simp add: replayed_ns replayed_snoc replay_frame split: list.splits)
qed


lemma replay_works: "helm_works replay_helm"
  by (simp add: helm_works_def helm_finds_def replay_helm_def sample_helm_def)

definition settling_spec :: HelmAppSpec where
  "settling_spec = \<lparr>spec_Components = Some [sample_component],
     spec_GlobalValues = Some (Struct [(''hub'', StringValue ''docker.io'')]),
     spec_Repo = Some \<lparr>repo_Name = ''istio'', repo_Url = ''https://charts''\<rparr>\<rparr>"

definition settling_app :: HelmApp where
  "settling_app = \<lparr>ha_Meta = sample_meta, ha_Spec = Some settling_spec, ha_Status = None\<rparr>"


lemma settling_values: "component_values sample_lib settling_spec sample_component = Some [(''hub'', VStr ''docker.io'')]"
  by (simp add: component_values_def sample_lib_def sample_AsMap_def settling_spec_def sample_component_def
      Let_def MergeValues.simps)


end
