(* ===== verification/Cluster.thy ===== *)
theory Cluster
  imports Teardown Settling
begin

text \<open>
  The two controllers over one API server: a run of \<open>IOP_Reconcile\<close> or \<open>HelmApp_Reconcile\<close> for a key
  whose IstioOperator stays (internal/istio/iop.go and internal/controller/helmapp.go).

  \<^item> \<open>handler_turn\<close>: the run of one of the two handlers.
  \<^item> \<open>stage_holds\<close>: the three stages an IstioOperator passes through: announced (with no HelmApp or one
    of its own), converted (the HelmApp has the spec of the conversion), released (its releases are as
    wanted). \<open>progress\<close> is what a turn makes of the stage.
  \<^item> \<open>apart\<close>: what a turn guarantees to everybody else: it touches the objects of its key only, and
    only the releases it claims in the namespace of its key.
\<close>

section \<open>Turns\<close>

datatype turn = IopTurn | AppTurn

fun handler_turn :: "lib_api \<Rightarrow> kube_api \<Rightarrow> helm_api \<Rightarrow> string \<Rightarrow> key \<Rightarrow> turn \<Rightarrow> reconcile_result act" where
  "handler_turn L K H dir key IopTurn = IOP_Reconcile L K dir key"
| "handler_turn L K H dir key AppTurn = HelmApp_Reconcile L K H key"

text \<open>The IstioOperator stays, with its spec. The HelmApp stays, is managed and has a given spec, and its
  status names no releases but those of the spec and \<open>others\<close>. \<open>held\<close> says whether the operator's
  finalizer is on the object.\<close>

definition iop_stays :: "api_view \<Rightarrow> key \<Rightarrow> iop_spec option \<Rightarrow> bool \<Rightarrow> trace \<Rightarrow> bool" where
  "iop_stays V key s held tr \<longleftrightarrow> (\<exists>i. av_iop V tr key = Some i \<and> \<not> is_deleting (iop_Meta i) \<and> iop_Spec i = s \<and>
     (held \<longrightarrow> IOPFinalizer \<in> set (om_Finalizers (iop_Meta i))))"

definition stays_as :: "HelmAppSpec \<Rightarrow> bool \<Rightarrow> string set \<Rightarrow> HelmApp \<Rightarrow> bool" where
  "stays_as w held others b \<longleftrightarrow> ha_Spec b = Some w \<and> \<not> is_deleting (ha_Meta b) \<and> managed (ha_Meta b) \<and>
     (\<forall>n. orphan_of b w n \<longrightarrow> n \<in> others) \<and> (held \<longrightarrow> HelmAppFinalizer \<in> set (om_Finalizers (ha_Meta b)))"

definition app_stays :: "api_view \<Rightarrow> key \<Rightarrow> HelmAppSpec \<Rightarrow> bool \<Rightarrow> string set \<Rightarrow> trace \<Rightarrow> bool" where
  "app_stays V key w held others tr \<longleftrightarrow> (\<exists>b. av_app V tr key = Some b \<and> stays_as w held others b)"

lemma app_stays_weaken: "app_stays V key w held {} tr \<Longrightarrow> app_stays V key w False names tr"
  by (auto simp: app_stays_def stays_as_def)

lemma iop_stays_weaken: "iop_stays V key s held tr \<Longrightarrow> iop_stays V key s False tr"
  by (auto simp: iop_stays_def)

section \<open>What a turn leaves alone\<close>

definition apart :: "api_view \<Rightarrow> helm_store \<Rightarrow> key \<Rightarrow> string set \<Rightarrow> trace \<Rightarrow> event list \<Rightarrow> bool" where
  "apart V S key names tr es \<longleftrightarrow>
     (\<forall>k. k \<noteq> key \<longrightarrow> av_app V (tr @ es) k = av_app V tr k \<and> av_iop V (tr @ es) k = av_iop V tr k) \<and>
     (\<forall>ns n. ns \<noteq> fst key \<or> n \<notin> names \<longrightarrow> hs_history S (tr @ es) ns n = hs_history S tr ns n)"

text \<open>Helm writes in the namespace its client was made for.\<close>

definition namespaced :: "helm_store \<Rightarrow> bool" where
  "namespaced S \<longleftrightarrow> (\<forall>tr e ns n. ns \<noteq> current_ns tr \<longrightarrow> hs_history S (tr @ [e]) ns n = hs_history S tr ns n)"

lemma history_in_namespace:
  assumes "helm_store_laws H S" and "namespaced S"
    and "list_all (\<lambda>e. (\<forall>ns. e \<noteq> HelmInit ns) \<and> (helm_write e \<longrightarrow> (\<exists>n \<in> names. release_of e = Some n))) es"
    and "ns \<noteq> current_ns tr \<or> n \<notin> names"
  shows "hs_history S (tr @ es) ns n = hs_history S tr ns n"
  using assms(3)
proof (induction es rule: rev_induct)
  case (snoc e es)
  then have IH: "hs_history S (tr @ es) ns n = hs_history S tr ns n" by simp
  have "current_ns (tr @ es) = current_ns tr"
    by (rule current_ns_append) (use snoc.prems in \<open>auto simp: list_all_iff\<close>)
  then have "hs_history S ((tr @ es) @ [e]) ns n = hs_history S (tr @ es) ns n"
  proof (cases "ns = current_ns tr")
    case True
    then have "\<not> helm_write e \<or> release_of e \<noteq> Some n" using assms(4) snoc.prems by auto
    then show ?thesis using history_frame [OF assms(1), of n "[e]" "tr @ es" ns] by simp
  next
    case False
    with \<open>current_ns (tr @ es) = current_ns tr\<close> assms(2) show ?thesis unfolding namespaced_def by metis
  qed
  with IH show ?case by simp
qed simp

lemma apart_same: "helm_store_laws H S \<Longrightarrow> list_all (\<lambda>e. \<not> helm_write e) es \<Longrightarrow>
   \<exists>x. av_app V (tr @ es) = (av_app V tr)(key := x) \<Longrightarrow> \<exists>y. av_iop V (tr @ es) = (av_iop V tr)(key := y) \<Longrightarrow>
   apart V S key names tr es"
  using history_frame [of H S] by (auto simp: apart_def list_all_iff)

lemma same_upd: "f = g \<Longrightarrow> \<exists>x. f = g(k := x)"
  by (metis fun_upd_triv)

text \<open>A run from the creation of the Helm client on.\<close>

lemma apply_apart:
  assumes "helm_store_laws H S" and "namespaced S" and "helm_works H" and "whole_releases H"
    and "ha_Spec app = Some w" and "spec_Repo w = Some repo"
    and "names_of w \<subseteq> names" and "\<And>n. orphan_of app w n \<Longrightarrow> n \<in> names" and "ns \<noteq> om_Namespace (ha_Meta app) \<or> n \<notin> names"
  shows "hs_history S (tr @ events_of (HelmApp_apply L K H app) tr) ns n = hs_history S tr ns n"
proof -
  let ?ns = "om_Namespace (ha_Meta app)"
  let ?t = "tr @ [NewRegistryClient, HelmInit ?ns]" and ?cs = "slice (spec_Components w)"
  obtain orphans failed and rs :: "(HelmComponentStatus \<times> string option) list"
    where ev: "events_of (HelmApp_apply L K H app) tr = [NewRegistryClient, HelmInit ?ns] @
      events_of (for_each (reconcileComponent L H app) ?cs) ?t @ orphans @ [UpdateHelmAppStatus (reported_app app (map fst rs @ failed))]"
    and orphans: "list_all (\<lambda>e. \<exists>n. orphan_of app w n \<and> uninstall_event n e) orphans"
    by (rule apply_trace [OF init_works [OF assms(3)] assms(4-6) HOL.refl, where tr = tr and L = L and K = K])
  let ?P = "\<lambda>e. (\<forall>ns. e \<noteq> HelmInit ns) \<and> (helm_write e \<longrightarrow> (\<exists>n \<in> names. release_of e = Some n))"
  let ?es = "events_of (for_each (reconcileComponent L H app) ?cs) ?t @ orphans @
    [UpdateHelmAppStatus (reported_app app (map fst rs @ failed))]"
  have "list_all ?P (events_of (for_each (reconcileComponent L H app) ?cs) ?t)"
  proof (rule reconcile_component.loop_events)
    fix c t assume "c \<in> set ?cs"
    then have "hc_Name c \<in> names" using assms(7) by (auto simp: names_of_def)
    moreover have "list_all (\<lambda>e. \<forall>ns. e \<noteq> HelmInit ns) (events_of (reconcileComponent L H app c) t)"
      by (rule events_emits [OF reconcileComponent_no_init])
    moreover have "list_all (component_event c) (events_of (reconcileComponent L H app c) t)"
      by (rule events_emits [OF reconcile_component.emits_own])
    ultimately show "list_all ?P (events_of (reconcileComponent L H app c) t)"
      by (auto simp: list_all_iff component_event_def)
  qed
  moreover have "list_all ?P orphans"
    by (rule list.pred_mono_strong [OF orphans]) (use assms(8) in \<open>auto simp: uninstall_event_def\<close>)
  ultimately have es: "list_all ?P ?es" by simp
  have "current_ns ?t = ?ns" using current_ns_snoc [of "tr @ [NewRegistryClient]" "HelmInit ?ns"] by simp
  then have "hs_history S (?t @ ?es) ns n = hs_history S ?t ns n"
    by (intro history_in_namespace [OF assms(1,2) es]) (use assms(9) in simp)
  also have "\<dots> = hs_history S tr ns n" by (rule history_frame [OF assms(1)]) simp
  finally show ?thesis by (simp add: ev)
qed

section \<open>A turn of the HelmApp controller\<close>

lemma apply_works:
  assumes "helm_works H" and "whole_releases H" and "helm_uninstalls H"
    and "ha_Spec app = Some w" and "spec_Repo w = Some repo"
  obtains es ss where "events_of (HelmApp_apply L K H app) tr = es @ [UpdateHelmAppStatus (reported_app app ss)]"
    "list_all (\<lambda>e. \<not> kube_write e) es" "hs_Name ` set ss = names_of w"
proof -
  let ?i = "[NewRegistryClient, HelmInit (om_Namespace (ha_Meta app))]"
  let ?es = "?i @ events_of (component_statuses L H app w) (tr @ ?i)"
  obtain ss where ss: "result_of (component_statuses L H app w) (tr @ ?i) = Returned ss"
    using component_statuses_whole [OF assms(2,4,5)] by blast
  have "hs_Name ` set ss = names_of w"
    using arg_cong [OF component_statuses_clean [OF assms(3) ss], of set] by (simp add: names_of_def)
  moreover have "list_all (\<lambda>e. \<not> kube_write e) (events_of (component_statuses L H app w) (tr @ ?i))"
    using events_emits [OF emits_component_statuses, of app w L H "tr @ ?i"]
    by (auto simp: list_all_iff app_event_def component_event_def uninstall_event_def)
  then have "list_all (\<lambda>e. \<not> kube_write e) ?es" by simp
  moreover have "events_of (HelmApp_apply L K H app) tr = ?es @ [UpdateHelmAppStatus (reported_app app ss)]"
    by (simp add: apply_events [OF init_works [OF assms(1)] assms(4)] ss)
  ultimately show ?thesis using that by blast
qed

text \<open>A run comes to the creation of the Helm client with the finalizer in place.\<close>

lemma app_prepared:
  assumes "finalizer_laws K" and "api_laws K V" and "read_back (Some w) = Some w" and "app_stays V key w held os tr"
  obtains pre app where "run_state (HelmApp_Reconcile L K H key) tr = run_state (HelmApp_apply L K H app) (tr @ pre)"
    "av_app V (tr @ pre) = (av_app V tr)(key \<mapsto> app)" "key_of (ha_Meta app) = key" "stays_as w True os app"
    "av_iop V (tr @ pre) = av_iop V tr" "list_all (\<lambda>e. \<not> helm_write e) pre" "held \<Longrightarrow> pre = [GetHelmApp key]"
proof -
  obtain b where b: "av_app V tr key = Some b" "stays_as w held os b" using assms(4) by (auto simp: app_stays_def)
  have get: "k_GetHelmApp K tr key = Inr b" "key_of (ha_Meta b) = key" using api_get_app(1) [OF assms(2) b(1)] by simp_all
  have t: "av_app V (tr @ [GetHelmApp key]) = av_app V tr" "av_iop V (tr @ [GetHelmApp key]) = av_iop V tr"
    using api_quiet [OF assms(2), of "[GetHelmApp key]" tr] by simp_all
  have stay: "\<not> is_deleting (ha_Meta b)" using b(2) by (simp add: stays_as_def)
  show ?thesis
  proof (cases "HelmAppFinalizer \<in> set (om_Finalizers (ha_Meta b))")
    case True
    then have "ensure_finalizer K b = State_Monad.return (Inr b)"
      using assms(1) by (simp add: ensure_finalizer_def finalizer_laws_def)
    then have "run_state (HelmApp_Reconcile L K H key) tr = run_state (HelmApp_apply L K H b) (tr @ [GetHelmApp key])"
      using get(1) stay by (simp add: HelmApp_Reconcile_def)
    then show ?thesis using that [of b "[GetHelmApp key]"] b get(2) t True by (simp add: stays_as_def fun_upd_idem)
  next
    case False
    let ?a = "b\<lparr>ha_Meta := (ha_Meta b)\<lparr>om_Finalizers := k_AddFinalizer K (om_Finalizers (ha_Meta b)) HelmAppFinalizer\<rparr>\<rparr>"
    have ens: "ensure_finalizer K b = call (UpdateHelmApp ?a) (\<lambda>tr. k_UpdateHelmApp K tr ?a)"
      using assms(1) False by (simp add: ensure_finalizer_def finalizer_laws_def Let_def)
    have cur: "av_app V (tr @ [GetHelmApp key]) (key_of (ha_Meta ?a)) = Some b"
      using t b(1) get(2) by (simp add: key_of_def)
    have "same_version (ha_Meta ?a) (ha_Meta b)" by (simp add: same_version_def)
    from api_update [OF assms(2) cur this] obtain c where
      upd: "k_UpdateHelmApp K (tr @ [GetHelmApp key]) ?a = Inr c" "app_updated b ?a c"
        "av_app V ((tr @ [GetHelmApp key]) @ [UpdateHelmApp ?a]) = (av_app V (tr @ [GetHelmApp key]))
          (key_of (ha_Meta ?a) := unless_done (ha_Meta b) (om_Finalizers (ha_Meta ?a)) c)" by metis
    have now: "av_app V (tr @ [GetHelmApp key, UpdateHelmApp ?a]) = (av_app V tr)(key \<mapsto> c)"
      using upd(3) get(2) stay t(1) by (simp add: unless_done_def key_of_def)
    have iop: "av_iop V (tr @ [GetHelmApp key, UpdateHelmApp ?a]) = av_iop V tr"
      using api_frame(3) [OF assms(2), of "UpdateHelmApp ?a" "tr @ [GetHelmApp key]"] t(2) by simp
    have "HelmAppFinalizer \<in> set (om_Finalizers (ha_Meta c))" "key_of (ha_Meta c) = key"
      using upd(2) get(2) assms(1) by (simp_all add: app_updated_def meta_updated_def finalizer_laws_def)
    moreover have "stays_as w False os c"
      using upd(2) b(2) assms(3)
      by (simp add: app_updated_def meta_updated_def stays_as_def is_deleting_def managed_def label_of_def orphan_of_def)
    moreover have "run_state (HelmApp_Reconcile L K H key) tr =
        run_state (HelmApp_apply L K H c) (tr @ [GetHelmApp key, UpdateHelmApp ?a])"
      using get(1) stay upd(1) by (simp add: HelmApp_Reconcile_def ens)
    moreover have "\<not> held" using b(2) False by (simp add: stays_as_def)
    ultimately show ?thesis using that [OF _ now _ _ iop] by (simp add: stays_as_def)
  qed
qed

lemma app_turn:
  assumes "finalizer_laws K" and "api_laws K V" and "read_back (Some w) = Some w" and "app_stays V key w held os tr"
    and "helm_works H" and "whole_releases H" and "helm_uninstalls H" and "spec_Repo w = Some repo"
    and "helm_store_laws H S" and "namespaced S" and "names_of w \<subseteq> names" and "os \<subseteq> names"
  obtains y app pre es where "run_state (HelmApp_Reconcile L K H key) tr = (Returned y, tr @ pre @ es)"
    "es = events_of (HelmApp_apply L K H app) (tr @ pre)" "key_of (ha_Meta app) = key" "stays_as w True os app"
    "list_all (\<lambda>e. \<not> helm_write e) pre" "held \<Longrightarrow> pre = [GetHelmApp key]"
    "list_all (\<lambda>e. kube_write e \<longrightarrow> (\<exists>a. e = UpdateHelmAppStatus a)) es"
    "app_stays V key w True {} (tr @ pre @ es)" "av_iop V (tr @ pre @ es) = av_iop V tr" "apart V S key names tr (pre @ es)"
proof -
  obtain pre app where run: "run_state (HelmApp_Reconcile L K H key) tr = run_state (HelmApp_apply L K H app) (tr @ pre)"
    and app: "av_app V (tr @ pre) = (av_app V tr)(key \<mapsto> app)" "key_of (ha_Meta app) = key" "stays_as w True os app"
    and pre: "av_iop V (tr @ pre) = av_iop V tr" "list_all (\<lambda>e. \<not> helm_write e) pre" "held \<Longrightarrow> pre = [GetHelmApp key]"
    by (rule app_prepared [OF assms(1-4), of L H]) blast
  have spec: "ha_Spec app = Some w" and orphans: "\<And>n. orphan_of app w n \<Longrightarrow> n \<in> names"
    using app(3) assms(12) by (auto simp: stays_as_def)
  have ns: "om_Namespace (ha_Meta app) = fst key" using app(2) by (auto simp: key_of_def)
  obtain es ss where es: "events_of (HelmApp_apply L K H app) (tr @ pre) = es @ [UpdateHelmAppStatus (reported_app app ss)]"
      "list_all (\<lambda>e. \<not> kube_write e) es" "hs_Name ` set ss = names_of w"
    by (rule apply_works [OF assms(5-7) spec assms(8), of L K "tr @ pre"])
  let ?a = "reported_app app ss" and ?t = "(tr @ pre) @ es"
  have quiet: "av_app V ?t = av_app V (tr @ pre)" "av_iop V ?t = av_iop V (tr @ pre)"
    using api_quiet [OF assms(2) es(2), of "tr @ pre"] by simp_all
  have a: "ha_Meta ?a = ha_Meta app" "\<exists>ph. ha_Status ?a = Some \<lparr>st_Phase = ph, st_Components = ss\<rparr>"
    by (simp_all add: reported_app_def)
  have cur: "av_app V ?t (key_of (ha_Meta ?a)) = Some app" using quiet app by (simp add: a)
  have "same_version (ha_Meta ?a) (ha_Meta app)" by (simp add: a)
  from api_status [OF assms(2) cur this] obtain b where b: "status_updated app ?a b"
      "av_app V (?t @ [UpdateHelmAppStatus ?a]) = (av_app V ?t)(key \<mapsto> b)" by (metis a(1) app(2))
  have "stays_as w True {} b"
    using b(1) app(3) a(2) es(3)
    by (auto simp: status_updated_def meta_updated_def stays_as_def is_deleting_def managed_def label_of_def
        orphan_of_def)
  then have stays: "app_stays V key w True {} (?t @ [UpdateHelmAppStatus ?a])" using b(2) by (simp add: app_stays_def)
  have iop: "av_iop V (?t @ [UpdateHelmAppStatus ?a]) = av_iop V tr"
    using api_frame(3) [OF assms(2), of "UpdateHelmAppStatus ?a" ?t] quiet(2) pre(1) by simp
  have "hs_history S ((tr @ pre) @ es @ [UpdateHelmAppStatus ?a]) m n = hs_history S (tr @ pre) m n"
    if "m \<noteq> fst key \<or> n \<notin> names" for m n
    using apply_apart [OF assms(9,10,5,6) spec assms(8,11) orphans, of m n "tr @ pre" L K] that by (simp add: ns es(1))
  moreover have "hs_history S (tr @ pre) m n = hs_history S tr m n" for m n
    by (rule history_frame [OF assms(9)]) (use pre(2) in \<open>auto simp: list_all_iff\<close>)
  ultimately have apart: "apart V S key names tr (pre @ es @ [UpdateHelmAppStatus ?a])"
    using b(2) quiet(1) app(1) iop by (simp add: apart_def)
  obtain y where y: "result_of (HelmApp_apply L K H app) (tr @ pre) = Returned y"
    using HelmApp_apply_whole [OF assms(6) spec assms(8), of L K "tr @ pre"]
    by (cases "result_of (HelmApp_apply L K H app) (tr @ pre)") auto
  have "list_all (\<lambda>e. kube_write e \<longrightarrow> (\<exists>a. e = UpdateHelmAppStatus a)) (es @ [UpdateHelmAppStatus ?a])"
    using es(2) by (auto simp: list_all_iff)
  moreover have "run_state (HelmApp_Reconcile L K H key) tr = (Returned y, tr @ pre @ es @ [UpdateHelmAppStatus ?a])"
    using run run_extends [OF HelmApp_apply_extends, of L K H app "tr @ pre"] y es(1) by simp
  ultimately show ?thesis using that [of y pre _ app] es(1) app(2,3) pre(2,3) stays iop apart by simp
qed

section \<open>A turn of the IstioOperator controller\<close>

lemma createOrUpdate_absent:
  assumes "api_laws K V" and "av_app V tr (key_of (ha_Meta new)) = None"
  obtains es b where "run_state (createOrUpdateHelmApp L K new) tr = (None, tr @ es)" "list_all (\<lambda>e. \<not> helm_write e) es"
    "app_created new b" "av_app V (tr @ es) = (av_app V tr)(key_of (ha_Meta new) \<mapsto> b)" "av_iop V (tr @ es) = av_iop V tr"
proof -
  let ?k = "key_of (ha_Meta new)"
  obtain m where get: "k_GetHelmApp K tr ?k = Inl (NotFound m)" using api_get_app(2) [OF assms] by blast
  have t: "av_app V (tr @ [GetHelmApp ?k]) = av_app V tr" "av_iop V (tr @ [GetHelmApp ?k]) = av_iop V tr"
    using api_quiet [OF assms(1), of "[GetHelmApp ?k]" tr] by simp_all
  then have "av_app V (tr @ [GetHelmApp ?k]) ?k = None" using assms(2) by simp
  from api_create [OF assms(1) this] obtain b where b: "k_CreateHelmApp K (tr @ [GetHelmApp ?k]) new = Inr b"
      "app_created new b" "av_app V ((tr @ [GetHelmApp ?k]) @ [CreateHelmApp new]) = (av_app V (tr @ [GetHelmApp ?k]))(?k \<mapsto> b)"
    by metis
  have "av_iop V ((tr @ [GetHelmApp ?k]) @ [CreateHelmApp new]) = av_iop V tr"
    using api_frame(3) [OF assms(1), of "CreateHelmApp new" "tr @ [GetHelmApp ?k]"] t(2) by simp
  then show ?thesis
    using that [of "[GetHelmApp ?k, CreateHelmApp new]" b] get b t(1) by (simp add: createOrUpdateHelmApp_def)
qed

lemma created_stays:
  assumes "app_created new b" and "managed (ha_Meta new)" and "ha_Spec new = Some spec" and "read_back (Some spec) = Some spec"
  shows "stays_as spec False names b"
  using assms by (auto simp: app_created_def meta_updated_def stays_as_def is_deleting_def managed_def label_of_def orphan_of_def)

lemma updated_stays:
  assumes "app_updated a (a\<lparr>ha_Spec := Some spec\<rparr>) b" and "stays_as w held os a" and "read_back (Some spec) = Some spec"
    and "names_of w \<subseteq> names" and "os \<subseteq> names"
  shows "stays_as spec False names b"
proof -
  have "n \<in> names" if "orphan_of b spec n" for n
    using that assms(1,2,4,5) by (cases "n \<in> names_of w") (auto simp: app_updated_def stays_as_def orphan_of_def)
  then show ?thesis
    using assms(1-3) by (auto simp: app_updated_def meta_updated_def stays_as_def is_deleting_def managed_def label_of_def)
qed

text \<open>The specs that count as the converted one; they name the same releases.\<close>

definition wanted_spec :: "lib_api \<Rightarrow> HelmAppSpec \<Rightarrow> HelmAppSpec \<Rightarrow> bool" where
  "wanted_spec L spec w \<longleftrightarrow> spec_DeepEqual L (Some w) (Some spec)"

lemma wanted_names: "wanted_spec L spec w \<Longrightarrow> names_of w = names_of spec"
proof -
  have same: "map hc_Name as = map hc_Name bs" if "list_all2 (component_DeepEqual L) as bs" for as bs
    using that by induction (simp_all add: component_DeepEqual_def)
  assume "wanted_spec L spec w"
  then have "map hc_Name (slice (spec_Components w)) = map hc_Name (slice (spec_Components spec))"
    using same by (auto simp: wanted_spec_def spec_DeepEqual_def split: option.splits)
  from arg_cong [OF this, of set] show ?thesis by (simp add: names_of_def)
qed

text \<open>What the create-or-update makes of the HelmApp: it has a wanted spec afterwards, and one that has one
  already is left alone.\<close>

lemma createOrUpdate_makes_wanted:
  assumes "api_laws K V" and "key_of (ha_Meta new) = key" and "managed (ha_Meta new)" and "ha_Spec new = Some spec"
    and "read_back (Some spec) = Some spec" and "wanted_spec L spec spec"
    and "av_app V tr key = None \<or> app_stays V key w h os tr \<and> names_of w \<subseteq> names \<and> os \<subseteq> names"
  obtains es where "run_state (createOrUpdateHelmApp L K new) tr = (None, tr @ es)" "list_all (\<lambda>e. \<not> helm_write e) es"
    "av_iop V (tr @ es) = av_iop V tr" "\<exists>w'. wanted_spec L spec w' \<and> app_stays V key w' False names (tr @ es)"
    "\<exists>x. av_app V (tr @ es) = (av_app V tr)(key := x)"
    "app_stays V key w h os tr \<Longrightarrow> wanted_spec L spec w \<Longrightarrow> app_stays V key w h os (tr @ es) \<and> list_all (\<lambda>e. \<not> kube_write e) es"
proof (cases "av_app V tr key")
  case None
  then have "av_app V tr (key_of (ha_Meta new)) = None" using assms(2) by simp
  then obtain es b where es: "run_state (createOrUpdateHelmApp L K new) tr = (None, tr @ es)"
      "list_all (\<lambda>e. \<not> helm_write e) es" "app_created new b" "av_app V (tr @ es) = (av_app V tr)(key_of (ha_Meta new) \<mapsto> b)"
      "av_iop V (tr @ es) = av_iop V tr"
    by (rule createOrUpdate_absent [OF assms(1), of tr new L])
  have "app_stays V key spec False names (tr @ es)"
    using created_stays [OF es(3) assms(3-5)] es(4) assms(2) by (simp add: app_stays_def)
  moreover have "\<exists>x. av_app V (tr @ es) = (av_app V tr)(key := x)" using es(4) assms(2) by metis
  ultimately show ?thesis using that [OF es(1,2,5)] assms(6) None by (auto simp: app_stays_def)
next
  case (Some b)
  then have b: "stays_as w h os b" and names: "names_of w \<subseteq> names" "os \<subseteq> names" using assms(7) by (auto simp: app_stays_def)
  then have own: "managed (ha_Meta b)" "ha_Spec b = Some w" "\<not> is_deleting (ha_Meta b)" by (simp_all add: stays_as_def)
  have cur: "av_app V tr (key_of (ha_Meta new)) = Some b" using Some assms(2) by simp
  obtain es where es: "run_state (createOrUpdateHelmApp L K new) tr = (None, tr @ es)" "av_iop V (tr @ es) = av_iop V tr"
    and update: "managed (ha_Meta b) \<and> \<not> spec_DeepEqual L (ha_Spec b) (ha_Spec new) \<Longrightarrow>
      \<exists>b'. app_updated b (b\<lparr>ha_Spec := ha_Spec new\<rparr>) b' \<and> av_app V (tr @ es) = (av_app V tr)
        (key_of (ha_Meta new) := unless_done (ha_Meta b) (om_Finalizers (ha_Meta b)) b')"
    and leave: "\<not> (managed (ha_Meta b) \<and> \<not> spec_DeepEqual L (ha_Spec b) (ha_Spec new)) \<Longrightarrow>
      es = [GetHelmApp (key_of (ha_Meta new))] \<and> av_app V (tr @ es) = av_app V tr"
    by (rule createOrUpdate_existing [OF assms(1) cur, of L]) blast
  have "list_all owned_write es"
    using events_emits [OF createOrUpdate_emits [OF assms(3)], of L K tr] es(1) by (simp add: events_of_def)
  then have calm: "list_all (\<lambda>e. \<not> helm_write e) es" by (rule list.pred_mono_strong) (auto elim: owned_write.elims)
  show ?thesis
  proof (cases "wanted_spec L spec w")
    case True
    then have "\<not> (managed (ha_Meta b) \<and> \<not> spec_DeepEqual L (ha_Spec b) (ha_Spec new))"
      using own assms(4) by (simp add: wanted_spec_def)
    from leave [OF this] have left: "es = [GetHelmApp key]" "av_app V (tr @ es) = av_app V tr" by (auto simp: assms(2))
    moreover have "stays_as w False names b" using b names by (auto simp: stays_as_def)
    ultimately have "app_stays V key w h os (tr @ es)" "app_stays V key w False names (tr @ es)"
      using b Some by (simp_all add: app_stays_def)
    then show ?thesis using that [OF es(1) calm es(2)] True left same_upd [OF left(2)] by auto
  next
    case False
    with update own assms(4) obtain b' where b': "app_updated b (b\<lparr>ha_Spec := Some spec\<rparr>) b'"
        "av_app V (tr @ es) = (av_app V tr)(key \<mapsto> b')"
      by (auto simp: wanted_spec_def assms(2) unless_done_def)
    have "app_stays V key spec False names (tr @ es)"
      using updated_stays [OF b'(1) b assms(5) names] b'(2) by (simp add: app_stays_def)
    then show ?thesis using that [OF es(1) calm es(2)] assms(6) False b'(2) by blast
  qed
qed

text \<open>A run on an IstioOperator that stays.\<close>

lemma iop_turn:
  assumes "finalizer_laws K" and "api_laws K V" and "converts_to L dir iop new" and "key_of (iop_Meta iop) = key"
    and "managed (ha_Meta new)" and "ha_Spec new = Some spec" and "read_back (Some spec) = Some spec"
    and "wanted_spec L spec spec" and "helm_store_laws H S" and "iop_stays V key (iop_Spec iop) held tr"
    and "av_app V tr key = None \<or> app_stays V key w h os tr \<and> names_of w \<subseteq> names \<and> os \<subseteq> names"
  obtains es where "run_state (IOP_Reconcile L K dir key) tr = (Returned (no_requeue, None), tr @ es)"
    "list_all (\<lambda>e. \<not> helm_write e) es" "iop_stays V key (iop_Spec iop) True (tr @ es)"
    "\<exists>w'. wanted_spec L spec w' \<and> app_stays V key w' False names (tr @ es)" "apart V S key names tr es"
    "app_stays V key w h os tr \<Longrightarrow> wanted_spec L spec w \<Longrightarrow>
      app_stays V key w h os (tr @ es) \<and> (held \<longrightarrow> list_all (\<lambda>e. \<not> kube_write e) es)"
proof -
  obtain i0 where i0: "av_iop V tr key = Some i0" "\<not> is_deleting (iop_Meta i0)" "iop_Spec i0 = iop_Spec iop"
      "held \<longrightarrow> IOPFinalizer \<in> set (om_Finalizers (iop_Meta i0))"
    using assms(10) by (auto simp: iop_stays_def)
  obtain pre i where run: "run_state (IOP_Reconcile L K dir key) tr = run_state (IOP_apply L K dir i) (tr @ pre)"
    and now: "av_app V (tr @ pre) = av_app V tr" "av_iop V (tr @ pre) = (av_iop V tr)(key \<mapsto> i)"
    and i: "iop_Spec i = iop_Spec i0" "key_of (iop_Meta i) = key" "\<not> is_deleting (iop_Meta i)"
      "IOPFinalizer \<in> set (om_Finalizers (iop_Meta i))"
    and had: "IOPFinalizer \<in> set (om_Finalizers (iop_Meta i0)) \<Longrightarrow> i = i0 \<and> pre = [GetIOP key]"
    and pre: "\<exists>j. pre = [GetIOP key] \<or> pre = [GetIOP key, UpdateIOP j]"
    by (rule iop_prepared [OF assms(1,2) i0(1,2), of L dir]) blast
  have ispec: "iop_Spec i = iop_Spec iop" "key_of (iop_Meta i) = key_of (iop_Meta iop)" using i(1,2) i0(3) assms(4) by simp_all
  have new: "key_of (ha_Meta new) = key" using assms(3,4) by (simp add: converts_to_def)
  obtain fs where fs: "list_all (\<lambda>e. \<exists>p. e = ReadFile p) fs" "run_state (IOP_apply L K dir i) (tr @ pre) =
      (let (err, t) = run_state (createOrUpdateHelmApp L K new) ((tr @ pre) @ fs) in (Returned (no_requeue, err), t))"
    by (rule IOP_apply_converted [OF assms(3) ispec(2,1), of K "tr @ pre"])
  let ?t = "(tr @ pre) @ fs"
  have reads: "list_all (\<lambda>e. \<not> kube_write e \<and> \<not> helm_write e) fs" by (rule list.pred_mono_strong [OF fs(1)]) auto
  then have "list_all (\<lambda>e. \<not> kube_write e) fs" by (auto simp: list_all_iff)
  then have t: "av_app V ?t = av_app V tr" "av_iop V ?t = (av_iop V tr)(key \<mapsto> i)"
    using api_quiet [OF assms(2), of fs "tr @ pre"] now by simp_all
  have calm: "list_all (\<lambda>e. \<not> helm_write e) (pre @ fs)" "held \<Longrightarrow> list_all (\<lambda>e. \<not> kube_write e) (pre @ fs)"
    using reads pre had i0(4) by (auto simp: list_all_iff)
  have same: "app_stays V key w h os ?t = app_stays V key w h os tr" by (simp only: app_stays_def t(1))
  have init: "av_app V ?t key = None \<or> app_stays V key w h os ?t \<and> names_of w \<subseteq> names \<and> os \<subseteq> names"
    using assms(11) t(1) same by simp
  obtain gs where gs: "run_state (createOrUpdateHelmApp L K new) ?t = (None, ?t @ gs)" "list_all (\<lambda>e. \<not> helm_write e) gs"
      "av_iop V (?t @ gs) = av_iop V ?t" "\<exists>w'. wanted_spec L spec w' \<and> app_stays V key w' False names (?t @ gs)"
      "\<exists>x. av_app V (?t @ gs) = (av_app V ?t)(key := x)" "app_stays V key w h os ?t \<Longrightarrow> wanted_spec L spec w \<Longrightarrow>
        app_stays V key w h os (?t @ gs) \<and> list_all (\<lambda>e. \<not> kube_write e) gs"
    by (rule createOrUpdate_makes_wanted [OF assms(2) new assms(5-8) init]) (rule that)
  have iop: "iop_stays V key (iop_Spec iop) True (?t @ gs)" using gs(3) t(2) i ispec by (simp add: iop_stays_def)
  have "apart V S key names tr (pre @ fs @ gs)"
    by (rule apart_same [OF assms(9)]) (use calm(1) gs(2,3,5) t in auto)
  then show ?thesis
    using that [of "pre @ fs @ gs"] run fs(2) gs(1,2,4,6) same calm iop by simp
qed

section \<open>Stages\<close>

text \<open>The environment, and an IstioOperator whose conversion can be brought about.\<close>

definition cluster_works :: "kube_api \<Rightarrow> api_view \<Rightarrow> helm_api \<Rightarrow> helm_store \<Rightarrow> bool" where
  "cluster_works K V H S \<longleftrightarrow> finalizer_laws K \<and> api_laws K V \<and> helm_store_laws H S \<and> namespaced S \<and> helm_works H \<and>
     helm_uninstalls H \<and> whole_releases H"

definition attainable_spec :: "lib_api \<Rightarrow> helm_api \<Rightarrow> helm_store \<Rightarrow> HelmApp \<Rightarrow> HelmAppSpec \<Rightarrow> bool" where
  "attainable_spec L H S new w \<longleftrightarrow> read_back (Some w) = Some w \<and>
     distinct (map hc_Name (slice (spec_Components w))) \<and>
     (\<exists>repo. spec_Repo w = Some repo \<and> (\<forall>c \<in> set (slice (spec_Components w)). pinned L H S new w repo c))"

definition attainable ::
    "lib_api \<Rightarrow> string \<Rightarrow> helm_api \<Rightarrow> helm_store \<Rightarrow> IstioOperator \<Rightarrow> HelmApp \<Rightarrow> HelmAppSpec \<Rightarrow> bool" where
  "attainable L dir H S iop new spec \<longleftrightarrow> converts_to L dir iop new \<and> ha_Spec new = Some spec \<and> wanted_spec L spec spec \<and>
     (\<forall>w. wanted_spec L spec w \<longrightarrow> attainable_spec L H S new w)"

text \<open>What there is to an IstioOperator: the object, the HelmApp it is converted to, the spec of that, and the
  names of the releases it claims, which are those of the spec and may be more.\<close>

record member =
  mb_iop :: IstioOperator
  mb_new :: HelmApp
  mb_spec :: HelmAppSpec
  mb_names :: "string set"

definition ready :: "lib_api \<Rightarrow> string \<Rightarrow> helm_api \<Rightarrow> helm_store \<Rightarrow> key \<Rightarrow> member \<Rightarrow> bool" where
  "ready L dir H S key M \<longleftrightarrow> attainable L dir H S (mb_iop M) (mb_new M) (mb_spec M) \<and>
     key_of (iop_Meta (mb_iop M)) = key \<and> names_of (mb_spec M) \<subseteq> mb_names M"

text \<open>The IstioOperator is there, with any HelmApp of its own or none, which names claimed releases only; then
  the HelmApp has the spec of the conversion; then its releases are as wanted.\<close>

datatype stage = Announced | Converted | Released

definition own_app :: "api_view \<Rightarrow> key \<Rightarrow> string set \<Rightarrow> trace \<Rightarrow> bool" where
  "own_app V key names tr \<longleftrightarrow> (\<exists>w repo. app_stays V key w False names tr \<and> names_of w \<subseteq> names \<and>
     spec_Repo w = Some repo \<and> read_back (Some w) = Some w)"

fun stage_holds :: "lib_api \<Rightarrow> helm_store \<Rightarrow> api_view \<Rightarrow> key \<Rightarrow> member \<Rightarrow> stage \<Rightarrow> trace \<Rightarrow> bool" where
  "stage_holds L S V key M Announced tr \<longleftrightarrow> iop_stays V key (iop_Spec (mb_iop M)) False tr \<and>
     (av_app V tr key = None \<or> own_app V key (mb_names M) tr)"
| "stage_holds L S V key M Converted tr \<longleftrightarrow> iop_stays V key (iop_Spec (mb_iop M)) True tr \<and>
     (\<exists>w. wanted_spec L (mb_spec M) w \<and> app_stays V key w False (mb_names M) tr)"
| "stage_holds L S V key M Released tr \<longleftrightarrow> iop_stays V key (iop_Spec (mb_iop M)) True tr \<and>
     (\<exists>w. wanted_spec L (mb_spec M) w \<and> app_stays V key w True {} tr \<and>
       (\<forall>c \<in> set (slice (spec_Components w)). settled L S w (fst key) c tr))"

fun progress :: "turn \<Rightarrow> stage \<Rightarrow> stage" where
  "progress IopTurn Announced = Converted"
| "progress AppTurn Converted = Released"
| "progress _ s = s"

lemma Released_Converted: "stage_holds L S V key M Released tr \<Longrightarrow> stage_holds L S V key M Converted tr"
  by (auto intro: app_stays_weaken)

lemma attainable_own:
  assumes "attainable L dir H S iop new spec" and "names_of spec \<subseteq> names" and "wanted_spec L spec w"
    and "app_stays V key w False names tr"
  shows "own_app V key names tr"
  using assms wanted_names [OF assms(3)] unfolding attainable_def attainable_spec_def own_app_def by blast

lemma Converted_Announced:
  "ready L dir H S key M \<Longrightarrow> stage_holds L S V key M Converted tr \<Longrightarrow> stage_holds L S V key M Announced tr"
  by (auto simp: ready_def intro: iop_stays_weaken attainable_own)

lemma key_namespace: "key_of m = key \<Longrightarrow> om_Namespace m = fst key"
  by (auto simp: key_of_def)

lemma pinned_namespace:
  "om_Namespace (ha_Meta a) = om_Namespace (ha_Meta b) \<Longrightarrow> pinned L H S a spec repo c = pinned L H S b spec repo c"
  by (simp add: pinned_def action_for_def)

lemma attainable_managed: "attainable L dir H S iop new spec \<Longrightarrow> managed (ha_Meta new)"
  by (rule convert_managed [of L dir iop "[]"]) (simp add: attainable_def converts_to_def)

lemma ready_turn:
  assumes "cluster_works K V H S" and "ready L dir H S key M" and "iop_stays V key (iop_Spec (mb_iop M)) held tr"
    and "av_app V tr key = None \<or> app_stays V key w h os tr \<and> names_of w \<subseteq> mb_names M \<and> os \<subseteq> mb_names M"
  obtains es where "run_state (IOP_Reconcile L K dir key) tr = (Returned (no_requeue, None), tr @ es)"
    "list_all (\<lambda>e. \<not> helm_write e) es" "stage_holds L S V key M Converted (tr @ es)" "apart V S key (mb_names M) tr es"
    "app_stays V key w h os tr \<Longrightarrow> wanted_spec L (mb_spec M) w \<Longrightarrow>
      app_stays V key w h os (tr @ es) \<and> (held \<longrightarrow> list_all (\<lambda>e. \<not> kube_write e) es)"
proof -
  have M: "attainable L dir H S (mb_iop M) (mb_new M) (mb_spec M)" "key_of (iop_Meta (mb_iop M)) = key"
    using assms(2) by (simp_all add: ready_def)
  then have conv: "converts_to L dir (mb_iop M) (mb_new M)" "ha_Spec (mb_new M) = Some (mb_spec M)"
    "read_back (Some (mb_spec M)) = Some (mb_spec M)" "wanted_spec L (mb_spec M) (mb_spec M)"
    by (auto simp: attainable_def attainable_spec_def)
  have env: "finalizer_laws K" "api_laws K V" "helm_store_laws H S" using assms(1) by (simp_all add: cluster_works_def)
  show ?thesis
    by (rule iop_turn [OF env(1,2) conv(1) M(2) attainable_managed [OF M(1)] conv(2-4) env(3) assms(3,4)])
      (rule that; simp)
qed

text \<open>A turn of the IstioOperator controller converts.\<close>

lemma iop_turn_converts:
  assumes "cluster_works K V H S" and "ready L dir H S key M" and "stage_holds L S V key M Announced tr"
  shows "\<exists>y es. run_state (handler_turn L K H dir key IopTurn) tr = (Returned y, tr @ es) \<and>
    stage_holds L S V key M Converted (tr @ es) \<and> apart V S key (mb_names M) tr es"
proof -
  have stays: "iop_stays V key (iop_Spec (mb_iop M)) False tr" using assms(3) by simp
  obtain w where "av_app V tr key = None \<or> app_stays V key w False (mb_names M) tr \<and> names_of w \<subseteq> mb_names M \<and>
      mb_names M \<subseteq> mb_names M"
    using assms(3) by (auto simp: own_app_def)
  then obtain es where "run_state (IOP_Reconcile L K dir key) tr = (Returned (no_requeue, None), tr @ es)"
    "stage_holds L S V key M Converted (tr @ es)" "apart V S key (mb_names M) tr es"
    by (rule ready_turn [OF assms(1,2) stays])
  then show ?thesis by (auto simp del: stage_holds.simps)
qed

text \<open>One turn of the HelmApp controller brings the releases about.\<close>

lemma app_turn_releases:
  assumes "cluster_works K V H S" and "ready L dir H S key M" and "stage_holds L S V key M Converted tr"
  shows "\<exists>y es. run_state (handler_turn L K H dir key AppTurn) tr = (Returned y, tr @ es) \<and>
    stage_holds L S V key M Released (tr @ es) \<and> apart V S key (mb_names M) tr es"
proof -
  obtain w where w: "wanted_spec L (mb_spec M) w" "app_stays V key w False (mb_names M) tr" using assms(3) by auto
  have env: "finalizer_laws K" "api_laws K V" "helm_store_laws H S" "helm_works H" "whole_releases H" "helm_uninstalls H" "namespaced S"
    using assms(1) by (simp_all add: cluster_works_def)
  obtain repo where conv: "read_back (Some w) = Some w" "spec_Repo w = Some repo" "distinct (map hc_Name (slice (spec_Components w)))"
      "\<forall>c \<in> set (slice (spec_Components w)). pinned L H S (mb_new M) w repo c" "converts_to L dir (mb_iop M) (mb_new M)"
    using assms(2) w(1) by (auto simp: ready_def attainable_def attainable_spec_def)
  have names: "names_of w \<subseteq> mb_names M" using assms(2) wanted_names [OF w(1)] by (simp add: ready_def)
  obtain y app pre es where run: "run_state (HelmApp_Reconcile L K H key) tr = (Returned y, tr @ pre @ es)"
    and es: "es = events_of (HelmApp_apply L K H app) (tr @ pre)" "key_of (ha_Meta app) = key" "stays_as w True (mb_names M) app"
    and left: "app_stays V key w True {} (tr @ pre @ es)" "av_iop V (tr @ pre @ es) = av_iop V tr" "apart V S key (mb_names M) tr (pre @ es)"
    by (rule app_turn [OF env(1,2) conv(1) w(2) env(4-6) conv(2) env(3,7) names subset_refl]) blast
  have spec: "ha_Spec app = Some w" using es(3) by (simp add: stays_as_def)
  have ns: "om_Namespace (ha_Meta app) = fst key" "om_Namespace (ha_Meta (mb_new M)) = fst key"
    using es(2) conv(5) assms(2) by (simp_all add: converts_to_def key_namespace ready_def)
  have pin: "pinned L H S app w repo c" if "c \<in> set (slice (spec_Components w))" for c
    using conv(4) that pinned_namespace [of app "mb_new M"] ns by simp
  have "\<forall>c \<in> set (slice (spec_Components w)). settled L S w (fst key) c (tr @ pre @ es)"
    using app_settles [OF env(3-5) spec conv(2) pin conv(3), where K = K and tr = "tr @ pre"] ns(1) by (simp add: es(1))
  moreover have "iop_stays V key (iop_Spec (mb_iop M)) True (tr @ pre @ es)" using assms(3) left(2) by (simp add: iop_stays_def)
  ultimately have "stage_holds L S V key M Released (tr @ pre @ es)" using left(1) w(1) by auto
  with run left(3) show ?thesis by (auto simp del: stage_holds.simps)
qed

text \<open>Before that its controller finds nothing, or works on the spec the HelmApp had.\<close>

lemma app_turn_waits:
  assumes "cluster_works K V H S" and "stage_holds L S V key M Announced tr"
  shows "\<exists>y es. run_state (handler_turn L K H dir key AppTurn) tr = (Returned y, tr @ es) \<and>
    stage_holds L S V key M Announced (tr @ es) \<and> apart V S key (mb_names M) tr es"
proof -
  have env: "finalizer_laws K" "api_laws K V" "helm_works H" "whole_releases H" "helm_uninstalls H" "helm_store_laws H S" "namespaced S"
    using assms(1) by (simp_all add: cluster_works_def)
  show ?thesis
  proof (cases "av_app V tr key")
    case None
    have same: "av_app V (tr @ [GetHelmApp key]) = av_app V tr" "av_iop V (tr @ [GetHelmApp key]) = av_iop V tr"
      using api_quiet [OF env(2), of "[GetHelmApp key]" tr] by simp_all
    have "apart V S key (mb_names M) tr [GetHelmApp key]"
      by (rule apart_same [OF env(6) _ same_upd same_upd]) (simp_all add: same)
    with gone_runs [OF env(2) None, of L H] assms(2) None same show ?thesis
      by (auto simp: iop_stays_def intro!: exI [of _ "[GetHelmApp key]"])
  next
    case (Some b)
    then obtain w repo where w: "app_stays V key w False (mb_names M) tr" "spec_Repo w = Some repo" "read_back (Some w) = Some w"
        "names_of w \<subseteq> mb_names M"
      using assms(2) by (auto simp: own_app_def)
    obtain y pre es where run: "run_state (HelmApp_Reconcile L K H key) tr = (Returned y, tr @ pre @ es)"
        "av_iop V (tr @ pre @ es) = av_iop V tr" "apart V S key (mb_names M) tr (pre @ es)"
      and left: "app_stays V key w True {} (tr @ pre @ es)"
      by (rule app_turn [OF env(1,2) w(3,1) env(3-5) w(2) env(6,7) w(4) subset_refl])
    have "own_app V key (mb_names M) (tr @ pre @ es)"
      using app_stays_weaken [OF left] w(2-4) unfolding own_app_def by blast
    then have "stage_holds L S V key M Announced (tr @ pre @ es)" using assms(2) run(2) by (simp add: iop_stays_def)
    with run(1,3) show ?thesis by (auto simp del: stage_holds.simps)
  qed
qed

text \<open>From then on a turn writes a status at most.\<close>

definition only_status :: "event \<Rightarrow> bool" where
  "only_status e \<longleftrightarrow> \<not> helm_write e \<and> (\<not> kube_write e \<or> (\<exists>a. e = UpdateHelmAppStatus a))"

lemma released_iop_turn:
  assumes "cluster_works K V H S" and "ready L dir H S key M" and "stage_holds L S V key M Released tr"
  shows "\<exists>y es. run_state (IOP_Reconcile L K dir key) tr = (Returned y, tr @ es) \<and>
    stage_holds L S V key M Released (tr @ es) \<and> apart V S key (mb_names M) tr es \<and> list_all only_status es"
proof -
  have store: "helm_store_laws H S" using assms(1) by (simp add: cluster_works_def)
  obtain w where w: "wanted_spec L (mb_spec M) w" "app_stays V key w True {} tr"
      "\<forall>c \<in> set (slice (spec_Components w)). settled L S w (fst key) c tr"
    and stays: "iop_stays V key (iop_Spec (mb_iop M)) True tr"
    using assms(3) by auto
  have names: "names_of w \<subseteq> mb_names M" using assms(2) wanted_names [OF w(1)] by (simp add: ready_def)
  obtain es where es: "run_state (IOP_Reconcile L K dir key) tr = (Returned (no_requeue, None), tr @ es)"
    "list_all (\<lambda>e. \<not> helm_write e) es" "stage_holds L S V key M Converted (tr @ es)" "apart V S key (mb_names M) tr es"
    "app_stays V key w True {} (tr @ es)" "list_all (\<lambda>e. \<not> kube_write e) es"
    by (rule ready_turn [OF assms(1,2) stays, of w True "{}"]) (use w(1,2) names in auto)
  have "stage_holds L S V key M Released (tr @ es)"
    using w(1,3) es(3,5) settled_quiet [OF store _ es(2)] by auto
  moreover have "list_all only_status es" using es(2,6) by (auto simp: list_all_iff only_status_def)
  ultimately show ?thesis using es(1,4) by blast
qed

lemma released_app_turn:
  assumes "cluster_works K V H S" and "ready L dir H S key M" and "stage_holds L S V key M Released tr"
  shows "\<exists>y es. run_state (HelmApp_Reconcile L K H key) tr = (Returned y, tr @ es) \<and>
    stage_holds L S V key M Released (tr @ es) \<and> apart V S key (mb_names M) tr es \<and> list_all only_status es"
proof -
  have env: "finalizer_laws K" "api_laws K V" "helm_store_laws H S" "helm_works H" "whole_releases H" "helm_uninstalls H" "namespaced S"
    using assms(1) by (simp_all add: cluster_works_def)
  obtain w where w: "wanted_spec L (mb_spec M) w" "app_stays V key w True {} tr"
      "\<forall>c \<in> set (slice (spec_Components w)). settled L S w (fst key) c tr"
    using assms(3) by auto
  obtain repo where conv: "read_back (Some w) = Some w" "spec_Repo w = Some repo"
    using assms(2) w(1) by (auto simp: ready_def attainable_def attainable_spec_def)
  have names: "names_of w \<subseteq> mb_names M" using assms(2) wanted_names [OF w(1)] by (simp add: ready_def)
  obtain y app pre es where run: "run_state (HelmApp_Reconcile L K H key) tr = (Returned y, tr @ pre @ es)"
    and es: "es = events_of (HelmApp_apply L K H app) (tr @ pre)" "key_of (ha_Meta app) = key" "stays_as w True {} app"
    and pre: "pre = [GetHelmApp key]" and kube: "list_all (\<lambda>e. kube_write e \<longrightarrow> (\<exists>a. e = UpdateHelmAppStatus a)) es"
    and left: "app_stays V key w True {} (tr @ pre @ es)" "av_iop V (tr @ pre @ es) = av_iop V tr" "apart V S key (mb_names M) tr (pre @ es)"
    by (rule app_turn [OF env(1,2) conv(1) w(2) env(4-6) conv(2) env(3,7) names empty_subsetI]) blast
  have spec: "ha_Spec app = Some w" "\<And>n. \<not> orphan_of app w n" using es(3) by (simp_all add: stays_as_def)
  have before: "settled L S w (fst key) c (tr @ pre)" if "c \<in> set (slice (spec_Components w))" for c
    by (rule settled_quiet [OF env(3)]) (use that w(3) pre in simp_all)
  have "helm_writes es = []"
    unfolding es(1) by (rule apply_quiet [OF env(3-5) spec(1) conv(2) spec(2)])
      (use before key_namespace [OF es(2)] in auto)
  then have none: "list_all (\<lambda>e. \<not> helm_write e) (pre @ es)" by (auto simp: pre list_all_iff filter_empty_conv)
  have "settled L S w (fst key) c (tr @ pre @ es)" if "c \<in> set (slice (spec_Components w))" for c
    by (rule settled_quiet [OF env(3) _ none]) (use that w(3) in simp)
  then have "stage_holds L S V key M Released (tr @ pre @ es)"
    using assms(3) left w(1) by (auto simp: iop_stays_def)
  moreover have "list_all only_status (pre @ es)" using none kube by (auto simp: list_all_iff only_status_def pre)
  ultimately show ?thesis using run left(3) by blast
qed

text \<open>Any turn in any stage.\<close>

lemma turn_progress:
  assumes "cluster_works K V H S" and "ready L dir H S key M" and "stage_holds L S V key M s tr"
  shows "\<exists>y es. run_state (handler_turn L K H dir key x) tr = (Returned y, tr @ es) \<and>
    stage_holds L S V key M (progress x s) (tr @ es) \<and> apart V S key (mb_names M) tr es \<and>
    (s = Released \<longrightarrow> list_all only_status es)"
proof (cases s)
  case Announced
  then show ?thesis
    using iop_turn_converts [OF assms(1,2)] app_turn_waits [OF assms(1)] assms(3)
    by (cases x) (auto simp del: stage_holds.simps handler_turn.simps)
next
  case Converted
  then show ?thesis
    using iop_turn_converts [OF assms(1,2)] Converted_Announced [OF assms(2)] app_turn_releases [OF assms(1,2)] assms(3)
    by (cases x) (auto simp del: stage_holds.simps handler_turn.simps)
next
  case Released
  then show ?thesis
    using released_iop_turn [OF assms(1,2)] released_app_turn [OF assms(1,2)] assms(3)
    by (cases x) (auto simp del: stage_holds.simps)
qed

text \<open>Somebody else's turn leaves the stage as it is.\<close>

lemma stage_stable:
  assumes "names_of (mb_spec M) \<subseteq> mb_names M" and "stage_holds L S V key M s tr" and "apart V S other names tr es"
    and "key \<noteq> other" and "fst key \<noteq> fst other \<or> mb_names M \<inter> names = {}"
  shows "stage_holds L S V key M s (tr @ es)"
proof -
  have view: "av_app V (tr @ es) key = av_app V tr key" "av_iop V (tr @ es) key = av_iop V tr key"
    using assms(3,4) unfolding apart_def by blast+
  have "settled L S w (fst key) c (tr @ es)"
    if "settled L S w (fst key) c tr" "c \<in> set (slice (spec_Components w))" "wanted_spec L (mb_spec M) w" for w c
  proof -
    have "hc_Name c \<in> mb_names M" using that(2) wanted_names [OF that(3)] assms(1) by (auto simp: names_of_def)
    then have "hs_history S (tr @ es) (fst key) (hc_Name c) = hs_history S tr (fst key) (hc_Name c)"
      using assms(3,5) unfolding apart_def by blast
    with that(1) show ?thesis by (simp add: settled_def)
  qed
  then show ?thesis
    using assms(2) by (cases s) (auto simp: iop_stays_def app_stays_def own_app_def view)
qed

end
