(* ===== verification/Fleet.thy ===== *)
theory Fleet
  imports Cluster
begin

text \<open>
  Many IstioOperators and HelmApps in one cluster: the manager works off the queues of both controllers,
  so the runs for different keys follow each other in any order (cmd/main.go, internal/istio/iop.go,
  internal/controller/helmapp.go).

  \<^item> \<open>interleaving\<close>: the contract by which turns of agents compose. A turn of an agent takes its own stage
    on and guarantees something to the others; the stage of an agent is stable under that guarantee.
  \<^item> Its interpretation on the handlers: the agents are keys, the guarantee is \<open>apart\<close>, and two agents are
    compatible when they claim no common release in a common namespace.
  \<^item> \<open>cluster_settles\<close>: all of them come to rest.
\<close>

section \<open>Agents that take turns\<close>

text \<open>The stage an agent is in after its own turns of a sequence.\<close>

definition stage_after :: "('x \<Rightarrow> 's \<Rightarrow> 's) \<Rightarrow> ('k \<times> 'x) list \<Rightarrow> 'k \<Rightarrow> 's \<Rightarrow> 's" where
  "stage_after step ts k s = fold step (map snd (filter (\<lambda>t. fst t = k) ts)) s"

lemma stage_after_simps [simp]:
  "stage_after step [] k s = s"
  "stage_after step ((k', x) # ts) k s = stage_after step ts k (if k' = k then step x s else s)"
  "stage_after step (ts @ us) k s = stage_after step us k (stage_after step ts k s)"
  by (simp_all add: stage_after_def)

locale interleaving =
  fixes turn_of :: "'k \<Rightarrow> 'x \<Rightarrow> ('e, 'r outcome) prog" and holds :: "'k \<Rightarrow> 's \<Rightarrow> 'e list \<Rightarrow> bool"
    and step :: "'x \<Rightarrow> 's \<Rightarrow> 's" and guarantees :: "'k \<Rightarrow> 'e list \<Rightarrow> 'e list \<Rightarrow> bool"
    and compatible :: "'k \<Rightarrow> 'k \<Rightarrow> bool" and rest :: 's and calm :: "'e \<Rightarrow> bool"
  assumes own_turn: "holds k s tr \<Longrightarrow> \<exists>y es. run_state (turn_of k x) tr = (Returned y, tr @ es) \<and>
      holds k (step x s) (tr @ es) \<and> guarantees k tr es \<and> (s = rest \<longrightarrow> list_all calm es)"
    and stable: "holds k s tr \<Longrightarrow> guarantees k' tr es \<Longrightarrow> compatible k k' \<Longrightarrow> holds k s (tr @ es)"
    and stays_at_rest: "step x rest = rest"
begin

lemma turns_run:
  assumes "fst ` set ts \<subseteq> ks" and "\<And>k. k \<in> ks \<Longrightarrow> holds k (st k) tr"
    and "\<And>k k'. k \<in> ks \<Longrightarrow> k' \<in> ks \<Longrightarrow> k \<noteq> k' \<Longrightarrow> compatible k k'"
  shows "\<exists>ys es. run_state (for_each (\<lambda>(k, x). turn_of k x) ts) tr = (Returned ys, tr @ es) \<and>
    (\<forall>k \<in> ks. holds k (stage_after step ts k (st k)) (tr @ es)) \<and> ((\<forall>k \<in> ks. st k = rest) \<longrightarrow> list_all calm es)"
  using assms(1,2)
proof (induction ts arbitrary: tr st)
  case (Cons t ts)
  obtain k x where t: "t = (k, x)" by fastforce
  then have k: "k \<in> ks" using Cons.prems(1) by simp
  obtain y es where one: "run_state (turn_of k x) tr = (Returned y, tr @ es)" "holds k (step x (st k)) (tr @ es)"
    "guarantees k tr es" "st k = rest \<longrightarrow> list_all calm es"
    using own_turn [OF Cons.prems(2) [OF k]] by blast
  let ?st = "st(k := step x (st k))"
  have "holds j (?st j) (tr @ es)" if "j \<in> ks" for j
    using one(2) stable [OF Cons.prems(2) [OF that] one(3)] assms(3) [OF that k] by (cases "j = k") auto
  moreover have "fst ` set ts \<subseteq> ks" using Cons.prems(1) by simp
  ultimately obtain ys fs where more: "run_state (for_each (\<lambda>(k, x). turn_of k x) ts) (tr @ es) = (Returned ys, (tr @ es) @ fs)"
    "\<forall>j \<in> ks. holds j (stage_after step ts j (?st j)) ((tr @ es) @ fs)" "(\<forall>j \<in> ks. ?st j = rest) \<longrightarrow> list_all calm fs"
    using Cons.IH [of "?st" "tr @ es"] by blast
  have "run_state (for_each (\<lambda>(k, x). turn_of k x) (t # ts)) tr = (Returned (y # ys), tr @ es @ fs)"
    using one(1) more(1) by (simp add: t)
  moreover have "\<forall>j \<in> ks. holds j (stage_after step (t # ts) j (st j)) (tr @ es @ fs)"
    using more(2) by (auto simp: t)
  moreover have "(\<forall>j \<in> ks. st j = rest) \<longrightarrow> list_all calm (es @ fs)"
    using one(4) more(3) k by (auto simp: stays_at_rest)
  ultimately show ?case by blast
qed simp

end

section \<open>The keys of a cluster as agents\<close>

definition member_holds ::
    "lib_api \<Rightarrow> kube_api \<Rightarrow> api_view \<Rightarrow> helm_api \<Rightarrow> helm_store \<Rightarrow> string \<Rightarrow> (key \<Rightarrow> member) \<Rightarrow> key \<Rightarrow> stage \<Rightarrow> trace \<Rightarrow> bool" where
  "member_holds L K V H S dir F k s tr \<longleftrightarrow> cluster_works K V H S \<and> ready L dir H S k (F k) \<and> stage_holds L S V k (F k) s tr"

definition claims_apart :: "(key \<Rightarrow> member) \<Rightarrow> key \<Rightarrow> key \<Rightarrow> bool" where
  "claims_apart F k k' \<longleftrightarrow> k \<noteq> k' \<and> (fst k \<noteq> fst k' \<or> mb_names (F k) \<inter> mb_names (F k') = {})"

interpretation fleet: interleaving "handler_turn L K H dir" "member_holds L K V H S dir F" progress
    "\<lambda>k. apart V S k (mb_names (F k))" "claims_apart F" Released only_status
  for L K H dir V S F
proof unfold_locales
  fix k s tr x assume "member_holds L K V H S dir F k s tr"
  then show "\<exists>y es. run_state (handler_turn L K H dir k x) tr = (Returned y, tr @ es) \<and>
      member_holds L K V H S dir F k (progress x s) (tr @ es) \<and> apart V S k (mb_names (F k)) tr es \<and>
      (s = Released \<longrightarrow> list_all only_status es)"
    using turn_progress unfolding member_holds_def by blast
next
  fix k s tr k' es assume now: "member_holds L K V H S dir F k s tr" "apart V S k' (mb_names (F k')) tr es" "claims_apart F k k'"
  then have "stage_holds L S V k (F k) s (tr @ es)"
    by (intro stage_stable [of "F k" L S V k s tr k' "mb_names (F k')" es])
      (simp_all add: member_holds_def ready_def claims_apart_def)
  with now(1) show "member_holds L K V H S dir F k s (tr @ es)" by (simp add: member_holds_def)
qed (case_tac x; simp)

text \<open>A turn of the HelmApp controller somewhere after one of the other leads to the last stage.\<close>

lemma reaches_Released:
  assumes "ts = xs @ (k, IopTurn) # ys @ (k, AppTurn) # zs"
  shows "stage_after progress ts k s = Released"
proof -
  have iop: "progress IopTurn t \<noteq> Announced" for t by (cases t) simp_all
  have step: "t \<noteq> Announced \<Longrightarrow> progress x t \<noteq> Announced" for x t by (cases x; cases t) simp_all
  have keeps: "t \<noteq> Announced \<Longrightarrow> stage_after progress us k t \<noteq> Announced" for us t
  proof (induction us arbitrary: t)
    case (Cons u us)
    obtain k' x where "u = (k', x)" by fastforce
    then show ?case using Cons.IH [OF Cons.prems] Cons.IH [OF step [OF Cons.prems, of x]] by simp
  qed simp
  have "t \<noteq> Announced \<Longrightarrow> progress AppTurn t = Released" for t by (cases t) simp_all
  moreover have "stage_after progress us k Released = Released" for us
  proof (induction us)
    case (Cons u us)
    then show ?case by (cases u) (simp add: fleet.stays_at_rest)
  qed simp
  ultimately show ?thesis using assms keeps [OF iop] by simp
qed

section \<open>The cluster comes to rest\<close>


section \<open>A concrete cluster\<close>

text \<open>IstioOperators with a base of version 1.0 and a global value.\<close>

definition base_iop_spec :: iop_spec where
  "base_iop_spec = \<lparr>is_Profile = [], is_Tag = Some (StringValue ''1.0''),
     is_Components = Some \<lparr>ics_Base = Some \<lparr>ic_Enabled = Some True, ic_K8S = None\<rparr>, ics_Pilot = None,
       ics_IngressGateways = [], ics_EgressGateways = [], ics_Cni = None, ics_Ztunnel = None\<rparr>,
     is_MeshConfig = None,
     is_Values = Some (Struct [(''global'', StructValue (Struct [(''hub'', StringValue ''docker.io'')]))])\<rparr>"

definition base_iop :: "string \<Rightarrow> IstioOperator" where
  "base_iop n = \<lparr>iop_Meta = sample_meta\<lparr>om_Name := n\<rparr>, iop_Spec = Some base_iop_spec\<rparr>"

definition base_component :: "string \<Rightarrow> HelmComponent" where
  "base_component n = plain_component (buildName n ''base'') ''base'' ''1.0'' None"

definition base_app_spec :: "string \<Rightarrow> HelmAppSpec" where
  "base_app_spec n = \<lparr>spec_Components = Some [base_component n],
     spec_GlobalValues = Some (Struct [(''hub'', StringValue ''docker.io'')]),
     spec_Repo = Some \<lparr>repo_Name = ''istio'', repo_Url = ''https://istio-release.storage.googleapis.com/charts''\<rparr>\<rparr>"

lemma base_converts: "converts_to sample_lib ''profiles'' (base_iop n) (converted_app (base_iop n) [base_component n])"
  unfolding converts_to_def
proof (intro conjI allI impI)
  fix tr :: trace and i :: IstioOperator
  assume i: "key_of (iop_Meta i) = key_of (iop_Meta (base_iop n)) \<and> iop_Spec i = iop_Spec (base_iop n)"
  then have spec: "iop_Spec i = Some base_iop_spec"
    and names: "om_Name (iop_Meta i) = n" "om_Namespace (iop_Meta i) = ''default''"
    by (simp_all add: base_iop_def sample_meta_def key_of_def)
  have "converted_app i cs = converted_app (base_iop n) cs" for cs
    by (simp add: converted_app_def spec names) (simp add: base_iop_def sample_meta_def)
  moreover have "convert_components sample_lib i (iop_version base_iop_spec)
      (plain_component (buildName (om_Name (iop_Meta i)) ''base'') ''base'' (iop_version base_iop_spec) None)
      (plain_component (buildName (om_Name (iop_Meta i)) ''istiod'') ''istiod'' (iop_version base_iop_spec) None) =
    Returned (Inr [base_component n])"
    by (simp add: convert_components_def core_components_def Let_def spec names base_iop_spec_def iop_version_def
        is_enabled_def base_component_def)
  ultimately show "result_of (convertIopToHelmApp sample_lib ''profiles'' i) tr =
      Returned (Inr (converted_app (base_iop n) [base_component n]))"
    by (simp add: result_of_def convert_run [OF spec] sample_merge [OF spec])
qed (simp add: converted_app_def base_iop_def key_of_def)

lemma base_spec: "ha_Spec (converted_app (base_iop n) [base_component n]) = Some (base_app_spec n)"
  by (simp add: converted_app_def base_app_spec_def base_iop_def value_at_def) (simp add: base_iop_spec_def)

lemma base_values: "component_values sample_lib (base_app_spec n) (base_component n) = Some [(''hub'', VStr ''docker.io'')]"
  by (simp add: component_values_def sample_lib_def sample_AsMap_def base_app_spec_def base_component_def
      plain_component_def Let_def MergeValues.simps)

lemma sample_wanted: "wanted_spec sample_lib v w \<longleftrightarrow> w = v"
proof -
  have "component_DeepEqual sample_lib a b \<longleftrightarrow> a = b" for a b
    by (cases a; cases b) (auto simp: component_DeepEqual_def sample_lib_def)
  then have "component_DeepEqual sample_lib = (=)" by (simp add: fun_eq_iff)
  then show ?thesis
    by (cases v; cases w) (auto simp: wanted_spec_def spec_DeepEqual_def list.rel_eq sample_lib_def split: option.splits)
qed

lemma base_attainable: "attainable sample_lib ''profiles'' replay_helm replay_store (base_iop n)
  (converted_app (base_iop n) [base_component n]) (base_app_spec n)"
proof -
  have cs: "slice (spec_Components (base_app_spec n)) = [base_component n]" by (simp add: base_app_spec_def)
  have "pinned sample_lib replay_helm replay_store a (base_app_spec n) repo (base_component n)" for a repo
    using base_values by (simp add: pinned_def replay_store_def) (simp add: base_component_def plain_component_def)
  moreover have "read_back (Some (base_app_spec n)) = Some (base_app_spec n)" by (simp add: read_back_def base_app_spec_def)
  moreover have "\<exists>repo. spec_Repo (base_app_spec n) = Some repo" by (simp add: base_app_spec_def)
  ultimately show ?thesis by (simp add: attainable_def attainable_spec_def sample_wanted base_converts base_spec cs)
qed

text \<open>Two of them: the first has a HelmApp of an earlier version, with another component.\<close>

definition old_app :: HelmApp where
  "old_app = \<lparr>ha_Meta = sample_meta\<lparr>om_Labels := Some [(ManagedLabel, ManagedLabelValue)]\<rparr>, ha_Spec = Some sample_spec,
     ha_Status = Some \<lparr>st_Phase = Phase_SUCCEEDED, st_Components = [sample_status ''demo'']\<rparr>\<rparr>"

abbreviation demo_key :: key where "demo_key \<equiv> (''default'', ''demo'')"
abbreviation other_key :: key where "other_key \<equiv> (''default'', ''other'')"

definition base_server :: server where
  "base_server = \<lparr>sv_apps = [demo_key \<mapsto> old_app],
     sv_iops = [demo_key \<mapsto> base_iop ''demo'', other_key \<mapsto> base_iop ''other'']\<rparr>"

definition base_member :: "key \<Rightarrow> member" where
  "base_member k = \<lparr>mb_iop = base_iop (snd k), mb_new = converted_app (base_iop (snd k)) [base_component (snd k)],
     mb_spec = base_app_spec (snd k),
     mb_names = insert (buildName (snd k) ''base'') (if k = demo_key then {''demo''} else {})\<rparr>"

lemma base_keyed: "well_keyed base_server"
  by (simp add: well_keyed_def base_server_def base_iop_def old_app_def sample_meta_def key_of_def)

lemma replay_namespaced: "namespaced replay_store"
proof -
  have "snd (replay_step e (cur, m)) (ns, n) = m (ns, n)" if "ns \<noteq> cur" for e cur m ns n
    using that by (cases e) auto
  then show ?thesis
    by (simp add: namespaced_def replay_store_def replayed_snoc flip: replayed_ns) (metis prod.collapse)
qed

lemma base_works: "cluster_works (replay_kube base_server) (replay_view base_server) replay_helm replay_store"
proof -
  have "helm_uninstalls replay_helm" by (auto simp: helm_uninstalls_def replay_helm_def sample_helm_def split: list.splits)
  then show ?thesis
    by (simp add: cluster_works_def replay_finalizer_laws replay_laws [OF base_keyed] replay_store_laws replay_works
        replay_whole_releases replay_namespaced)
qed

lemma base_ready:
  assumes "fst k = ''default''"
  shows "ready sample_lib ''profiles'' replay_helm replay_store k (base_member k)"
proof -
  have "key_of (iop_Meta (base_iop (snd k))) = k" using assms by (cases k) (simp add: base_iop_def sample_meta_def key_of_def)
  moreover have "names_of (base_app_spec n) = {buildName n ''base''}" for n
    by (simp add: names_of_def base_app_spec_def base_component_def plain_component_def)
  ultimately show ?thesis using base_attainable by (simp add: ready_def base_member_def)
qed

lemma old_app_own: "own_app (replay_view base_server) demo_key (mb_names (base_member demo_key)) []"
proof -
  have "stays_as sample_spec False (mb_names (base_member demo_key)) old_app"
    by (auto simp: stays_as_def old_app_def sample_meta_def is_deleting_def managed_def label_of_def orphan_of_def
        base_member_def sample_status_def)
  moreover have "read_back (Some sample_spec) = Some sample_spec" "\<exists>repo. spec_Repo sample_spec = Some repo"
    "names_of sample_spec \<subseteq> mb_names (base_member demo_key)"
    by (simp_all add: read_back_def sample_spec_def names_of_def sample_component_def base_member_def)
  ultimately show ?thesis by (auto simp: own_app_def app_stays_def replay_view_def base_server_def)
qed


end
