(* ===== verification/Unsettled.thy ===== *)
theory Unsettled
  imports Settling
begin

text \<open>
  When runs of the HelmApp controller do not come to rest (internal/controller/helmapp.go): a component
  without values. Helm's storage leaves an empty configuration out of the release it encodes, so
  it is read back as the nil map, which \<open>hasConfigChanged\<close> tells from the empty map it is compared
  with.
\<close>

text \<open>A release is never read back with an empty map that is not nil; it has chart metadata.\<close>

definition omits_empty_config :: "helm_api \<Rightarrow> bool" where
  "omits_empty_config H \<longleftrightarrow> (\<forall>tr n rels. h_History H tr n = Inr rels \<longrightarrow>
     list_all (\<lambda>r. rel_Config r \<noteq> Some [] \<and> rel_ChartVersion r \<noteq> None) rels)"

definition readable_history :: "helm_api \<Rightarrow> bool" where
  "readable_history H \<longleftrightarrow> (\<forall>tr n m. h_History H tr n \<noteq> Inl (HelmError m))"

text \<open>Helm numbers the revisions of a release upwards: two upgrades of one release in a namespace, with
  nothing written in between, return different revisions.\<close>

definition revisions_grow :: "helm_api \<Rightarrow> bool" where
  "revisions_grow H \<longleftrightarrow> (\<forall>tr es a a' n c c' v v' r r'.
     fst (h_Upgrade H tr a n c v) = Some r \<and>
     fst (h_Upgrade H (tr @ HelmUpgrade a n c v # es) a' n c' v') = Some r' \<and>
     list_all (\<lambda>e. \<not> helm_write e) es \<and> current_ns (tr @ es) = current_ns tr \<longrightarrow>
     rel_Version r < rel_Version r')"

lemma revisions_growD:
  "revisions_grow H \<Longrightarrow> fst (h_Upgrade H tr a n c v) = Some r \<Longrightarrow>
   fst (h_Upgrade H (tr @ HelmUpgrade a n c v # es) a' n c' v') = Some r' \<Longrightarrow>
   list_all (\<lambda>e. \<not> helm_write e) es \<Longrightarrow> current_ns (tr @ es) = current_ns tr \<Longrightarrow>
   rel_Version r < rel_Version r'"
  unfolding revisions_grow_def by blast

lemma deep_equal_empty: "gomap_deep_equal m (Some []) \<longleftrightarrow> m = Some []"
  by (cases m) (auto simp: gomap_deep_equal_def)

lemma valueless_write:
  assumes "omits_empty_config H" and "readable_history H" and "helm_works H"
    and "ha_Spec app = Some spec" and "spec_Repo spec = Some repo" and "component_values L spec c = Some []"
  obtains w where "helm_writes (events_of (reconcileComponent L H app c) tr) = [w]" "release_of w = Some (hc_Name c)"
proof -
  obtain p chart where look: "chart_lookup H (action_for app c repo (hc_Name c)) (hc_Chart c) tr =
      (Inr chart, tr @ [LocateChart (action_for app c repo (hc_Name c)) (hc_Chart c), LoadChart p])"
    using chart_found [OF works_finds [OF assms(3)]] by blast
  let ?t = "tr @ [LocateChart (action_for app c repo (hc_Name c)) (hc_Chart c), LoadChart p]"
  have changed: "hasConfigChanged (last (r # rs)) (Some []) (hc_Version c) = Returned True"
    if "h_History H ?t (hc_Name c) = Inr (r # rs)" for r rs
  proof -
    have "list_all (\<lambda>r. rel_Config r \<noteq> Some [] \<and> rel_ChartVersion r \<noteq> None) (r # rs)"
      using assms(1) that unfolding omits_empty_config_def by blast
    then have "rel_Config (last (r # rs)) \<noteq> Some []" "rel_ChartVersion (last (r # rs)) \<noteq> None"
      using last_in_set [of "r # rs"] unfolding list_all_iff by blast+
    then show ?thesis by (auto simp: hasConfigChanged_def deep_equal_empty simp del: last.simps)
  qed
  have "chosen_write app c repo chart (Some []) (h_History H ?t (hc_Name c)) \<noteq> []"
    using changed assms(2) by (auto simp: chosen_write_def Let_def readable_history_def
        split: sum.splits helm_error.splits list.splits)
  moreover have "helm_writes (events_of (reconcileComponent L H app c) tr) =
      chosen_write app c repo chart (Some []) (h_History H ?t (hc_Name c))"
    by (simp add: component_writes_eq [OF assms(4,5)] look assms(6))
  ultimately show ?thesis
    using chosen_write_cases [of app c repo chart "Some []" "h_History H ?t (hc_Name c)"] that by auto
qed

lemma component_statuses_includes:
  assumes "whole_releases H" and "ha_Spec app = Some spec" and "spec_Repo spec = Some repo"
  shows "\<exists>rest. events_of (component_statuses L H app spec) tr =
    events_of (for_each (reconcileComponent L H app) (slice (spec_Components spec))) tr @ rest"
  by (simp add: component_statuses_def events_bind emits_intros split: outcome.splits option.splits)

lemma valueless_apply:
  assumes "omits_empty_config H" and "readable_history H" and "helm_works H" and "whole_releases H"
    and "ha_Spec app = Some spec" and "spec_Repo spec = Some repo"
    and "c \<in> set (slice (spec_Components spec))" and "component_values L spec c = Some []"
  shows "\<exists>w \<in> set (events_of (HelmApp_apply L K H app) tr). helm_write w \<and> release_of w = Some (hc_Name c)"
proof -
  let ?t = "tr @ [NewRegistryClient, HelmInit (om_Namespace (ha_Meta app))]"
  let ?loop = "for_each (reconcileComponent L H app) (slice (spec_Components spec))"
  obtain rs where "result_of ?loop ?t = Returned rs"
    using reconcile_component.loop_total [of "slice (spec_Components spec)" L H app "\<lambda>_ _. True" ?t]
      reconcileComponent_whole [OF assms(4-6)] by blast
  from reconcile_component.loop_includes [OF this assms(7)] obtain t where
    t: "set (events_of (reconcileComponent L H app c) t) \<subseteq> set (events_of ?loop ?t)" by blast
  obtain w where w: "helm_writes (events_of (reconcileComponent L H app c) t) = [w]" "release_of w = Some (hc_Name c)"
    using valueless_write [OF assms(1-3,5,6,8)] by blast
  have "w \<in> set (helm_writes (events_of (reconcileComponent L H app c) t))" by (simp add: w(1))
  then have "w \<in> set (events_of (reconcileComponent L H app c) t)" "helm_write w" by simp_all
  moreover have "set (events_of ?loop ?t) \<subseteq> set (events_of (HelmApp_apply L K H app) tr)"
    using component_statuses_includes [OF assms(4-6), of L ?t]
    by (auto simp: apply_events [OF init_works [OF assms(3)] assms(5)])
  ultimately show ?thesis using t w(2) by blast
qed

text \<open>Working off a queue of keys, as the manager does.\<close>

interpretation helmapp_queue: trace_loop "HelmApp_Reconcile L K H" "\<lambda>key e. True" for L K H
  by unfold_locales (rule HelmApp_Reconcile_extends)

text \<open>The API server keeps showing the HelmApp with this spec, its finalizer, and no deletion.\<close>

definition keeps_showing :: "kube_api \<Rightarrow> key \<Rightarrow> HelmAppSpec \<Rightarrow> bool" where
  "keeps_showing K key spec \<longleftrightarrow> (\<forall>tr. \<exists>app. k_GetHelmApp K tr key = Inr app \<and> ha_Spec app = Some spec \<and>
     \<not> is_deleting (ha_Meta app) \<and> k_ContainsFinalizer K (om_Finalizers (ha_Meta app)) HelmAppFinalizer)"

text \<open>What it shows under a key is in the namespace of that key.\<close>

definition filed_under :: "kube_api \<Rightarrow> key \<Rightarrow> bool" where
  "filed_under K key \<longleftrightarrow> (\<forall>tr app. k_GetHelmApp K tr key = Inr app \<longrightarrow> om_Namespace (ha_Meta app) = fst key)"

lemma shown_run:
  assumes "keeps_showing K key spec"
  obtains app where "k_GetHelmApp K tr key = Inr app" "ha_Spec app = Some spec" "\<not> is_deleting (ha_Meta app)"
    "events_of (HelmApp_Reconcile L K H key) tr = GetHelmApp key # events_of (HelmApp_apply L K H app) (tr @ [GetHelmApp key])"
    "result_of (HelmApp_Reconcile L K H key) tr = result_of (HelmApp_apply L K H app) (tr @ [GetHelmApp key])"
proof -
  obtain app where app: "k_GetHelmApp K tr key = Inr app" "ha_Spec app = Some spec" "\<not> is_deleting (ha_Meta app)"
    "k_ContainsFinalizer K (om_Finalizers (ha_Meta app)) HelmAppFinalizer"
    using assms unfolding keeps_showing_def by blast
  have "result_of (HelmApp_Reconcile L K H key) tr = result_of (HelmApp_apply L K H app) (tr @ [GetHelmApp key])"
    using app by (simp add: HelmApp_Reconcile_def ensure_finalizer_def result_bind_call)
  moreover have "events_of (HelmApp_Reconcile L K H key) tr =
      GetHelmApp key # events_of (HelmApp_apply L K H app) (tr @ [GetHelmApp key])"
    using app by (simp add: HelmApp_Reconcile_events ensure_finalizer_def events_bind)
  ultimately show ?thesis using that app(1-3) by blast
qed

text \<open>A component without values never settles: however often the HelmApp is reconciled, every run
  installs or upgrades the release of that component, although neither the HelmApp nor the chart
  changes and Helm does all it is asked to.\<close>

theorem valueless_never_settles:
  assumes "omits_empty_config H" and "readable_history H" and "helm_works H" and "whole_releases H"
    and "keeps_showing K key spec" and "spec_Repo spec = Some repo"
    and "c \<in> set (slice (spec_Components spec))" and "component_values L spec c = Some []"
  shows "runs \<le> length (filter (\<lambda>e. helm_write e \<and> release_of e = Some (hc_Name c))
    (events_of (for_each (HelmApp_Reconcile L K H) (replicate runs key)) tr))"
proof (induction runs arbitrary: tr)
  case (Suc n)
  let ?P = "\<lambda>e. helm_write e \<and> release_of e = Some (hc_Name c)"
  obtain app where app: "ha_Spec app = Some spec"
    and run: "events_of (HelmApp_Reconcile L K H key) tr =
        GetHelmApp key # events_of (HelmApp_apply L K H app) (tr @ [GetHelmApp key])"
      "result_of (HelmApp_Reconcile L K H key) tr = result_of (HelmApp_apply L K H app) (tr @ [GetHelmApp key])"
    by (rule shown_run [OF assms(5)])
  obtain w where "w \<in> set (events_of (HelmApp_apply L K H app) (tr @ [GetHelmApp key]))" "?P w"
    using valueless_apply [OF assms(1-4) app assms(6-8)] by blast
  then have "filter ?P (events_of (HelmApp_Reconcile L K H key) tr) \<noteq> []"
    by (auto simp: filter_empty_conv run(1))
  moreover obtain r where "result_of (HelmApp_Reconcile L K H key) tr = Returned r"
    using HelmApp_apply_whole [OF assms(4) app assms(6)] unfolding run(2)
    by (meson outcome.exhaust)
  ultimately show ?case
    using Suc.IH [of "tr @ events_of (HelmApp_Reconcile L K H key) tr"]
    by (cases "filter ?P (events_of (HelmApp_Reconcile L K H key) tr)")
       (auto simp: events_bind HelmApp_Reconcile_extends emits_intros)
qed simp


lemma replay_unsettled_laws: "omits_empty_config replay_helm" "readable_history replay_helm"
proof -
  have "list_all (\<lambda>r. rel_Config r \<noteq> Some [] \<and> rel_ChartVersion r \<noteq> None) rels"
    if "h_History replay_helm tr n = Inr rels" for tr n rels
    unfolding replay_history [OF that] by (rule replay_releases) auto
  then show "omits_empty_config replay_helm" unfolding omits_empty_config_def by blast
  show "readable_history replay_helm"
    by (simp add: readable_history_def replay_helm_def split: list.splits)
qed

definition valueless_app :: HelmApp where
  "valueless_app = sample_app\<lparr>ha_Meta := sample_meta\<lparr>om_Finalizers := [HelmAppFinalizer]\<rparr>\<rparr>"

theorem valueless_never_settles_witness:
  "100 \<le> length (filter (\<lambda>e. helm_write e \<and> release_of e = Some ''demo'')
    (events_of (for_each (HelmApp_Reconcile sample_lib (demo_kube valueless_app) replay_helm)
       (replicate 100 (''default'', ''demo''))) []))"
proof -
  have server: "keeps_showing (demo_kube valueless_app) (''default'', ''demo'') sample_spec"
    by (simp add: keeps_showing_def sample_kube_def valueless_app_def sample_app_def sample_meta_def is_deleting_def)
  have repo: "spec_Repo sample_spec = Some \<lparr>repo_Name = ''istio'', repo_Url = ''https://charts''\<rparr>"
    by (simp add: sample_spec_def)
  have c: "sample_component \<in> set (slice (spec_Components sample_spec))" by (simp add: sample_spec_def)
  have vs: "component_values sample_lib sample_spec sample_component = Some []"
    by (simp add: sample_defs component_values_def Let_def MergeValues.simps)
  have name: "hc_Name sample_component = ''demo''" by (simp add: sample_component_def)
  show ?thesis
    using valueless_never_settles [OF replay_unsettled_laws replay_works replay_whole_releases server repo c vs, of 100]
    unfolding name .
qed


section \<open>Every upgrade changes the status\<close>

text \<open>An event that writes nothing to Helm and keeps the namespace.\<close>

definition quiet_event :: "event \<Rightarrow> bool" where
  "quiet_event e \<longleftrightarrow> \<not> helm_write e \<and> (\<forall>ns. e \<noteq> HelmInit ns)"

lemma quiet_events:
  "list_all quiet_event es \<Longrightarrow> list_all (\<lambda>e. \<not> helm_write e) es \<and> current_ns (tr @ es) = current_ns tr"
  using current_ns_append [of es tr] by (auto simp: list_all_iff quiet_event_def)

lemma upgraded_version:
  assumes "helm_writes (events_of (reconcileComponent L H app c) tr) = [HelmUpgrade a n chart v]"
    and "result_of (reconcileComponent L H app c) tr = Returned (st, None)"
    and "helm_works H"
  obtains pre rest r where "tr @ events_of (reconcileComponent L H app c) tr = pre @ HelmUpgrade a n chart v # rest"
    "n = hc_Name c" "fst (h_Upgrade H pre a n chart v) = Some r" "hs_Version st = Itoa (rel_Version r)"
    "\<exists>es. pre = tr @ es \<and> list_all quiet_event (es @ rest)"
proof -
  obtain spec where spec: "ha_Spec app = Some spec"
    using assms(2) reconcileComponent_panics [of app L H c tr] by (cases "ha_Spec app") (auto simp: result_of_def)
  obtain repo where repo: "spec_Repo spec = Some repo"
    using assms(2) spec reconcileComponent_panics [of app L H c tr] by (cases "spec_Repo spec") (auto simp: result_of_def)
  obtain p ch where look: "chart_lookup H (action_for app c repo (hc_Name c)) (hc_Chart c) tr =
      (Inr ch, tr @ [LocateChart (action_for app c repo (hc_Name c)) (hc_Chart c), LoadChart p])"
    using chart_found [OF works_finds [OF assms(3)]] by blast
  let ?t = "tr @ [LocateChart (action_for app c repo (hc_Name c)) (hc_Chart c), LoadChart p]"
  let ?vs = "component_values L spec c" and ?upg = "action_for app c repo []"
  let ?pre = "?t @ [HelmHistory (hc_Name c)]"
  have chosen: "chosen_write app c repo ch ?vs (h_History H ?t (hc_Name c)) = [HelmUpgrade a n chart v]"
    using assms(1) by (simp add: component_writes_eq [OF spec repo] look)
  then have w: "a = ?upg" "n = hc_Name c" "chart = ch" "v = ?vs"
    by (auto simp: chosen_write_def Let_def split: sum.splits helm_error.splits list.splits if_splits)
  obtain r where r: "h_Upgrade H ?pre ?upg (hc_Name c) ch ?vs = (Some r, None)"
    using assms(3) unfolding helm_works_def by blast
  have "fst (run_state (apply_release H app c repo ch ?vs) ?t) = Returned (Some r, [])"
    using chosen r by (auto simp: apply_release_run chosen_write_def Let_def
        split: sum.splits helm_error.splits list.splits if_splits outcome.splits bool.splits)
  then have "hs_Version st = Itoa (rel_Version r)"
    using assms(2) unfolding result_of_def reconcileComponent_run [OF spec repo] look
    by (auto simp: component_result_def release_report_run Let_def
        split: prod.splits outcome.splits option.splits sum.splits)
  moreover obtain rest where ev: "tr @ events_of (reconcileComponent L H app c) tr = ?pre @ HelmUpgrade a n chart v # rest"
    and rest: "list_all (\<lambda>e. \<not> helm_write e) rest"
    using component_events [OF spec repo look, of L] chosen by (metis append.assoc append_Cons append_Nil)
  moreover have "events_of (reconcileComponent L H app c) tr =
      [LocateChart (action_for app c repo (hc_Name c)) (hc_Chart c), LoadChart p, HelmHistory (hc_Name c)] @
      HelmUpgrade a n chart v # rest" using ev by simp
  then have "list_all quiet_event ([LocateChart (action_for app c repo (hc_Name c)) (hc_Chart c), LoadChart p,
      HelmHistory (hc_Name c)] @ rest)"
    using events_emits [OF reconcileComponent_no_init [of L H app c], of tr] rest
    by (auto simp: quiet_event_def list_all_iff)
  ultimately show ?thesis using that [of ?pre rest r] r w by auto
qed

text \<open>Upgrades feed themselves: of two runs that upgrade a component, with nothing written to Helm in
  between, the later one reports another revision, so the status it writes differs from the one
  before and is a change of the HelmApp, which is what the controller is called for.\<close>

theorem upgrades_change_the_status:
  assumes "revisions_grow H" and "helm_works H"
    and "helm_writes (events_of (reconcileComponent L H app c) tr) = [HelmUpgrade a n ch v]"
    and "result_of (reconcileComponent L H app c) tr = Returned (st, None)"
    and "tr' = tr @ events_of (reconcileComponent L H app c) tr @ es"
    and "list_all (\<lambda>e. \<not> helm_write e) es" and "current_ns tr' = current_ns tr"
    and "helm_writes (events_of (reconcileComponent L H app' c) tr') = [HelmUpgrade a' n' ch' v']"
    and "result_of (reconcileComponent L H app' c) tr' = Returned (st', None)"
  shows "hs_Version st \<noteq> hs_Version st'"
proof -
  obtain pre rest r xs where a: "tr @ events_of (reconcileComponent L H app c) tr = pre @ HelmUpgrade a n ch v # rest"
      "n = hc_Name c" "fst (h_Upgrade H pre a n ch v) = Some r" "hs_Version st = Itoa (rel_Version r)"
    and xs: "pre = tr @ xs" "list_all quiet_event (xs @ rest)"
    using upgraded_version [OF assms(3,4,2)] by metis
  obtain pre' rest' r' ys where b: "n' = hc_Name c" "fst (h_Upgrade H pre' a' n' ch' v') = Some r'"
      "hs_Version st' = Itoa (rel_Version r')" and ys: "pre' = tr' @ ys" "list_all quiet_event (ys @ rest')"
    using upgraded_version [OF assms(8,9,2)] by metis
  have tr': "tr' = pre @ HelmUpgrade a n ch v # (rest @ es)" using assms(5) a(1) by (metis append.assoc append_Cons)
  then have pre': "pre' = pre @ HelmUpgrade a n ch v # (rest @ es @ ys)" using ys(1) by simp
  have quiet: "list_all quiet_event rest" "list_all quiet_event xs" "list_all quiet_event ys" using xs ys by simp_all
  have "current_ns tr' = current_ns (pre @ rest @ es)" by (simp add: tr' current_ns_def)
  then have "current_ns (pre @ rest @ es @ ys) = current_ns pre"
    using assms(7) quiet_events [OF quiet(3), of "pre @ rest @ es"] quiet_events [OF quiet(2), of tr] by (simp add: xs(1))
  moreover have "list_all (\<lambda>e. \<not> helm_write e) (rest @ es @ ys)"
    using assms(6) quiet_events [OF quiet(1)] quiet_events [OF quiet(3)] by simp
  ultimately have "rel_Version r < rel_Version r'"
    using revisions_growD [OF assms(1) a(3)] b(2) unfolding pre' b(1) a(2) [symmetric] by blast
  then have "Itoa (rel_Version r) \<noteq> Itoa (rel_Version r')" by (metis read_int_Itoa less_irrefl)
  then show ?thesis using a(4) b(3) by simp
qed


lemma replay_revisions_grow: "revisions_grow replay_helm"
proof -
  have keep: "snd (replayed (tr @ es)) k = snd (replayed tr) k" if "list_all (\<lambda>e. \<not> helm_write e) es" for tr es k
    using that
  proof (induction es rule: rev_induct)
    case (snoc e es)
    have "snd (replay_step e s) k = snd s k" if "\<not> helm_write e" for s
      using replay_frame [of e "snd k" s "fst k"] that by simp
    with snoc show ?case by (simp add: replayed_snoc flip: append_assoc)
  qed simp
  have "length (snd (replayed (tr @ HelmUpgrade a n c v # es)) (current_ns tr, n)) =
      Suc (length (snd (replayed tr) (current_ns tr, n)))" if "list_all (\<lambda>e. \<not> helm_write e) es" for tr a n c v es
    using keep [OF that, of "tr @ [HelmUpgrade a n c v]"]
    by (cases "replayed tr") (simp add: replayed_snoc flip: replayed_ns)
  moreover have "current_ns (tr @ HelmUpgrade a n c v # es) = current_ns (tr @ es)" for tr a n c v es
    by (simp add: current_ns_def)
  ultimately show ?thesis
    by (auto simp: revisions_grow_def replay_helm_def replayed_ns)
qed

definition demo_action :: "string \<Rightarrow> chart_action" where
  "demo_action n = \<lparr>ca_Namespace = ''default'', ca_ReleaseName = n, ca_Version = ''1.0'', ca_RepoURL = ''https://charts''\<rparr>"

definition demo_events :: "event list" where
  "demo_events = [LocateChart (demo_action ''demo'') ''gateway'', LoadChart ''gateway'', HelmHistory ''demo'',
     HelmUpgrade (demo_action []) ''demo'' ''gateway'' (Some []), ParseManifest []]"

lemma demo_run:
  assumes "snd (replayed tr) (fst (replayed tr), ''demo'') = rs @ [new_release k (Some [])]"
  shows "\<exists>st. run_state (reconcileComponent sample_lib replay_helm sample_app sample_component) tr =
    (Returned (st, None), tr @ demo_events)"
proof -
  have eqs: "ha_Spec sample_app = Some sample_spec"
    "spec_Repo sample_spec = Some \<lparr>repo_Name = ''istio'', repo_Url = ''https://charts''\<rparr>"
    by (simp_all add: sample_app_def sample_spec_def)
  have vs: "component_values sample_lib sample_spec sample_component = Some []"
    by (simp add: sample_defs component_values_def Let_def MergeValues.simps)
  have c: "hc_Name sample_component = ''demo''" "hc_Chart sample_component = ''gateway''" "hc_Version sample_component = ''1.0''"
    by (simp_all add: sample_component_def)
  have a: "action_for sample_app sample_component \<lparr>repo_Name = ''istio'', repo_Url = ''https://charts''\<rparr> n = demo_action n" for n
    by (simp add: action_for_def demo_action_def sample_app_def sample_meta_def c)
  have same: "replayed (tr @ [LocateChart x y, LoadChart z]) = replayed tr" for x y z
    by (cases "replayed tr") (simp add: replayed_def)
  have look: "chart_lookup replay_helm x y tr = (Inr y, tr @ [LocateChart x y, LoadChart y])" for x y
    by (simp add: chart_lookup_def replay_helm_def sample_helm_def)
  obtain r1 rs1 where rs: "rs @ [new_release k (Some [])] = r1 # rs1" by (cases rs) auto
  have hist: "h_History replay_helm (tr @ [LocateChart x y, LoadChart y]) ''demo'' = Inr (r1 # rs1)" for x y
    using assms by (simp add: replay_helm_def same rs)
  have l: "last (r1 # rs1) = new_release k (Some [])" by (simp flip: rs)
  have "hasConfigChanged (last (r1 # rs1)) (Some []) ''1.0'' = Returned True"
    unfolding l by (simp add: hasConfigChanged_def deep_equal_nil)
  then show ?thesis
    by (simp add: reconcileComponent_run [OF eqs] c a look apply_release_run vs hist Let_def
        release_report_run component_result_def demo_events_def del: last.simps)
       (simp add: replay_helm_def release_report_run sample_release_def sample_helm_def new_release_def component_result_def)
qed

theorem upgrades_change_the_status_witness:
  "\<exists>st st'. hs_Version st \<noteq> hs_Version st' \<and>
    result_of (reconcileComponent sample_lib replay_helm sample_app sample_component)
      [HelmInstall (demo_action ''demo'') ''gateway'' (Some [])] = Returned (st, None) \<and>
    result_of (reconcileComponent sample_lib replay_helm sample_app sample_component)
      ([HelmInstall (demo_action ''demo'') ''gateway'' (Some [])] @ demo_events) = Returned (st', None)"
proof -
  let ?tr = "[HelmInstall (demo_action ''demo'') ''gateway'' (Some [])]"
  let ?run = "reconcileComponent sample_lib replay_helm sample_app sample_component"
  have "snd (replayed ?tr) (fst (replayed ?tr), ''demo'') = [] @ [new_release 1 (Some [])]"
    by (simp add: replayed_def demo_action_def)
  from demo_run [OF this] obtain st where st: "run_state ?run ?tr = (Returned (st, None), ?tr @ demo_events)" by blast
  have "snd (replayed (?tr @ demo_events)) (fst (replayed (?tr @ demo_events)), ''demo'') =
      [new_release 1 (Some [])] @ [new_release 2 (Some [])]"
    by (simp add: replayed_def demo_action_def demo_events_def numeral_2_eq_2)
  from demo_run [OF this] obtain st' where
    st': "run_state ?run (?tr @ demo_events) = (Returned (st', None), (?tr @ demo_events) @ demo_events)" by blast
  have w: "helm_writes demo_events = [HelmUpgrade (demo_action []) ''demo'' ''gateway'' (Some [])]"
    by (simp add: demo_events_def)
  have ns: "current_ns (?tr @ demo_events) = current_ns ?tr" by (simp add: current_ns_def demo_events_def)
  have ev: "events_of ?run ?tr = demo_events" "events_of ?run (?tr @ demo_events) = demo_events"
    using st st' by (simp_all add: events_of_def)
  have differ: "hs_Version st \<noteq> hs_Version st'"
    by (rule upgrades_change_the_status [OF replay_revisions_grow replay_works, of sample_lib sample_app
          sample_component ?tr _ _ _ _ st "?tr @ demo_events" "[]" sample_app])
       (use st st' w ns ev in \<open>simp_all add: result_of_def\<close>)
  have "result_of ?run ?tr = Returned (st, None)" "result_of ?run (?tr @ demo_events) = Returned (st', None)"
    by (simp_all only: result_of_def st st' fst_conv)
  with differ show ?thesis by blast
qed

end
