(* ===== verification/Failed_Releases.thy ===== *)
theory Failed_Releases
  imports Unsettled
begin

text \<open>
  What becomes of a release that failed (internal/controller/helmapp.go, \<open>Reconcile\<close> and
  \<open>reconcileComponent\<close>). Helm records a failed install or upgrade as a release of status \<open>failed\<close>, with
  the configuration and the chart it was given. \<open>hasConfigChanged\<close> compares these and not the
  status, so the next run counts the release as unchanged.
\<close>

section \<open>Laws\<close>

text \<open>The history is what Helm's storage holds for the release in the current namespace.\<close>

definition reads_store :: "helm_api \<Rightarrow> helm_store \<Rightarrow> bool" where
  "reads_store H S \<longleftrightarrow> (\<forall>tr n rels. h_History H tr n = Inr rels \<longrightarrow> rels = hs_history S tr (current_ns tr) n)"

text \<open>The API server files the HelmApp under its key and accepts its status.\<close>

definition takes_status :: "kube_api \<Rightarrow> key \<Rightarrow> bool" where
  "takes_status K key \<longleftrightarrow> filed_under K key \<and> (\<forall>tr app. \<exists>b. k_UpdateHelmAppStatus K tr app = Inr b)"

section \<open>A failed release counts as unchanged\<close>

definition failed_as_wanted ::
    "lib_api \<Rightarrow> helm_store \<Rightarrow> HelmAppSpec \<Rightarrow> string \<Rightarrow> HelmComponent \<Rightarrow> trace \<Rightarrow> bool" where
  "failed_as_wanted L S spec ns c tr \<longleftrightarrow> settled L S spec ns c tr \<and>
     rel_Status (hd (hs_history S tr ns (hc_Name c))) = Some StatusFailed"

definition spares :: "string \<Rightarrow> event \<Rightarrow> bool" where
  "spares n = (\<lambda>e. \<not> helm_write e \<or> release_of e \<noteq> Some n)"

lemma failed_frame:
  assumes "helm_store_laws H S" and "failed_as_wanted L S spec ns c tr" and "list_all (spares (hc_Name c)) es"
  shows "failed_as_wanted L S spec ns c (tr @ es)"
  using assms(2) settled_frame [OF assms(1)] history_frame [OF assms(1)] assms(3) [unfolded spares_def]
  by (simp add: failed_as_wanted_def)

lemma failed_component:
  assumes "helm_store_laws H S" and "reads_store H S" and "helm_finds H"
    and "ha_Spec app = Some spec" and "spec_Repo spec = Some repo"
    and "failed_as_wanted L S spec (current_ns tr) c tr"
  shows "\<exists>y. result_of (reconcileComponent L H app c) tr = Returned y \<and> failed_status (fst y)"
proof -
  obtain p chart where look: "chart_lookup H (action_for app c repo (hc_Name c)) (hc_Chart c) tr =
      (Inr chart, tr @ [LocateChart (action_for app c repo (hc_Name c)) (hc_Chart c), LoadChart p])"
    by (rule chart_found [OF assms(3)])
  let ?t = "tr @ [LocateChart (action_for app c repo (hc_Name c)) (hc_Chart c), LoadChart p]"
  have ns: "current_ns ?t = current_ns tr" by (simp add: current_ns_append)
  have f: "failed_as_wanted L S spec (current_ns ?t) c ?t"
    unfolding ns by (rule failed_frame [OF assms(1,6)]) (simp add: spares_def)
  then have "hs_history S ?t (current_ns ?t) (hc_Name c) \<noteq> []" by (simp add: failed_as_wanted_def settled_def)
  from store_history [OF assms(1) this] obtain r rs where h: "h_History H ?t (hc_Name c) = Inr (r # rs)"
    by (metis list.exhaust)
  then have "hs_history S ?t (current_ns ?t) (hc_Name c) = r # rs" using assms(2) by (metis reads_store_def)
  with f have "hasConfigChanged (last (r # rs)) (component_values L spec c) (hc_Version c) = Returned False"
    "rel_Status r = Some StatusFailed"
    by (simp_all add: failed_as_wanted_def settled_def)
  with h show ?thesis
    by (auto simp: result_of_def reconcileComponent_run [OF assms(4,5)] look apply_release_run Let_def
        release_report_run component_result_def split: sum.splits)
qed

section \<open>A run with a failed release\<close>

lemma failed_loop:
  assumes "helm_store_laws H S" and "reads_store H S" and "helm_finds H" and "whole_releases H"
    and "ha_Spec app = Some spec" and "spec_Repo spec = Some repo"
    and "failed_as_wanted L S spec (current_ns tr) c tr" and "\<And>x. x \<in> set cs \<Longrightarrow> x \<noteq> c \<Longrightarrow> hc_Name x \<noteq> hc_Name c"
  shows "\<exists>rs. result_of (for_each (reconcileComponent L H app) cs) tr = Returned rs \<and>
    list_all2 (\<lambda>x y. x = c \<longrightarrow> failed_status (fst y)) cs rs \<and>
    list_all (spares (hc_Name c)) (events_of (for_each (reconcileComponent L H app) cs) tr)"
proof -
  let ?I = "\<lambda>t. current_ns t = current_ns tr \<and> failed_as_wanted L S spec (current_ns tr) c t \<and>
    (\<exists>es. t = tr @ es \<and> list_all (spares (hc_Name c)) es)"
  have "\<exists>rs. result_of (for_each (reconcileComponent L H app) cs) tr = Returned rs \<and>
      list_all2 (\<lambda>x y. x = c \<longrightarrow> failed_status (fst y)) cs rs \<and>
      ?I (tr @ events_of (for_each (reconcileComponent L H app) cs) tr)"
  proof (rule reconcile_component.loop_run [where I = ?I])
    fix x t assume x: "x \<in> set cs" and I: "?I t"
    let ?es = "events_of (reconcileComponent L H app x) t"
    have "list_all (spares (hc_Name c)) ?es"
    proof (cases "x = c")
      case True
      then have "helm_writes ?es = []"
        using component_quiet [OF assms(1,5,6), where c = c and tr = t] I by (auto simp: failed_as_wanted_def)
      then show ?thesis by (auto simp: list_all_iff filter_empty_conv spares_def)
    next
      case False
      show ?thesis
        by (rule list.pred_mono_strong [OF events_emits [OF reconcile_component.emits_own]])
          (use assms(8) [OF x False] in \<open>auto simp: component_event_def spares_def\<close>)
    qed
    then have keeps: "?I (t @ ?es)"
      using I failed_frame [OF assms(1)] current_ns_append [OF events_emits [OF reconcileComponent_no_init]] by auto
    obtain y where y: "result_of (reconcileComponent L H app x) t = Returned y"
      using reconcileComponent_whole [OF assms(4-6)] by blast
    have "x = c \<longrightarrow> failed_status (fst y)"
      using failed_component [OF assms(1-3,5,6), of L t c] I y by auto
    with y keeps show "\<exists>y. result_of (reconcileComponent L H app x) t = Returned y \<and>
        (x = c \<longrightarrow> failed_status (fst y)) \<and> ?I (t @ ?es)" by blast
  qed (use assms(7) in simp)
  then show ?thesis by auto
qed

lemma failed_apply:
  assumes "helm_store_laws H S" and "reads_store H S" and "helm_finds H" and "whole_releases H"
    and "ha_Spec app = Some spec" and "spec_Repo spec = Some repo" and "\<not> is_deleting (ha_Meta app)"
    and "failed_as_wanted L S spec (om_Namespace (ha_Meta app)) c tr"
    and "c \<in> set (slice (spec_Components spec))" and "distinct (map hc_Name (slice (spec_Components spec)))"
    and "\<And>tr a. \<exists>b. k_UpdateHelmAppStatus K tr a = Inr b"
  shows "result_of (HelmApp_apply L K H app) tr = Returned (requeue_after failedAfter, None) \<and>
    list_all (spares (hc_Name c)) (events_of (HelmApp_apply L K H app) tr)"
proof -
  let ?ns = "om_Namespace (ha_Meta app)" and ?cs = "slice (spec_Components spec)"
  let ?t = "tr @ [NewRegistryClient, HelmInit ?ns]" and ?loop = "for_each (reconcileComponent L H app) ?cs"
  note init = finds_init [OF assms(3), of ?ns tr]
  have ns: "current_ns ?t = ?ns" using current_ns_snoc [of "tr @ [NewRegistryClient]" "HelmInit ?ns"] by simp
  have start: "failed_as_wanted L S spec (current_ns ?t) c ?t"
    unfolding ns by (rule failed_frame [OF assms(1,8)]) (simp add: spares_def)
  have others: "hc_Name x \<noteq> hc_Name c" if "x \<in> set ?cs" "x \<noteq> c" for x
    using assms(9,10) that by (auto simp: distinct_map dest: inj_onD)
  obtain orphans rs failed where ev: "events_of (HelmApp_apply L K H app) tr = [NewRegistryClient, HelmInit ?ns] @
      events_of ?loop ?t @ orphans @ [UpdateHelmAppStatus (reported_app app (map fst rs @ failed))]"
    and orphans: "list_all (\<lambda>e. \<exists>n. orphan_of app spec n \<and> uninstall_event n e) orphans"
    and ss: "result_of (component_statuses L H app spec) ?t = Returned (map fst rs @ failed)"
    and rs: "result_of ?loop ?t = Returned rs"
    by (rule apply_trace [OF init assms(4-6) HOL.refl, where L = L and K = K])
  from failed_loop [OF assms(1-6) start, of ?cs] others rs
  have each: "list_all2 (\<lambda>x y. x = c \<longrightarrow> failed_status (fst y)) ?cs rs"
    and quiet: "list_all (spares (hc_Name c)) (events_of ?loop ?t)" by auto
  from assms(9) obtain i where "i < length ?cs" "?cs ! i = c" by (metis in_set_conv_nth)
  with list_all2_nthD [OF each, of i] list_all2_lengthD [OF each] have "list_ex failed_status (map fst rs)"
    by (auto simp: list_ex_iff intro!: bexI [of _ "rs ! i"])
  then have phase: "calculateOverallPhase app (map fst rs @ failed) = Phase_FAILED"
    using assms(7) by (auto simp: calculateOverallPhase_eq)
  obtain b where "k_UpdateHelmAppStatus K (?t @ events_of (component_statuses L H app spec) ?t)
      (reported_app app (map fst rs @ failed)) = Inr b" using assms(11) by blast
  then have "result_of (HelmApp_apply L K H app) tr = Returned (requeue_after failedAfter, None)"
    by (simp add: result_of_def [of "HelmApp_apply L K H app"] apply_run [OF init assms(5)] ss phase)
  moreover have "hc_Name c \<in> names_of spec" using assms(9) by (simp add: names_of_def)
  then have "list_all (spares (hc_Name c)) orphans"
    using orphans by (auto simp: list_all_iff orphan_of_def uninstall_event_def spares_def)
  then have "list_all (spares (hc_Name c)) (events_of (HelmApp_apply L K H app) tr)"
    using quiet by (simp add: ev spares_def)
  ultimately show ?thesis ..
qed

lemma failed_run:
  assumes "helm_store_laws H S" and "reads_store H S" and "helm_finds H" and "whole_releases H"
    and "keeps_showing K key spec" and "takes_status K key" and "spec_Repo spec = Some repo"
    and "c \<in> set (slice (spec_Components spec))" and "distinct (map hc_Name (slice (spec_Components spec)))"
    and "failed_as_wanted L S spec (fst key) c tr"
  shows "result_of (HelmApp_Reconcile L K H key) tr = Returned (requeue_after failedAfter, None) \<and>
    list_all (spares (hc_Name c)) (events_of (HelmApp_Reconcile L K H key) tr)"
proof -
  let ?t = "tr @ [GetHelmApp key]"
  obtain app where app: "k_GetHelmApp K tr key = Inr app" "ha_Spec app = Some spec" "\<not> is_deleting (ha_Meta app)"
    and run: "events_of (HelmApp_Reconcile L K H key) tr = GetHelmApp key # events_of (HelmApp_apply L K H app) ?t"
      "result_of (HelmApp_Reconcile L K H key) tr = result_of (HelmApp_apply L K H app) ?t"
    by (rule shown_run [OF assms(5)])
  have ns: "om_Namespace (ha_Meta app) = fst key" and ok: "\<And>tr a. \<exists>b. k_UpdateHelmAppStatus K tr a = Inr b"
    using assms(6) app(1) by (auto simp: takes_status_def filed_under_def)
  have "failed_as_wanted L S spec (om_Namespace (ha_Meta app)) c ?t"
    unfolding ns by (rule failed_frame [OF assms(1,10)]) (simp add: spares_def)
  from failed_apply [OF assms(1-4) app(2) assms(7) app(3) this assms(8,9) ok]
  have "result_of (HelmApp_apply L K H app) ?t = Returned (requeue_after failedAfter, None)"
    "list_all (spares (hc_Name c)) (events_of (HelmApp_apply L K H app) ?t)" by simp_all
  then show ?thesis using run by (simp add: spares_def)
qed


section \<open>A Helm whose installs and upgrades fail\<close>

definition as_failed :: "release \<Rightarrow> release" where
  "as_failed r = r\<lparr>rel_Status := Some StatusFailed\<rparr>"

definition broken_helm :: helm_api where
  "broken_helm = replay_helm\<lparr>
     h_History := (\<lambda>tr n. map_sum id (map as_failed) (h_History replay_helm tr n)),
     h_Install := (\<lambda>tr a c v. (Some (as_failed (new_release 1 v)), Some ''timed out'')),
     h_Upgrade := (\<lambda>tr a n c v. (Some (as_failed (new_release 2 v)), Some ''timed out''))\<rparr>"

definition broken_store :: helm_store where
  "broken_store = replay_store\<lparr>hs_history := (\<lambda>tr ns n. map as_failed (hs_history replay_store tr ns n))\<rparr>"

lemma as_failed_simps [simp]:
  "rel_ChartVersion (as_failed r) = rel_ChartVersion r" "rel_Config (as_failed r) = rel_Config r"
  "rel_Status (as_failed r) = Some StatusFailed"
  by (simp_all add: as_failed_def)

lemma broken_history: "h_History broken_helm tr n = map_sum id (map as_failed) (h_History replay_helm tr n)"
  by (simp add: broken_helm_def)

lemma broken_store_laws: "helm_store_laws broken_helm broken_store"
proof -
  note laws = replay_store_laws [unfolded helm_store_laws_def]
  have "\<exists>m. h_History broken_helm tr n = Inl (ReleaseNotFound m)" if "hs_history replay_store tr (current_ns tr) n = []" for tr n
    using store_no_history [OF replay_store_laws that] by (auto simp: broken_history)
  moreover have "\<exists>rels. h_History broken_helm tr n = Inr rels \<and> rels \<noteq> [] \<and>
      last rels = as_failed (last (hs_history replay_store tr (current_ns tr) n))"
    if "hs_history replay_store tr (current_ns tr) n \<noteq> []" for tr n
    using store_history [OF replay_store_laws that] by (auto simp: broken_history last_map)
  ultimately show ?thesis
    using laws unfolding helm_store_laws_def
    by (simp add: broken_store_def last_map) (simp add: broken_helm_def)
qed

lemma broken_reads_store: "reads_store broken_helm broken_store"
proof -
  have "rels = hs_history replay_store tr (current_ns tr) n" if "h_History replay_helm tr n = Inr rels" for tr n rels
    using replay_history [OF that] by (simp add: replay_store_def replayed_ns)
  then show ?thesis
    by (auto simp: reads_store_def broken_history broken_store_def map_sum_def split: sum.splits)
qed

lemma broken_finds: "helm_finds broken_helm"
  by (simp add: helm_finds_def broken_helm_def replay_helm_def sample_helm_def)

lemma broken_whole: "whole_releases broken_helm"
proof -
  have whole: "whole_release (as_failed r)" if "whole_release r" for r using that by (simp add: whole_release_def)
  moreover have "whole_release (new_release k v)" for k v by (simp add: whole_release_def)
  moreover have "list_all whole_release (map as_failed rels)" if "h_History replay_helm tr n = Inr rels" for tr n rels
  proof -
    have "list_all whole_release rels" using that replay_whole_releases by (auto simp: whole_releases_def)
    then show ?thesis using whole by (auto simp: list_all_iff)
  qed
  ultimately show ?thesis
    by (auto simp: whole_releases_def broken_history broken_helm_def map_sum_def split: sum.splits)
qed

definition wanted_app :: HelmApp where
  "wanted_app = settling_app\<lparr>ha_Meta := sample_meta\<lparr>om_Finalizers := [HelmAppFinalizer]\<rparr>\<rparr>"

definition failed_install :: "event list" where
  "failed_install = [HelmInit ''default'', HelmHistory ''demo'',
     HelmInstall (demo_action ''demo'') ''gateway'' (Some [(''hub'', VStr ''docker.io'')])]"


end
