(* ===== verification/Shared_Releases.thy ===== *)
theory Shared_Releases
  imports Unsettled
begin

text \<open>
  Two HelmApps that name the same release in one namespace (internal/controller/helmapp.go). Nothing in
  the code prevents it, and \<open>buildName\<close> (internal/istio/iop.go) makes it happen: the gateway \<open>b-c\<close> of
  the IstioOperator \<open>a\<close> and the gateway \<open>c\<close> of \<open>a-b\<close> have the same name (\<open>build_name_collision\<close>). This is what the hypothesis on
  common releases in \<open>cluster_settles\<close> is for.
\<close>

section \<open>Two components of one name\<close>

text \<open>No release is as wanted by both.\<close>

definition conflicting :: "lib_api \<Rightarrow> HelmAppSpec \<Rightarrow> HelmComponent \<Rightarrow> HelmAppSpec \<Rightarrow> HelmComponent \<Rightarrow> bool" where
  "conflicting L s c s' c' \<longleftrightarrow> hc_Name c = hc_Name c' \<and>
     (\<forall>r. hasConfigChanged r (component_values L s c) (hc_Version c) = Returned False \<longrightarrow>
       hasConfigChanged r (component_values L s' c') (hc_Version c') \<noteq> Returned False)"

lemma conflicting_sym: "conflicting L s c s' c' \<Longrightarrow> conflicting L s' c' s c"
  by (auto simp: conflicting_def)

lemma versions_conflict: "hc_Name c = hc_Name c' \<Longrightarrow> hc_Version c \<noteq> hc_Version c' \<Longrightarrow> conflicting L s c s' c'"
  by (auto simp: conflicting_def hasConfigChanged_def split: option.splits)

text \<open>A spec that one run settles.\<close>

definition steady :: "lib_api \<Rightarrow> helm_api \<Rightarrow> helm_store \<Rightarrow> string \<Rightarrow> HelmAppSpec \<Rightarrow> bool" where
  "steady L H S ns spec \<longleftrightarrow> distinct (map hc_Name (slice (spec_Components spec))) \<and>
     (\<exists>repo. spec_Repo spec = Some repo \<and> (\<forall>c \<in> set (slice (spec_Components spec)). \<forall>app.
       om_Namespace (ha_Meta app) = ns \<longrightarrow> pinned L H S app spec repo c))"

abbreviation writes_to :: "string \<Rightarrow> event \<Rightarrow> bool" where
  "writes_to n \<equiv> \<lambda>e. helm_write e \<and> release_of e = Some n"

lemma steady_run:
  assumes "helm_store_laws H S" and "helm_works H" and "whole_releases H"
    and "keeps_showing K key spec" and "filed_under K key" and "steady L H S (fst key) spec"
    and "c \<in> set (slice (spec_Components spec))"
  shows "(\<exists>r. result_of (HelmApp_Reconcile L K H key) tr = Returned r) \<and>
    settled L S spec (fst key) c (tr @ events_of (HelmApp_Reconcile L K H key) tr)"
proof -
  obtain app where app: "k_GetHelmApp K tr key = Inr app" "ha_Spec app = Some spec"
    and run: "events_of (HelmApp_Reconcile L K H key) tr =
        GetHelmApp key # events_of (HelmApp_apply L K H app) (tr @ [GetHelmApp key])"
      "result_of (HelmApp_Reconcile L K H key) tr = result_of (HelmApp_apply L K H app) (tr @ [GetHelmApp key])"
    by (rule shown_run [OF assms(4)])
  have ns: "om_Namespace (ha_Meta app) = fst key" using assms(5) app(1) by (auto simp: filed_under_def)
  obtain repo where repo: "spec_Repo spec = Some repo" "distinct (map hc_Name (slice (spec_Components spec)))"
    and pin: "\<And>c. c \<in> set (slice (spec_Components spec)) \<Longrightarrow> pinned L H S app spec repo c"
    using assms(6) ns by (auto simp: steady_def)
  from app_settles [OF assms(1-3) app(2) repo(1) pin repo(2), where K = K and tr = "tr @ [GetHelmApp key]"] assms(7)
  have "settled L S spec (fst key) c (tr @ events_of (HelmApp_Reconcile L K H key) tr)" by (simp add: ns run(1))
  moreover have "\<exists>r. result_of (HelmApp_Reconcile L K H key) tr = Returned r"
    using HelmApp_apply_whole [OF assms(3) app(2) repo(1)] unfolding run(2) by (meson outcome.exhaust)
  ultimately show ?thesis by blast
qed

text \<open>A run that leaves the release as its own component wants it has written it, when before it was as the
  other one wants it: the release cannot be the same.\<close>

lemma conflict_writes:
  assumes "helm_store_laws H S" and "conflicting L s c s' c'" and "settled L S s ns c tr"
    and "settled L S s' ns c' (tr @ es)"
  shows "filter (writes_to (hc_Name c)) es \<noteq> []"
proof
  assume "filter (writes_to (hc_Name c)) es = []"
  then have "list_all (\<lambda>e. \<not> helm_write e \<or> release_of e \<noteq> Some (hc_Name c)) es"
    by (auto simp: filter_empty_conv list_all_iff)
  then have "hs_history S (tr @ es) ns (hc_Name c) = hs_history S tr ns (hc_Name c)"
    by (rule history_frame [OF assms(1)])
  with assms(2-4) show False by (auto simp: conflicting_def settled_def)
qed

section \<open>They upgrade it for ever\<close>

lemma writes_count: "filter P es \<noteq> [] \<Longrightarrow> Suc 0 \<le> length (filter P es)"
  by (cases "filter P es") simp_all

text \<open>One round of runs, for the one and then for the other.\<close>

lemma conflict_round:
  assumes "helm_store_laws H S" and "conflicting L s c s' c'" and "es = events_of (for_each (HelmApp_Reconcile L K H) [k, k']) t"
    and "\<And>t. (\<exists>y. result_of (HelmApp_Reconcile L K H k) t = Returned y) \<and>
      settled L S s ns c (t @ events_of (HelmApp_Reconcile L K H k) t)"
    and "\<And>t. (\<exists>y. result_of (HelmApp_Reconcile L K H k') t = Returned y) \<and>
      settled L S s' ns c' (t @ events_of (HelmApp_Reconcile L K H k') t)"
  shows "\<exists>ys. result_of (for_each (HelmApp_Reconcile L K H) [k, k']) t = Returned ys" and "settled L S s' ns c' (t @ es)"
    and "Suc 0 \<le> length (filter (writes_to (hc_Name c)) es)"
    and "settled L S s' ns c' t \<Longrightarrow> 2 \<le> length (filter (writes_to (hc_Name c)) es)"
proof -
  let ?a = "events_of (HelmApp_Reconcile L K H k) t"
  let ?b = "events_of (HelmApp_Reconcile L K H k') (t @ ?a)"
  obtain y z where yz: "result_of (HelmApp_Reconcile L K H k) t = Returned y" "result_of (HelmApp_Reconcile L K H k') (t @ ?a) = Returned z"
    using assms(4,5) by meson
  then show "\<exists>ys. result_of (for_each (HelmApp_Reconcile L K H) [k, k']) t = Returned ys" by (simp add: result_bind)
  have es: "es = ?a @ ?b" using yz by (simp add: assms(3) result_bind events_bind HelmApp_Reconcile_extends emits_intros)
  have left: "settled L S s ns c (t @ ?a)" "settled L S s' ns c' ((t @ ?a) @ ?b)" using assms(4,5) by blast+
  then show "settled L S s' ns c' (t @ es)" by (simp add: es)
  have b: "Suc 0 \<le> length (filter (writes_to (hc_Name c)) ?b)"
    by (rule writes_count [OF conflict_writes [OF assms(1,2) left]])
  then show "Suc 0 \<le> length (filter (writes_to (hc_Name c)) es)" by (simp add: es)
  have name: "hc_Name c' = hc_Name c" using assms(2) by (simp add: conflicting_def)
  assume "settled L S s' ns c' t"
  from writes_count [OF conflict_writes [OF assms(1) conflicting_sym [OF assms(2)] this left(1)]] b
  show "2 \<le> length (filter (writes_to (hc_Name c)) es)" by (simp add: es name)
qed

lemma conflict_rounds:
  assumes "helm_store_laws H S" and "conflicting L s c s' c'" and "settled L S s' ns c' t"
    and "\<And>t. (\<exists>y. result_of (HelmApp_Reconcile L K H k) t = Returned y) \<and>
      settled L S s ns c (t @ events_of (HelmApp_Reconcile L K H k) t)"
    and "\<And>t. (\<exists>y. result_of (HelmApp_Reconcile L K H k') t = Returned y) \<and>
      settled L S s' ns c' (t @ events_of (HelmApp_Reconcile L K H k') t)"
  shows "2 * m \<le> length (filter (writes_to (hc_Name c))
    (events_of (for_each (HelmApp_Reconcile L K H) (concat (replicate m [k, k']))) t))"
  using assms(3)
proof (induction m arbitrary: t)
  case (Suc m)
  note round = conflict_round [OF assms(1,2) HOL.refl assms(4,5), of t]
  obtain ys where "result_of (for_each (HelmApp_Reconcile L K H) [k, k']) t = Returned ys" using round(1) by blast
  from helmapp_queue.loop_append [OF this] Suc.IH [OF round(2)] round(4) [OF Suc.prems] show ?case
    by (simp only: replicate_Suc concat.simps filter_append length_append mult_Suc_right)
qed simp


section \<open>Two rivals\<close>

text \<open>Two HelmApps of one namespace that name the release \<open>demo\<close> and differ in a global value.\<close>

definition rival_spec :: "string \<Rightarrow> HelmAppSpec" where
  "rival_spec hub = settling_spec\<lparr>spec_GlobalValues := Some (Struct [(''hub'', StringValue hub)])\<rparr>"

definition rival_hub :: "key \<Rightarrow> string" where
  "rival_hub k = (if snd k = ''demo'' then ''docker.io'' else ''gcr.io'')"

definition rival_kube :: kube_api where
  "rival_kube = sample_kube (\<lambda>k. Inr \<lparr>ha_Meta = sample_meta\<lparr>om_Name := snd k, om_Namespace := fst k,
     om_Finalizers := [HelmAppFinalizer]\<rparr>, ha_Spec = Some (rival_spec (rival_hub k)), ha_Status = None\<rparr>) (\<lambda>_. Inl (NotFound []))"

lemma rival_values: "component_values sample_lib (rival_spec hub) sample_component = Some [(''hub'', VStr hub)]"
  by (simp add: component_values_def sample_lib_def sample_AsMap_def rival_spec_def settling_spec_def sample_component_def
      Let_def MergeValues.simps)

lemma rival_components: "slice (spec_Components (rival_spec hub)) = [sample_component]"
  by (simp add: rival_spec_def settling_spec_def)

lemma rival_steady: "steady sample_lib replay_helm replay_store ns (rival_spec hub)"
proof -
  have "pinned sample_lib replay_helm replay_store app (rival_spec hub) repo sample_component" for app repo
    using rival_values by (simp add: pinned_def replay_store_def) (simp add: sample_component_def)
  then show ?thesis by (simp add: steady_def rival_components) (simp add: rival_spec_def settling_spec_def)
qed

lemma rival_shown: "keeps_showing rival_kube k (rival_spec (rival_hub k))" "filed_under rival_kube k"
  by (simp_all add: keeps_showing_def filed_under_def rival_kube_def sample_kube_def sample_meta_def is_deleting_def)

lemma deep_equal_string: "deep_equal b (VStr s) \<longleftrightarrow> b = VStr s"
proof (cases b)
  case (VMap m)
  then show ?thesis by (cases m) simp_all
qed auto

lemma rivals_conflict:
  "conflicting sample_lib (rival_spec ''docker.io'') sample_component (rival_spec ''gcr.io'') sample_component"
proof -
  have "\<not> gomap_deep_equal m (Some [(''hub'', VStr ''gcr.io'')])" if "gomap_deep_equal m (Some [(''hub'', VStr ''docker.io'')])" for m
    using that by (cases m) (auto simp: gomap_deep_equal_def length_Suc_conv deep_equal_string split: if_splits)
  then show ?thesis
    by (auto simp: conflicting_def hasConfigChanged_def rival_values split: option.splits)
qed


end
