(* ===== verification/Release_Values.thy ===== *)
theory Release_Values
  imports HelmApp_Spec
begin

text \<open>
  The type of what the HelmApp controller hands to Helm: the values of every install and upgrade are
  an allocated Go map with unique keys at every depth that holds JSON only. Helm renders charts and
  stores releases from that map; a nil map, or a Go value without a JSON form, would be refused or
  stored as something else.
\<close>

definition sent_values :: "event \<Rightarrow> gomap option" where
  "sent_values e = (case e of HelmInstall a c vs \<Rightarrow> Some vs | HelmUpgrade a n c vs \<Rightarrow> Some vs | _ \<Rightarrow> None)"

definition valid_values :: "gomap \<Rightarrow> bool" where
  "valid_values vs \<longleftrightarrow> vs \<noteq> None \<and> wf_gomap vs \<and> json_entries (gentries vs)"

definition sends_valid :: "event \<Rightarrow> bool" where
  "sends_valid e \<longleftrightarrow> (case sent_values e of None \<Rightarrow> True | Some vs \<Rightarrow> valid_values vs)"

text \<open>A Struct message holds null, booleans, numbers, strings, lists and structs only.\<close>

definition AsMap_yields_json :: "lib_api \<Rightarrow> bool" where
  "AsMap_yields_json L \<longleftrightarrow> (\<forall>s. json_entries (gentries (l_AsMap L s)))"

lemma component_values_valid:
  "AsMap_laws L \<Longrightarrow> AsMap_yields_json L \<Longrightarrow> valid_values (component_values L spec c)"
  unfolding valid_values_def
  by (intro conjI component_values_not_nil wf_component_values, assumption+)
     (simp add: component_values_def AsMap_laws_def AsMap_yields_json_def json_MergeValues)

text \<open>The events that carry no values are valid whatever they are.\<close>

lemma sends_valid_other [simp]:
  "\<not> helm_write e \<Longrightarrow> sends_valid e" "sends_valid (HelmUninstall n)"
  by (cases e) (simp_all add: sends_valid_def sent_values_def)

lemma uninstall_sends_valid: "uninstall_event n e \<Longrightarrow> sends_valid e"
  by (auto simp: uninstall_event_def)

lemma reconcileComponent_valid:
  "AsMap_laws L \<Longrightarrow> AsMap_yields_json L \<Longrightarrow> emits sends_valid (reconcileComponent L H app c)"
  using component_values_valid [of L]
  by (auto simp: component_defs intro!: emits_intros) (simp_all add: sends_valid_def sent_values_def)

lemma HelmApp_apply_valid:
  assumes "AsMap_laws L" and "AsMap_yields_json L"
  shows "emits sends_valid (HelmApp_apply L K H app)"
proof -
  have "emits sends_valid (for_each (reconcileComponent L H app) cs)" for cs
    by (rule emits_for_each) (rule reconcileComponent_valid [OF assms])
  moreover have "emits sends_valid (orphan_loop H ds ss acc)" for ds ss acc
    by (rule emits_mono [OF emits_orphan_loop]) (auto dest: uninstall_sends_valid)
  moreover have "emits sends_valid (init_helm H ns)" for ns
    by (rule emits_mono [OF init_helm_emits]) auto
  ultimately show ?thesis
    by (auto simp: HelmApp_apply_def component_statuses_def intro!: emits_intros)
qed

lemma delete_valid: "emits sends_valid (HelmApp_reconcileDelete K H app)"
proof -
  have "emits sends_valid (delete_loop H (length comps) comps True)" for comps
    unfolding delete_loop_all
    by (intro emits_intros emits_mono [OF emits_drain]) (auto dest: uninstall_sends_valid)
  moreover have "emits sends_valid (init_helm H ns)" for ns
    by (rule emits_mono [OF init_helm_emits]) auto
  ultimately show ?thesis by (auto simp: HelmApp_reconcileDelete_def Let_def intro!: emits_intros)
qed

text \<open>C15. The type of what Helm is given: however often and for whichever HelmApps the controller runs, the
  values of every install and every upgrade are an allocated map, hold no key twice at any depth and
  are JSON throughout, as \<open>AsMap\<close> promises it for each of the two messages they are merged from.\<close>

theorem helm_gets_valid_values:
  assumes "AsMap_laws L" and "AsMap_yields_json L"
  shows "list_all sends_valid (events_of (for_each (HelmApp_Reconcile L K H) keys) tr)"
proof (rule events_emits, rule emits_for_each)
  fix key
  show "emits sends_valid (HelmApp_Reconcile L K H key)"
    using HelmApp_apply_valid [OF assms] delete_valid
    by (auto simp: HelmApp_Reconcile_def ensure_finalizer_def Let_def intro!: emits_intros)
qed

lemma json_entries_store: "json_entries es \<Longrightarrow> json_gval v \<Longrightarrow> json_entries (AList.update k v es)"
  by (induction es) auto

lemma json_to_gval: "json_gval (to_gval v)" and json_to_glist: "json_list (to_glist vs)"
  and json_to_entries: "json_entries (to_entries fs)"
  by (induction v and vs and fs rule: to_gval_to_glist_to_entries.induct) (auto simp: json_entries_store)

theorem helm_gets_valid_values_witness:
  "list_all sends_valid (events_of (for_each (HelmApp_Reconcile sample_lib (demo_kube sample_app) sample_helm)
     [(''default'', ''demo'')]) []) \<and>
   HelmInstall (action_for sample_app sample_component \<lparr>repo_Name = ''istio'', repo_Url = ''https://charts''\<rparr> ''demo'')
       ''gateway'' (Some []) \<in>
     set (events_of (HelmApp_Reconcile sample_lib (demo_kube sample_app) sample_helm (''default'', ''demo'')) [])"
proof
  have "AsMap_yields_json sample_lib"
    by (simp add: AsMap_yields_json_def sample_lib_def sample_AsMap_def json_to_entries
        split: option.split pstruct.split)
  from helm_gets_valid_values [OF sample_AsMap_laws this]
  show "list_all sends_valid (events_of (for_each (HelmApp_Reconcile sample_lib (demo_kube sample_app) sample_helm)
     [(''default'', ''demo'')]) [])" .
qed (simp add: events_of_def HelmApp_Reconcile_def ensure_finalizer_def HelmApp_apply_def component_statuses_def
    init_helm_run component_defs action_for_def component_values_def MergeValues.simps is_deleting_def Let_def
    sample_defs StatusDeployed_def)

end
