(* ===== verification/Manager.thy ===== *)
theory Manager
  imports Externals
begin

text \<open>
  The process: cmd/main.go, config/config.go and the two \<open>SetupWithManager\<close> methods.

  \<^item> Package flag is the standard library's, so parsing the command line is written out
    (\<open>FlagSet.parseOne\<close>); the flags that zap and controller-runtime add are a parameter: which there
    are, which of them are boolean, and which values they take.
  \<^item> The calls to controller-runtime are events, answered by an error or none by a function of the
    trace; \<open>os.Exit\<close>, a panic and the end of \<open>main\<close> are the values of \<open>exit\<close>.
\<close>

section \<open>The command line\<close>

record flags =
  fl_metricsAddr :: string
  fl_probeAddr :: string
  fl_enableLeaderElection :: bool
  fl_ProfilesDir :: string

definition default_flags :: flags where
  "default_flags = \<lparr>fl_metricsAddr = '':9090'', fl_probeAddr = '':8081'',
     fl_enableLeaderElection = False, fl_ProfilesDir = ''./istio/profiles''\<rparr>"

record library_flags =
  lf_is_bool :: "string \<Rightarrow> bool option"
  lf_accepts :: "string \<Rightarrow> string \<Rightarrow> bool"

text \<open>\<open>strconv.ParseBool\<close>\<close>

definition ParseBool :: "string \<Rightarrow> bool option" where
  "ParseBool s =
     (if s \<in> {''1'', ''t'', ''T'', ''TRUE'', ''true'', ''True''} then Some True
      else if s \<in> {''0'', ''f'', ''F'', ''FALSE'', ''false'', ''False''} then Some False
      else None)"

text \<open>The flags that are defined, and whether a flag is boolean.\<close>

definition is_bool_flag :: "library_flags \<Rightarrow> string \<Rightarrow> bool option" where
  "is_bool_flag Z name =
     (if name \<in> {''metrics-bind-address'', ''health-probe-bind-address'', ''profiles-dir''} then Some False
      else if name = ''leader-elect'' then Some True
      else lf_is_bool Z name)"

definition set_flag :: "library_flags \<Rightarrow> string \<Rightarrow> string \<Rightarrow> flags \<Rightarrow> flags option" where
  "set_flag Z name v fs =
     (if name = ''metrics-bind-address'' then Some (fs\<lparr>fl_metricsAddr := v\<rparr>)
      else if name = ''health-probe-bind-address'' then Some (fs\<lparr>fl_probeAddr := v\<rparr>)
      else if name = ''profiles-dir'' then Some (fs\<lparr>fl_ProfilesDir := v\<rparr>)
      else if name = ''leader-elect''
        then map_option (\<lambda>b. fs\<lparr>fl_enableLeaderElection := b\<rparr>) (ParseBool v)
      else if lf_accepts Z name v then Some fs else None)"

text \<open>One word of the command line: not a flag, a malformed one, or a name with an optional value.\<close>

datatype flag_word = NoFlag | BadSyntax | Flag string "string option"

definition flag_of :: "string \<Rightarrow> flag_word" where
  "flag_of s =
     (if length s < 2 \<or> hd s \<noteq> CHR ''-'' then NoFlag
      else if s = ''--'' then NoFlag
      else let name = (if s ! 1 = CHR ''-'' then drop 2 s else drop 1 s) in
        if name = [] \<or> hd name = CHR ''-'' \<or> hd name = CHR ''='' then BadSyntax
        else Flag (takeWhile (\<lambda>c. c \<noteq> CHR ''='') name)
          (if CHR ''='' \<in> set name then Some (tl (dropWhile (\<lambda>c. c \<noteq> CHR ''='') name)) else None))"

datatype parsed = Parsed flags | Help | BadFlag

fun parse_flags :: "library_flags \<Rightarrow> string list \<Rightarrow> flags \<Rightarrow> parsed" where
  "parse_flags Z [] fs = Parsed fs"
| "parse_flags Z (s # args) fs =
     (case flag_of s of
        NoFlag \<Rightarrow> Parsed fs
      | BadSyntax \<Rightarrow> BadFlag
      | Flag name value \<Rightarrow>
          (case is_bool_flag Z name of
             None \<Rightarrow> if name = ''help'' \<or> name = ''h'' then Help else BadFlag
           | Some True \<Rightarrow>
               (case set_flag Z name (case value of Some v \<Rightarrow> v | None \<Rightarrow> ''true'') fs of
                  None \<Rightarrow> BadFlag | Some fs \<Rightarrow> parse_flags Z args fs)
           | Some False \<Rightarrow>
               (case value of
                  Some v \<Rightarrow> (case set_flag Z name v fs of None \<Rightarrow> BadFlag | Some fs \<Rightarrow> parse_flags Z args fs)
                | None \<Rightarrow>
                    (case args of
                       [] \<Rightarrow> BadFlag
                     | v # rest \<Rightarrow>
                         (case set_flag Z name v fs of None \<Rightarrow> BadFlag | Some fs \<Rightarrow> parse_flags Z rest fs)))))"

section \<open>Starting the manager\<close>

record manager_options =
  mo_BindAddress :: string
  mo_HealthProbeBindAddress :: string
  mo_LeaderElection :: bool
  mo_LeaderElectionID :: string

text \<open>The two reconcilers; of \<open>config.GlobalConfig\<close> the second one gets a copy.\<close>

datatype reconciler_value = HelmAppReconciler | IstioOperatorReconciler string

datatype mcall =
    AddToScheme string
  | GetConfigOrDie
  | NewManager manager_options
  | ControllerFor string reconciler_value
  | AddHealthzCheck string
  | AddReadyzCheck string
  | StartManager
  | LogError string

datatype exit = Ended | Exit nat | Crashed

type_synonym responses = "mcall list \<Rightarrow> mcall \<Rightarrow> string option"
type_synonym 'a main_act = "(mcall, 'a) prog"

definition ask :: "responses \<Rightarrow> mcall \<Rightarrow> string option main_act" where
  "ask M c = call c (\<lambda>tr. M tr c)"

definition HelmApp_SetupWithManager :: "responses \<Rightarrow> string option main_act" where
  "HelmApp_SetupWithManager M = ask M (ControllerFor ''HelmApp'' HelmAppReconciler)"

definition IOP_SetupWithManager :: "responses \<Rightarrow> string \<Rightarrow> string option main_act" where
  "IOP_SetupWithManager M profilesDir =
     ask M (ControllerFor ''IstioOperator'' (IstioOperatorReconciler profilesDir))"

text \<open>\<open>setupLog.Error(err, msg)\<close> and \<open>os.Exit(1)\<close>\<close>

definition fail :: "string \<Rightarrow> exit main_act" where
  "fail msg = do { call (LogError msg) (\<lambda>_. ()); State_Monad.return (Exit 1) }"

text \<open>The package's \<open>init\<close>: \<open>utilruntime.Must\<close> panics on an error.\<close>

definition init_scheme :: "responses \<Rightarrow> bool main_act" where
  "init_scheme M = do {
     err \<leftarrow> ask M (AddToScheme ''clientgoscheme'');
     case err of Some e \<Rightarrow> State_Monad.return False | None \<Rightarrow> do {
     err \<leftarrow> ask M (AddToScheme ''operatorv1alpha1'');
     case err of Some e \<Rightarrow> State_Monad.return False | None \<Rightarrow> do {
     err \<leftarrow> ask M (AddToScheme ''istio v1alpha1'');
     State_Monad.return (err = None) }}
   }"

definition options_of :: "flags \<Rightarrow> manager_options" where
  "options_of fs = \<lparr>mo_BindAddress = fl_metricsAddr fs, mo_HealthProbeBindAddress = fl_probeAddr fs,
     mo_LeaderElection = fl_enableLeaderElection fs,
     mo_LeaderElectionID = ''pluma-operator-leader-election''\<rparr>"

definition main :: "responses \<Rightarrow> library_flags \<Rightarrow> string list \<Rightarrow> exit main_act" where
  "main M Z args =
     (case parse_flags Z args default_flags of
        Help \<Rightarrow> State_Monad.return (Exit 0)
      | BadFlag \<Rightarrow> State_Monad.return (Exit 2)
      | Parsed fs \<Rightarrow> do {
     err \<leftarrow> ask M GetConfigOrDie;
     case err of Some e \<Rightarrow> State_Monad.return (Exit 1) | None \<Rightarrow> do {
     err \<leftarrow> ask M (NewManager (options_of fs));
     case err of Some e \<Rightarrow> fail ''unable to start manager'' | None \<Rightarrow> do {
     err \<leftarrow> HelmApp_SetupWithManager M;
     case err of Some e \<Rightarrow> fail ''unable to create controller'' | None \<Rightarrow> do {
     err \<leftarrow> IOP_SetupWithManager M (fl_ProfilesDir fs);
     case err of Some e \<Rightarrow> fail ''unable to create controller'' | None \<Rightarrow> do {
     err \<leftarrow> ask M (AddHealthzCheck ''healthz'');
     case err of Some e \<Rightarrow> fail ''unable to set up health check'' | None \<Rightarrow> do {
     err \<leftarrow> ask M (AddReadyzCheck ''readyz'');
     case err of Some e \<Rightarrow> fail ''unable to set up ready check'' | None \<Rightarrow> do {
     err \<leftarrow> ask M StartManager;
     case err of Some e \<Rightarrow> fail ''problem running manager'' | None \<Rightarrow> State_Monad.return Ended
     }}}}}}})"

definition process :: "responses \<Rightarrow> library_flags \<Rightarrow> string list \<Rightarrow> exit main_act" where
  "process M Z args = do {
     ok \<leftarrow> init_scheme M;
     if ok then main M Z args else State_Monad.return Crashed
   }"

section \<open>Following a plan\<close>

text \<open>The start as a list of calls, each with the message logged when it fails.\<close>

definition plan :: "flags \<Rightarrow> (mcall \<times> string option) list" where
  "plan fs =
    [(GetConfigOrDie, None), (NewManager (options_of fs), Some ''unable to start manager''),
     (ControllerFor ''HelmApp'' HelmAppReconciler, Some ''unable to create controller''),
     (ControllerFor ''IstioOperator'' (IstioOperatorReconciler (fl_ProfilesDir fs)),
        Some ''unable to create controller''),
     (AddHealthzCheck ''healthz'', Some ''unable to set up health check''),
     (AddReadyzCheck ''readyz'', Some ''unable to set up ready check''),
     (StartManager, Some ''problem running manager'')]"

definition scheme_calls :: "mcall list" where
  "scheme_calls = [AddToScheme ''clientgoscheme'', AddToScheme ''operatorv1alpha1'', AddToScheme ''istio v1alpha1'']"

fun follow :: "responses \<Rightarrow> (mcall \<times> string option) list \<Rightarrow> exit main_act" where
  "follow M [] = State_Monad.return Ended"
| "follow M ((c, msg) # rest) = do {
     err \<leftarrow> ask M c;
     case err of
       Some e \<Rightarrow> (case msg of None \<Rightarrow> State_Monad.return (Exit 1) | Some m \<Rightarrow> fail m)
     | None \<Rightarrow> follow M rest
   }"

text \<open>Every call of a list was answered without an error.\<close>

fun succeeded :: "responses \<Rightarrow> mcall list \<Rightarrow> mcall list \<Rightarrow> bool" where
  "succeeded M tr [] = True"
| "succeeded M tr (c # cs) = (M tr c = None \<and> succeeded M (tr @ [c]) cs)"

lemma main_follows:
  "main M Z args = (case parse_flags Z args default_flags of
     Help \<Rightarrow> State_Monad.return (Exit 0) | BadFlag \<Rightarrow> State_Monad.return (Exit 2)
   | Parsed fs \<Rightarrow> follow M (plan fs))"
  by (simp add: main_def plan_def HelmApp_SetupWithManager_def IOP_SetupWithManager_def
      cong: option.case_cong split: parsed.splits)

lemma ask_simps [simp]:
  "run_state (ask M c) tr = (M tr c, tr @ [c])" "extends (ask M c)"
  by (simp_all add: ask_def emits_intros)

lemma fail_run [simp]: "run_state (fail m) tr = (Exit 1, tr @ [LogError m])"
  by (simp add: fail_def)

text \<open>How following a plan can end.\<close>

lemma follow_run:
  obtains (completed) "run_state (follow M cs) tr = (Ended, tr @ map fst cs)" "succeeded M tr (map fst cs)"
  | (failed) pre c msg rest e where "cs = pre @ (c, msg) # rest" "succeeded M tr (map fst pre)"
      "M (tr @ map fst pre) c = Some e"
      "run_state (follow M cs) tr = (Exit 1, tr @ map fst pre @ c # map LogError (case msg of None \<Rightarrow> [] | Some m \<Rightarrow> [m]))"
proof (induction cs arbitrary: tr thesis)
  case Nil
  then show ?case by simp
next
  case (Cons cm cs)
  obtain c msg where cm: "cm = (c, msg)" by fastforce
  show ?case
  proof (cases "M tr c")
    case (Some e)
    then show ?thesis
      by (intro Cons.prems(2) [of "[]" c msg cs e]) (auto simp: cm split: option.splits)
  next
    case None
    show ?thesis
    proof (cases rule: Cons.IH [of "tr @ [c]"])
      case 1
      then show ?thesis using None by (intro Cons.prems(1)) (simp_all add: cm)
    next
      case (2 pre d msg' rest e)
      then show ?thesis
        using None by (intro Cons.prems(2) [of "cm # pre" d msg' rest e]) (simp_all add: cm)
    qed
  qed
qed

lemma init_scheme_follows:
  "run_state (init_scheme M) tr =
   (case run_state (follow M (map (\<lambda>c. (c, None)) scheme_calls)) tr of (x, t) \<Rightarrow> (x = Ended, t))"
  by (simp add: init_scheme_def scheme_calls_def split: option.splits)

text \<open>How the process can end.\<close>

lemma process_run:
  obtains (no_scheme) pre c rest e where "scheme_calls = pre @ c # rest" "succeeded M tr pre"
      "M (tr @ pre) c = Some e" "run_state (process M Z args) tr = (Crashed, tr @ pre @ [c])"
  | (no_flags) "run_state (process M Z args) tr =
      (if parse_flags Z args default_flags = Help then Exit 0 else Exit 2, tr @ scheme_calls)"
      "\<And>fs. parse_flags Z args default_flags \<noteq> Parsed fs" "succeeded M tr scheme_calls"
  | (started) fs where "parse_flags Z args default_flags = Parsed fs" "succeeded M tr scheme_calls"
      "run_state (process M Z args) tr = run_state (follow M (plan fs)) (tr @ scheme_calls)"
proof (cases rule: follow_run [of M "map (\<lambda>c. (c, None)) scheme_calls" tr])
  case completed
  have ids: "map (fst \<circ> (\<lambda>c. (c, None))) scheme_calls = scheme_calls" by (simp add: comp_def)
  have "run_state (process M Z args) tr = run_state (main M Z args) (tr @ scheme_calls)"
    using completed by (simp add: process_def init_scheme_follows ids)
  then show ?thesis
    using no_flags started completed(2)
    by (cases "parse_flags Z args default_flags") (auto simp: main_follows ids)
next
  case (failed pre c msg rest e)
  have "scheme_calls = map fst (map (\<lambda>c. (c, None :: string option)) scheme_calls)" by (simp add: comp_def)
  also have "\<dots> = map fst pre @ c # map fst rest" by (simp add: failed(1) del: map_map)
  finally have "scheme_calls = map fst pre @ c # map fst rest" .
  moreover have "(c, msg) \<in> set (map (\<lambda>c. (c, None)) scheme_calls)" unfolding failed(1) by simp
  then have "msg = None" by auto
  ultimately show ?thesis
    using no_scheme failed(2-4) by (simp add: process_def init_scheme_follows)
qed

section \<open>Properties\<close>

text \<open>C29. The manager is started only after everything else: when \<open>StartManager\<close> is called, the three
  schemes, the configuration, the manager with the options of the command line, both controllers
  (the second with the profiles directory of the command line) and both checks have been set up
  before it, in this order and each once, all without an error; and the process ends normally
  exactly when the manager does.\<close>

theorem manager_starts_last:
  assumes "StartManager \<in> set (events_of (process M Z args) tr)"
  shows "\<exists>fs log. let before = [AddToScheme ''clientgoscheme'', AddToScheme ''operatorv1alpha1'',
        AddToScheme ''istio v1alpha1'', GetConfigOrDie, NewManager (options_of fs),
        ControllerFor ''HelmApp'' HelmAppReconciler,
        ControllerFor ''IstioOperator'' (IstioOperatorReconciler (fl_ProfilesDir fs)),
        AddHealthzCheck ''healthz'', AddReadyzCheck ''readyz'']
    in parse_flags Z args default_flags = Parsed fs \<and> succeeded M tr before \<and>
      events_of (process M Z args) tr = before @ StartManager # map LogError log \<and>
      result_of (process M Z args) tr = (if M (tr @ before) StartManager = None then Ended else Exit 1)"
proof (cases rule: process_run [of M tr Z args])
  case (no_scheme pre c rest e)
  have "set (pre @ [c]) \<subseteq> set scheme_calls" unfolding no_scheme(1) by auto
  moreover have "StartManager \<in> set (pre @ [c])" using assms no_scheme(4) by (simp add: events_of_def)
  ultimately have "StartManager \<in> set scheme_calls" by blast
  then show ?thesis by (simp add: scheme_calls_def)
next
  case no_flags
  then show ?thesis using assms by (simp add: events_of_def scheme_calls_def split: if_splits)
next
  case (started fs)
  obtain bs where bs: "bs = butlast (map fst (plan fs))" by blast
  let ?before = "scheme_calls @ bs"
  have split: "map fst (plan fs) = bs @ [StartManager]" "StartManager \<notin> set bs"
    by (simp_all add: bs plan_def)
  have app: "succeeded M tr (xs @ ys) \<longleftrightarrow> succeeded M tr xs \<and> succeeded M (tr @ xs) ys" for xs ys tr
    by (induction xs arbitrary: tr) simp_all
  have "\<exists>log. succeeded M tr ?before \<and>
      events_of (process M Z args) tr = ?before @ StartManager # map LogError log \<and>
      result_of (process M Z args) tr = (if M (tr @ ?before) StartManager = None then Ended else Exit 1)"
  proof (cases rule: follow_run [of M "plan fs" "tr @ scheme_calls"])
    case completed
    then show ?thesis
      unfolding split(1) using started
      by (intro exI [of _ "[]"]) (simp add: events_of_def result_of_def app scheme_calls_def)
  next
    case (failed pre c msg rest e)
    have "map fst (plan fs) = map fst pre @ c # map fst rest" by (simp add: failed(1))
    moreover have "StartManager \<in> set (map fst pre @ [c])"
      using assms started(3) failed(4) by (auto simp: events_of_def scheme_calls_def split: option.splits)
    ultimately have "bs = map fst pre \<and> c = StartManager"
      using split by (cases rest rule: rev_cases) (auto simp: append_eq_append_conv2 Cons_eq_append_conv)
    then show ?thesis
      using started failed
      by (intro exI [of _ "case msg of None \<Rightarrow> [] | Some m \<Rightarrow> [m]"])
         (simp add: events_of_def result_of_def app scheme_calls_def)
  qed
  moreover have "?before = [AddToScheme ''clientgoscheme'', AddToScheme ''operatorv1alpha1'',
        AddToScheme ''istio v1alpha1'', GetConfigOrDie, NewManager (options_of fs),
        ControllerFor ''HelmApp'' HelmAppReconciler,
        ControllerFor ''IstioOperator'' (IstioOperatorReconciler (fl_ProfilesDir fs)),
        AddHealthzCheck ''healthz'', AddReadyzCheck ''readyz'']"
    by (simp add: bs scheme_calls_def plan_def)
  ultimately show ?thesis using started(1) unfolding Let_def by metis
qed

definition no_library_flags :: library_flags where
  "no_library_flags = \<lparr>lf_is_bool = (\<lambda>_. None), lf_accepts = (\<lambda>_ _. False)\<rparr>"

lemmas process_simps = process_def init_scheme_def main_def HelmApp_SetupWithManager_def
  IOP_SetupWithManager_def events_of_def result_of_def

theorem manager_starts_last_witness:
  "result_of (process (\<lambda>_ _. None) no_library_flags []) [] = Ended"
proof -
  have "StartManager \<in> set (events_of (process (\<lambda>_ _. None) no_library_flags []) [])"
    by (simp add: process_simps)
  from manager_starts_last [OF this] show ?thesis by (auto simp: Let_def)
qed

text \<open>A failing start ends the process: exit status 1 means that some call of the start answered
  with an error, every call before it succeeded, and nothing but one log message, none for a
  missing cluster configuration, came after it.\<close>

theorem failed_start_exits:
  assumes "result_of (process M Z args) tr = Exit 1"
  shows "\<exists>pre c e log. events_of (process M Z args) tr = pre @ c # map LogError log \<and>
    succeeded M tr pre \<and> M (tr @ pre) c = Some e \<and> length log \<le> 1 \<and> (log = [] \<longleftrightarrow> c = GetConfigOrDie)"
proof (cases rule: process_run [of M tr Z args])
  case no_scheme
  with assms show ?thesis by (simp add: result_of_def)
next
  case no_flags
  with assms show ?thesis by (simp add: result_of_def split: if_splits)
next
  case (started fs)
  show ?thesis
  proof (cases rule: follow_run [of M "plan fs" "tr @ scheme_calls"])
    case completed
    with assms started show ?thesis by (simp add: result_of_def)
  next
    case (failed pre c msg rest e)
    have "(c, msg) \<in> set (plan fs)" by (simp add: failed(1))
    then have "(msg = None) = (c = GetConfigOrDie)" by (auto simp: plan_def)
    moreover have "succeeded M tr (scheme_calls @ map fst pre)"
      using started(2) failed(2) by (simp add: scheme_calls_def)
    ultimately show ?thesis
      using started(3) failed(3,4)
      by (intro exI [of _ "scheme_calls @ map fst pre"] exI [of _ c] exI [of _ e]
          exI [of _ "case msg of None \<Rightarrow> [] | Some m \<Rightarrow> [m]"])
         (auto simp: events_of_def split: option.splits)
  qed
qed

theorem failed_start_exits_witness:
  "\<exists>pre log. events_of (process (\<lambda>_ c. if c = AddHealthzCheck ''healthz'' then Some [] else None) no_library_flags []) [] =
     pre @ AddHealthzCheck ''healthz'' # map LogError log"
proof -
  let ?M = "\<lambda>_ c. if c = AddHealthzCheck ''healthz'' then Some [] else None"
  have "result_of (process ?M no_library_flags []) [] = Exit 1" by (simp add: process_simps)
  from failed_start_exits [OF this] show ?thesis by (auto split: if_splits)
qed

text \<open>The command line that sets the four flags of the operator.\<close>

definition render :: "flags \<Rightarrow> string list" where
  "render fs = [''--metrics-bind-address='' @ fl_metricsAddr fs,
     ''--health-probe-bind-address='' @ fl_probeAddr fs,
     ''--leader-elect='' @ (if fl_enableLeaderElection fs then ''true'' else ''false''),
     ''--profiles-dir='' @ fl_ProfilesDir fs]"

lemma flag_of_render:
  "flag_of (''--metrics-bind-address='' @ v) = Flag ''metrics-bind-address'' (Some v)"
  "flag_of (''--health-probe-bind-address='' @ v) = Flag ''health-probe-bind-address'' (Some v)"
  "flag_of (''--leader-elect='' @ v) = Flag ''leader-elect'' (Some v)"
  "flag_of (''--profiles-dir='' @ v) = Flag ''profiles-dir'' (Some v)"
  by (simp_all add: flag_of_def)

lemma parse_render:
  "parse_flags Z ((''--metrics-bind-address='' @ v) # args) fs = parse_flags Z args (fs\<lparr>fl_metricsAddr := v\<rparr>)"
  "parse_flags Z ((''--health-probe-bind-address='' @ v) # args) fs = parse_flags Z args (fs\<lparr>fl_probeAddr := v\<rparr>)"
  "parse_flags Z ((''--leader-elect='' @ (if b then ''true'' else ''false'')) # args) fs =
     parse_flags Z args (fs\<lparr>fl_enableLeaderElection := b\<rparr>)"
  "parse_flags Z ((''--profiles-dir='' @ v) # args) fs = parse_flags Z args (fs\<lparr>fl_ProfilesDir := v\<rparr>)"
  by (simp_all only: parse_flags.simps flag_of_render flag_word.case)
     (simp_all add: is_bool_flag_def set_flag_def ParseBool_def)

lemma parse_all: "parse_flags Z (render gs @ args) fs = parse_flags Z args gs"
proof -
  have "render gs @ args = (''--metrics-bind-address='' @ fl_metricsAddr gs) #
      (''--health-probe-bind-address='' @ fl_probeAddr gs) #
      (''--leader-elect='' @ (if fl_enableLeaderElection gs then ''true'' else ''false'')) #
      (''--profiles-dir='' @ fl_ProfilesDir gs) # args"
    by (simp add: render_def)
  moreover have "fs\<lparr>fl_metricsAddr := fl_metricsAddr gs, fl_probeAddr := fl_probeAddr gs,
      fl_enableLeaderElection := fl_enableLeaderElection gs, fl_ProfilesDir := fl_ProfilesDir gs\<rparr> = gs"
    by simp
  ultimately show ?thesis by (simp only: parse_render)
qed

text \<open>C31. The command line round trip: whatever the values, also empty ones and ones with dashes or equals
  signs in them, and whatever the flags were set to before, the operator reads back the flags it is
  given; a later setting wins.\<close>

theorem flags_roundtrip: "parse_flags Z (render fs @ render fs') fs0 = Parsed fs'"
  using parse_all [of Z fs' "[]"] by (simp add: parse_all)

end
