(* ===== verification/Typed_Client.thy ===== *)
theory Typed_Client
  imports API_Types
begin

text \<open>
  The generated client for HelmApps: typed/operator/v1alpha1/helmapp.go, its test double
  fake/fake_helmapp.go, and the construction of clients in operator_client.go and clientset.go, all
  under apis/client/clientset/versioned.

  \<^item> A REST request is the verb and the chain of builder calls the code makes, in their order
    (\<open>builder_call\<close>); sending it is the library's business, a field of \<open>rest_client\<close>.
  \<^item> The fake turns each operation into an action; its object tracker is a parameter too.
  \<^item> A duration is an \<open>int64\<close>, a \<open>64 word\<close>; a \<open>float32\<close> is its bit pattern.
\<close>

section \<open>Requests\<close>

record list_options =
  lo_LabelSelector :: string
  lo_FieldSelector :: string
  lo_Watch :: bool
  lo_TimeoutSeconds :: "64 word option"

datatype params = GetOptions string | ListOptions list_options | CreateOptions string
  | UpdateOptions string | PatchOptions string

datatype body = AppBody HelmApp | DeleteBody string | DataBody string

datatype verb = GET | POST | PUT | DELETE | PATCH string

datatype builder_call = Namespace string | Resource string | Name string | SubResource "string list"
  | VersionedParams params | Timeout "64 word" | Body body

type_synonym request = "verb \<times> builder_call list"

record HelmAppList =
  hl_ListMeta :: string
  hl_Items :: "HelmApp list"

text \<open>\<open>Do(ctx).Into(result)\<close> fills the result and returns an error or nil.\<close>

record rest_client =
  rc_IntoApp :: "request \<Rightarrow> HelmApp \<times> string option"
  rc_IntoList :: "request \<Rightarrow> HelmAppList \<times> string option"
  rc_Error :: "request \<Rightarrow> string option"
  rc_Watch :: "request \<Rightarrow> string + string"

section \<open>The typed client\<close>

definition nanoseconds :: "64 word" where "nanoseconds = 1000000000"

text \<open>\<open>time.Duration(*opts.TimeoutSeconds) * time.Second\<close>, or zero without a timeout.\<close>

definition timeout_of :: "list_options \<Rightarrow> 64 word" where
  "timeout_of opts = (case lo_TimeoutSeconds opts of None \<Rightarrow> 0 | Some s \<Rightarrow> s * nanoseconds)"

definition get_request :: "string \<Rightarrow> string \<Rightarrow> string \<Rightarrow> request" where
  "get_request ns name options =
     (GET, [Namespace ns, Resource ''helmapps'', Name name, VersionedParams (GetOptions options)])"

definition list_request :: "string \<Rightarrow> list_options \<Rightarrow> request" where
  "list_request ns opts = (GET, [Namespace ns, Resource ''helmapps'', VersionedParams (ListOptions opts),
     Timeout (timeout_of opts)])"

definition watch_request :: "string \<Rightarrow> list_options \<Rightarrow> request" where
  "watch_request ns opts =
     (let timeout = timeout_of opts; opts = opts\<lparr>lo_Watch := True\<rparr> in
      (GET, [Namespace ns, Resource ''helmapps'', VersionedParams (ListOptions opts), Timeout timeout]))"

definition create_request :: "string \<Rightarrow> HelmApp \<Rightarrow> string \<Rightarrow> request" where
  "create_request ns app opts =
     (POST, [Namespace ns, Resource ''helmapps'', VersionedParams (CreateOptions opts), Body (AppBody app)])"

definition update_request :: "string \<Rightarrow> HelmApp \<Rightarrow> string \<Rightarrow> request" where
  "update_request ns app opts =
     (PUT, [Namespace ns, Resource ''helmapps'', Name (om_Name (ha_Meta app)),
        VersionedParams (UpdateOptions opts), Body (AppBody app)])"

definition update_status_request :: "string \<Rightarrow> HelmApp \<Rightarrow> string \<Rightarrow> request" where
  "update_status_request ns app opts =
     (PUT, [Namespace ns, Resource ''helmapps'', Name (om_Name (ha_Meta app)), SubResource [''status''],
        VersionedParams (UpdateOptions opts), Body (AppBody app)])"

definition delete_request :: "string \<Rightarrow> string \<Rightarrow> string \<Rightarrow> request" where
  "delete_request ns name opts =
     (DELETE, [Namespace ns, Resource ''helmapps'', Name name, Body (DeleteBody opts)])"

definition delete_collection_request :: "string \<Rightarrow> string \<Rightarrow> list_options \<Rightarrow> request" where
  "delete_collection_request ns opts listOpts =
     (DELETE, [Namespace ns, Resource ''helmapps'', VersionedParams (ListOptions listOpts),
        Timeout (timeout_of listOpts), Body (DeleteBody opts)])"

definition patch_request ::
    "string \<Rightarrow> string \<Rightarrow> string \<Rightarrow> string \<Rightarrow> string \<Rightarrow> string list \<Rightarrow> request" where
  "patch_request ns name pt data opts subresources =
     (PATCH pt, [Namespace ns, Resource ''helmapps'', Name name, SubResource subresources,
        VersionedParams (PatchOptions opts), Body (DataBody data)])"

text \<open>The operations of \<open>HelmAppInterface\<close>, and the request each sends.\<close>

datatype client_op =
    OpGet string string
  | OpList list_options
  | OpWatch list_options
  | OpCreate HelmApp string
  | OpUpdate HelmApp string
  | OpUpdateStatus HelmApp string
  | OpDelete string string
  | OpDeleteCollection string list_options
  | OpPatch string string string string "string list"

fun request_of :: "string \<Rightarrow> client_op \<Rightarrow> request" where
  "request_of ns (OpGet name opts) = get_request ns name opts"
| "request_of ns (OpList opts) = list_request ns opts"
| "request_of ns (OpWatch opts) = watch_request ns opts"
| "request_of ns (OpCreate app opts) = create_request ns app opts"
| "request_of ns (OpUpdate app opts) = update_request ns app opts"
| "request_of ns (OpUpdateStatus app opts) = update_status_request ns app opts"
| "request_of ns (OpDelete name opts) = delete_request ns name opts"
| "request_of ns (OpDeleteCollection opts listOpts) = delete_collection_request ns opts listOpts"
| "request_of ns (OpPatch name pt data opts subs) = patch_request ns name pt data opts subs"

definition helmApps_Get :: "rest_client \<Rightarrow> string \<Rightarrow> string \<Rightarrow> string \<Rightarrow> HelmApp \<times> string option" where
  "helmApps_Get C ns name options = rc_IntoApp C (get_request ns name options)"

definition helmApps_List :: "rest_client \<Rightarrow> string \<Rightarrow> list_options \<Rightarrow> HelmAppList \<times> string option" where
  "helmApps_List C ns opts = rc_IntoList C (list_request ns opts)"

definition helmApps_Watch :: "rest_client \<Rightarrow> string \<Rightarrow> list_options \<Rightarrow> string + string" where
  "helmApps_Watch C ns opts = rc_Watch C (watch_request ns opts)"

section \<open>The fake client\<close>

definition group_version :: "string \<times> string" where
  "group_version = (''operator.pluma.io'', ''v1alpha1'')"

definition helmappsResource :: "string \<times> string \<times> string" where
  "helmappsResource = (''operator.pluma.io'', ''v1alpha1'', ''helmapps'')"

definition helmappsKind :: "string \<times> string \<times> string" where
  "helmappsKind = (''operator.pluma.io'', ''v1alpha1'', ''HelmApp'')"

type_synonym gvr = "string \<times> string \<times> string"

datatype action =
    GetAction gvr string string
  | ListAction gvr gvr string list_options
  | WatchAction gvr string list_options
  | CreateAction gvr string HelmApp
  | UpdateAction gvr string HelmApp
  | UpdateSubresourceAction gvr string string HelmApp
  | DeleteActionWithOptions gvr string string string
  | DeleteCollectionAction gvr string list_options
  | PatchSubresourceAction gvr string string string string "string list"

fun action_of :: "string \<Rightarrow> client_op \<Rightarrow> action" where
  "action_of ns (OpGet name opts) = GetAction helmappsResource ns name"
| "action_of ns (OpList opts) = ListAction helmappsResource helmappsKind ns opts"
| "action_of ns (OpWatch opts) = WatchAction helmappsResource ns opts"
| "action_of ns (OpCreate app opts) = CreateAction helmappsResource ns app"
| "action_of ns (OpUpdate app opts) = UpdateAction helmappsResource ns app"
| "action_of ns (OpUpdateStatus app opts) = UpdateSubresourceAction helmappsResource ''status'' ns app"
| "action_of ns (OpDelete name opts) = DeleteActionWithOptions helmappsResource ns name opts"
| "action_of ns (OpDeleteCollection opts listOpts) = DeleteCollectionAction helmappsResource ns listOpts"
| "action_of ns (OpPatch name pt data opts subs) =
     PatchSubresourceAction helmappsResource ns name pt data subs"

text \<open>
  The tracker answers an action with an object, or nil, and an error. \<open>fake_List\<close> filters the
  items itself, by the label selector only.
\<close>

record fake_tracker =
  ft_InvokesApp :: "action \<Rightarrow> HelmApp option \<times> string option"
  ft_InvokesList :: "action \<Rightarrow> HelmAppList option \<times> string option"
  ft_Label :: "list_options \<Rightarrow> ((string \<times> string) list \<Rightarrow> bool) option"

definition fake_Get :: "fake_tracker \<Rightarrow> string \<Rightarrow> string \<Rightarrow> HelmApp option \<times> string option" where
  "fake_Get F ns name =
     (let (obj, err) = ft_InvokesApp F (GetAction helmappsResource ns name) in
      case obj of None \<Rightarrow> (None, err) | Some a \<Rightarrow> (Some a, err))"

definition labels_set :: "HelmApp \<Rightarrow> (string \<times> string) list" where
  "labels_set app = (case om_Labels (ha_Meta app) of None \<Rightarrow> [] | Some ls \<Rightarrow> ls)"

fun matching_items :: "((string \<times> string) list \<Rightarrow> bool) \<Rightarrow> HelmApp list \<Rightarrow> HelmApp list \<Rightarrow> HelmApp list" where
  "matching_items label [] items = items"
| "matching_items label (item # rest) items =
     matching_items label rest (if label (labels_set item) then items @ [item] else items)"

definition fake_List :: "fake_tracker \<Rightarrow> string \<Rightarrow> list_options \<Rightarrow> HelmAppList option \<times> string option" where
  "fake_List F ns opts =
     (let (obj, err) = ft_InvokesList F (ListAction helmappsResource helmappsKind ns opts) in
      case obj of
        None \<Rightarrow> (None, err)
      | Some l \<Rightarrow>
          (let label = (case ft_Label F opts of None \<Rightarrow> (\<lambda>_. True) | Some f \<Rightarrow> f) in
           (Some \<lparr>hl_ListMeta = hl_ListMeta l, hl_Items = matching_items label (hl_Items l) []\<rparr>, err)))"

section \<open>Constructing clients\<close>

text \<open>A \<open>float32\<close> is positive: sign clear, not zero, not NaN.\<close>

definition f32_pos :: "32 word \<Rightarrow> bool" where
  "f32_pos q \<longleftrightarrow> q \<noteq> 0 \<and> q \<le> 0x7F800000"

record rest_config =
  cfg_UserAgent :: string
  cfg_QPS :: "32 word"
  cfg_Burst :: int
  cfg_RateLimiter :: "string option"
  cfg_GroupVersion :: "(string \<times> string) option"
  cfg_APIPath :: string
  cfg_NegotiatedSerializer :: string

record rest_lib =
  rl_DefaultKubernetesUserAgent :: string
  rl_Codecs :: string
  rl_HTTPClientFor :: "rest_config \<Rightarrow> string + string"
  rl_TokenBucket :: "32 word \<Rightarrow> int \<Rightarrow> string"
  rl_RESTClientFor :: "rest_config \<Rightarrow> string \<Rightarrow> string + rest_client"
  rl_DiscoveryFor :: "rest_config \<Rightarrow> string \<Rightarrow> string + string"

definition setConfigDefaults :: "rest_lib \<Rightarrow> rest_config \<Rightarrow> rest_config" where
  "setConfigDefaults R config =
     (let config = config\<lparr>cfg_GroupVersion := Some group_version, cfg_APIPath := ''/apis'',
            cfg_NegotiatedSerializer := rl_Codecs R\<rparr>
      in if cfg_UserAgent config = [] then config\<lparr>cfg_UserAgent := rl_DefaultKubernetesUserAgent R\<rparr>
         else config)"

definition operator_NewForConfigAndClient ::
    "rest_lib \<Rightarrow> rest_config \<Rightarrow> string \<Rightarrow> string + rest_client" where
  "operator_NewForConfigAndClient R c h =
     (let config = setConfigDefaults R c in
      case rl_RESTClientFor R config h of Inl err \<Rightarrow> Inl err | Inr client \<Rightarrow> Inr client)"

definition operator_NewForConfig :: "rest_lib \<Rightarrow> rest_config \<Rightarrow> string + rest_client" where
  "operator_NewForConfig R c =
     (let config = setConfigDefaults R c in
      case rl_HTTPClientFor R config of
        Inl err \<Rightarrow> Inl err
      | Inr httpClient \<Rightarrow> operator_NewForConfigAndClient R config httpClient)"

record clientset =
  cs_Discovery :: string
  cs_operator :: rest_client

definition burst_error :: string where
  "burst_error = ''burst is required to be greater than 0 when RateLimiter is not set and QPS is set to greater than 0''"

definition NewForConfigAndClient :: "rest_lib \<Rightarrow> rest_config \<Rightarrow> string \<Rightarrow> string + clientset" where
  "NewForConfigAndClient R c httpClient =
     (if cfg_RateLimiter c = None \<and> f32_pos (cfg_QPS c) \<and> cfg_Burst c \<le> 0 then Inl burst_error
      else
        (let config = (if cfg_RateLimiter c = None \<and> f32_pos (cfg_QPS c)
               then c\<lparr>cfg_RateLimiter := Some (rl_TokenBucket R (cfg_QPS c) (cfg_Burst c))\<rparr> else c)
         in case operator_NewForConfigAndClient R config httpClient of
              Inl err \<Rightarrow> Inl err
            | Inr client \<Rightarrow>
                (case rl_DiscoveryFor R config httpClient of
                   Inl err \<Rightarrow> Inl err
                 | Inr discovery \<Rightarrow> Inr \<lparr>cs_Discovery = discovery, cs_operator = client\<rparr>)))"

definition NewForConfig :: "rest_lib \<Rightarrow> rest_config \<Rightarrow> string + clientset" where
  "NewForConfig R c =
     (let config = (if cfg_UserAgent c = [] then c\<lparr>cfg_UserAgent := rl_DefaultKubernetesUserAgent R\<rparr> else c)
      in case rl_HTTPClientFor R config of
           Inl err \<Rightarrow> Inl err
         | Inr httpClient \<Rightarrow> NewForConfigAndClient R config httpClient)"

definition NewForConfigOrDie :: "rest_lib \<Rightarrow> rest_config \<Rightarrow> clientset outcome" where
  "NewForConfigOrDie R c = (case NewForConfig R c of Inl err \<Rightarrow> Panicked | Inr cs \<Rightarrow> Returned cs)"

section \<open>Properties\<close>

text \<open>What an operation is about: verb, group, resource, namespace, object name, subresources, selection
  and payload.\<close>

datatype access = Access string string string string "string option" "string list"
    "list_options option" "HelmApp option"

fun name_in :: "builder_call list \<Rightarrow> string option" where
  "name_in [] = None"
| "name_in (Name n # cs) = Some n"
| "name_in (c # cs) = name_in cs"

fun subs_in :: "builder_call list \<Rightarrow> string list" where
  "subs_in [] = []"
| "subs_in (SubResource ss # cs) = ss"
| "subs_in (c # cs) = subs_in cs"

fun ns_in :: "builder_call list \<Rightarrow> string" where
  "ns_in [] = []"
| "ns_in (Namespace n # cs) = n"
| "ns_in (c # cs) = ns_in cs"

fun resource_in :: "builder_call list \<Rightarrow> string" where
  "resource_in [] = []"
| "resource_in (Resource r # cs) = r"
| "resource_in (c # cs) = resource_in cs"

fun selection_in :: "builder_call list \<Rightarrow> list_options option" where
  "selection_in [] = None"
| "selection_in (VersionedParams (ListOptions opts) # cs) = Some (opts\<lparr>lo_Watch := False\<rparr>)"
| "selection_in (c # cs) = selection_in cs"

fun app_in :: "builder_call list \<Rightarrow> HelmApp option" where
  "app_in [] = None"
| "app_in (Body (AppBody a) # cs) = Some a"
| "app_in (c # cs) = app_in cs"

fun watches :: "builder_call list \<Rightarrow> bool" where
  "watches [] = False"
| "watches (VersionedParams (ListOptions opts) # cs) = lo_Watch opts"
| "watches (c # cs) = watches cs"

fun verb_name :: "verb \<Rightarrow> builder_call list \<Rightarrow> string" where
  "verb_name GET cs = (if name_in cs \<noteq> None then ''get'' else if watches cs then ''watch'' else ''list'')"
| "verb_name POST cs = ''create''"
| "verb_name PUT cs = ''update''"
| "verb_name DELETE cs = (if name_in cs \<noteq> None then ''delete'' else ''delete-collection'')"
| "verb_name (PATCH pt) cs = ''patch''"

definition request_access :: "request \<Rightarrow> access" where
  "request_access r = (case r of (v, cs) \<Rightarrow> Access (verb_name v cs) (fst group_version) (resource_in cs)
     (ns_in cs) (name_in cs) (subs_in cs) (selection_in cs) (app_in cs))"

definition unwatched :: "list_options \<Rightarrow> list_options" where
  "unwatched opts = opts\<lparr>lo_Watch := False\<rparr>"

fun action_access :: "action \<Rightarrow> access" where
  "action_access (GetAction (g, v, r) ns n) = Access ''get'' g r ns (Some n) [] None None"
| "action_access (ListAction (g, v, r) k ns opts) = Access ''list'' g r ns None [] (Some (unwatched opts)) None"
| "action_access (WatchAction (g, v, r) ns opts) = Access ''watch'' g r ns None [] (Some (unwatched opts)) None"
| "action_access (CreateAction (g, v, r) ns a) = Access ''create'' g r ns None [] None (Some a)"
| "action_access (UpdateAction (g, v, r) ns a) =
     Access ''update'' g r ns (Some (om_Name (ha_Meta a))) [] None (Some a)"
| "action_access (UpdateSubresourceAction (g, v, r) s ns a) =
     Access ''update'' g r ns (Some (om_Name (ha_Meta a))) [s] None (Some a)"
| "action_access (DeleteActionWithOptions (g, v, r) ns n opts) = Access ''delete'' g r ns (Some n) [] None None"
| "action_access (DeleteCollectionAction (g, v, r) ns opts) =
     Access ''delete-collection'' g r ns None [] (Some (unwatched opts)) None"
| "action_access (PatchSubresourceAction (g, v, r) ns n pt d ss) = Access ''patch'' g r ns (Some n) ss None None"

fun sane_op :: "client_op \<Rightarrow> bool" where
  "sane_op (OpList opts) = (\<not> lo_Watch opts)"
| "sane_op op = True"

lemmas request_defs = get_request_def list_request_def watch_request_def create_request_def
  update_request_def update_status_request_def delete_request_def delete_collection_request_def
  patch_request_def

text \<open>C36. The fake client is faithful to the real one: for every operation of the interface (a list call
  being one whose options do not ask for a watch), the action the fake records and the request the
  real client sends agree in verb, group, resource, namespace, name, subresources, selection and
  object.\<close>

theorem fake_matches_client:
  assumes "sane_op op"
  shows "action_access (action_of ns op) = request_access (request_of ns op)"
  using assms
  by (cases op) (auto simp: request_defs request_access_def helmappsResource_def group_version_def
      unwatched_def Let_def)

theorem fake_matches_client_witness:
  "action_access (action_of ''ns'' (OpWatch \<lparr>lo_LabelSelector = ''a=b'', lo_FieldSelector = [], lo_Watch = False,
      lo_TimeoutSeconds = Some 5\<rparr>)) =
   request_access (request_of ''ns'' (OpWatch \<lparr>lo_LabelSelector = ''a=b'', lo_FieldSelector = [], lo_Watch = False,
      lo_TimeoutSeconds = Some 5\<rparr>))"
  by (rule fake_matches_client) simp

lemma sint_word_of_int_exact:
  "- (2 ^ 63) \<le> k \<Longrightarrow> k < 2 ^ 63 \<Longrightarrow> sint (word_of_int k :: 64 word) = k"
  by (simp add: signed_of_int signed_take_bit_int_eq_self)

text \<open>C37. The request timeout of a list or watch is the given number of seconds in nanoseconds as long as
  that fits an \<open>int64\<close>, which is up to 9223372036 seconds; one second more and it wraps around to a
  negative duration.\<close>

theorem list_timeout_exact:
  assumes "lo_TimeoutSeconds opts = Some s" and "- 9223372036 \<le> sint s" and "sint s \<le> 9223372036"
  shows "Timeout (timeout_of opts) \<in> set (snd (list_request ns opts)) \<and>
    sint (timeout_of opts) = sint s * 1000000000 \<and>
    sint (timeout_of (opts\<lparr>lo_TimeoutSeconds := Some 9223372037\<rparr>)) < 0"
proof -
  have "timeout_of opts = word_of_int (sint s * 1000000000)"
    using assms(1) by (simp add: timeout_of_def nanoseconds_def)
  moreover have "sint (word_of_int (sint s * 1000000000) :: 64 word) = sint s * 1000000000"
    by (rule sint_word_of_int_exact) (use assms(2,3) in auto)
  ultimately have "sint (timeout_of opts) = sint s * 1000000000" by (simp only:)
  moreover have "sint (timeout_of (opts\<lparr>lo_TimeoutSeconds := Some 9223372037\<rparr>)) < 0"
    by (simp add: timeout_of_def nanoseconds_def)
  ultimately show ?thesis by (simp add: list_request_def)
qed

theorem list_timeout_exact_witness:
  "sint (timeout_of \<lparr>lo_LabelSelector = [], lo_FieldSelector = [], lo_Watch = False,
      lo_TimeoutSeconds = Some 30\<rparr>) = 30000000000"
  using list_timeout_exact [of "\<lparr>lo_LabelSelector = [], lo_FieldSelector = [], lo_Watch = False,
      lo_TimeoutSeconds = Some 30\<rparr>" 30] by simp

lemma matching_items_filter: "matching_items label xs acc = acc @ filter (label \<circ> labels_set) xs"
  by (induction xs arbitrary: acc) auto

definition effective_config :: "rest_lib \<Rightarrow> rest_config \<Rightarrow> rest_config" where
  "effective_config R c = setConfigDefaults R
     (if cfg_RateLimiter c = None \<and> f32_pos (cfg_QPS c)
      then c\<lparr>cfg_RateLimiter := Some (rl_TokenBucket R (cfg_QPS c) (cfg_Burst c))\<rparr> else c)"

text \<open>A clientset that is constructed talks to the HelmApp API: its client is built from a
  configuration with this group and version, the API path and a user agent, rate limited whenever the
  caller set a limiter or a positive rate; a positive rate without a positive burst is refused.\<close>

theorem clientset_config:
  "(cfg_RateLimiter c = None \<and> f32_pos (cfg_QPS c) \<and> cfg_Burst c \<le> 0 \<longrightarrow>
     NewForConfigAndClient R c h = Inl burst_error) \<and>
   (NewForConfigAndClient R c h = Inr cs \<longrightarrow>
     rl_RESTClientFor R (effective_config R c) h = Inr (cs_operator cs) \<and>
     cfg_GroupVersion (effective_config R c) = Some (''operator.pluma.io'', ''v1alpha1'') \<and>
     cfg_APIPath (effective_config R c) = ''/apis'' \<and>
     cfg_UserAgent (effective_config R c) = (if cfg_UserAgent c = [] then rl_DefaultKubernetesUserAgent R
       else cfg_UserAgent c) \<and>
     (cfg_RateLimiter c \<noteq> None \<or> f32_pos (cfg_QPS c) \<longrightarrow> cfg_RateLimiter (effective_config R c) \<noteq> None))"
  by (auto simp: NewForConfigAndClient_def operator_NewForConfigAndClient_def effective_config_def
      setConfigDefaults_def group_version_def Let_def split: sum.splits if_splits)

definition sample_rest_lib :: rest_lib where
  "sample_rest_lib = \<lparr>rl_DefaultKubernetesUserAgent = ''agent'', rl_Codecs = [],
     rl_HTTPClientFor = (\<lambda>c. Inr []), rl_TokenBucket = (\<lambda>q b. []),
     rl_RESTClientFor = (\<lambda>c h. Inl ''no transport''), rl_DiscoveryFor = (\<lambda>c h. Inr [])\<rparr>"

definition sample_rest_config :: rest_config where
  "sample_rest_config = \<lparr>cfg_UserAgent = [], cfg_QPS = 0x3F800000, cfg_Burst = 0, cfg_RateLimiter = None,
     cfg_GroupVersion = None, cfg_APIPath = [], cfg_NegotiatedSerializer = []\<rparr>"

theorem clientset_config_witness:
  "NewForConfigAndClient sample_rest_lib sample_rest_config ''http'' = Inl burst_error"
  using clientset_config [of sample_rest_config sample_rest_lib "''http''"]
  by (simp add: f32_pos_def sample_rest_config_def)

end
