(* ===== verification/Informer_Factory.thy ===== *)
theory Informer_Factory
  imports Typed_Client "HOL-Library.AList"
begin

text \<open>
  The shared informer factory, apis/client/informers/externalversions: factory.go, generic.go and the
  HelmApp informer of operator/v1alpha1/helmapp.go.

  \<^item> An informer is an object on the heap, identified by its address; \<open>wd_next\<close> is the next free one.
    Running it is a goroutine: \<open>wd_runs\<close> records the address and the stop channel of each.
  \<^item> Every operation holds the factory's lock, so the operations are atomic steps: \<open>factory_step\<close> is
    the step relation of any number of goroutines that share one factory, \<open>reachable_from\<close> its runs.
  \<^item> The order in which a Go map is visited is the order of the association list; no property depends
    on it.
\<close>

section \<open>State\<close>

type_synonym otype = string
type_synonym duration = "64 word"

record informer =
  inf_addr :: nat
  inf_type :: otype
  inf_ListFunc :: "list_options \<Rightarrow> request"
  inf_WatchFunc :: "list_options \<Rightarrow> request"
  inf_resync :: duration
  inf_indexers :: "string list"

record factory =
  fc_namespace :: string
  fc_tweak :: "(list_options \<Rightarrow> list_options) option"
  fc_defaultResync :: duration
  fc_customResync :: "(otype \<times> duration) list"
  fc_informers :: "(otype \<times> informer) list"
  fc_started :: "(otype \<times> bool) list"

record world =
  wd_factory :: factory
  wd_next :: nat
  wd_runs :: "(nat \<times> nat) list"

section \<open>Construction\<close>

type_synonym factory_option = "factory \<Rightarrow> factory"

definition WithCustomResyncConfig :: "(otype \<times> duration) list \<Rightarrow> factory_option" where
  "WithCustomResyncConfig resyncConfig f =
     f\<lparr>fc_customResync := fold (\<lambda>(k, v). AList.update k v) resyncConfig (fc_customResync f)\<rparr>"

definition WithTweakListOptions :: "(list_options \<Rightarrow> list_options) option \<Rightarrow> factory_option" where
  "WithTweakListOptions tweak f = f\<lparr>fc_tweak := tweak\<rparr>"

definition WithNamespace :: "string \<Rightarrow> factory_option" where
  "WithNamespace namespace f = f\<lparr>fc_namespace := namespace\<rparr>"

definition NewSharedInformerFactoryWithOptions :: "duration \<Rightarrow> factory_option list \<Rightarrow> factory" where
  "NewSharedInformerFactoryWithOptions defaultResync options =
     fold (\<lambda>opt factory. opt factory) options
       \<lparr>fc_namespace = [], fc_tweak = None, fc_defaultResync = defaultResync, fc_customResync = [],
        fc_informers = [], fc_started = []\<rparr>"

definition NewSharedInformerFactory :: "duration \<Rightarrow> factory" where
  "NewSharedInformerFactory defaultResync = NewSharedInformerFactoryWithOptions defaultResync []"

definition NewFilteredSharedInformerFactory ::
    "duration \<Rightarrow> string \<Rightarrow> (list_options \<Rightarrow> list_options) option \<Rightarrow> factory" where
  "NewFilteredSharedInformerFactory defaultResync namespace tweak =
     NewSharedInformerFactoryWithOptions defaultResync [WithNamespace namespace, WithTweakListOptions tweak]"

section \<open>Operations\<close>

text \<open>\<open>if !f.startedInformers[informerType]\<close>: a missing entry reads as false.\<close>

definition is_started :: "(otype \<times> bool) list \<Rightarrow> otype \<Rightarrow> bool" where
  "is_started started t = (map_of started t = Some True)"

fun start_loop ::
    "nat \<Rightarrow> (otype \<times> informer) list \<Rightarrow> (otype \<times> bool) list \<Rightarrow> (nat \<times> nat) list \<Rightarrow>
     (otype \<times> bool) list \<times> (nat \<times> nat) list" where
  "start_loop stopCh [] started runs = (started, runs)"
| "start_loop stopCh ((t, informer) # rest) started runs =
     (if \<not> is_started started t
      then start_loop stopCh rest (AList.update t True started) (runs @ [(inf_addr informer, stopCh)])
      else start_loop stopCh rest started runs)"

definition Start :: "nat \<Rightarrow> world \<Rightarrow> world" where
  "Start stopCh w =
     (let f = wd_factory w; (started, runs) = start_loop stopCh (fc_informers f) (fc_started f) (wd_runs w)
      in w\<lparr>wd_factory := f\<lparr>fc_started := started\<rparr>, wd_runs := runs\<rparr>)"

definition WaitForCacheSync :: "(informer \<Rightarrow> bool) \<Rightarrow> world \<Rightarrow> (otype \<times> bool) list" where
  "WaitForCacheSync synced w =
     (let f = wd_factory w; informers = filter (\<lambda>(t, i). is_started (fc_started f) t) (fc_informers f)
      in map (\<lambda>(t, i). (t, synced i)) informers)"

text \<open>A \<open>NewInformerFunc\<close> allocates: it gets the free address and the resync period.\<close>

definition InformerFor :: "otype \<Rightarrow> (nat \<Rightarrow> duration \<Rightarrow> informer) \<Rightarrow> world \<Rightarrow> informer \<times> world" where
  "InformerFor informerType newFunc w =
     (let f = wd_factory w in
      case map_of (fc_informers f) informerType of
        Some informer \<Rightarrow> (informer, w)
      | None \<Rightarrow>
          (let resyncPeriod = (case map_of (fc_customResync f) informerType of
                 None \<Rightarrow> fc_defaultResync f | Some d \<Rightarrow> d);
               informer = newFunc (wd_next w) resyncPeriod
           in (informer, w\<lparr>wd_factory := f\<lparr>fc_informers := AList.update informerType informer (fc_informers f)\<rparr>,
                 wd_next := Suc (wd_next w)\<rparr>)))"

section \<open>The HelmApp informer\<close>

definition HelmApp_type :: otype where "HelmApp_type = ''*v1alpha1.HelmApp''"
definition NamespaceIndex :: string where "NamespaceIndex = ''namespace''"

definition NewFilteredHelmAppInformer ::
    "string \<Rightarrow> duration \<Rightarrow> string list \<Rightarrow> (list_options \<Rightarrow> list_options) option \<Rightarrow> nat \<Rightarrow> informer" where
  "NewFilteredHelmAppInformer namespace resyncPeriod indexers tweak addr =
     \<lparr>inf_addr = addr, inf_type = HelmApp_type,
      inf_ListFunc = (\<lambda>options. list_request namespace
        (case tweak of None \<Rightarrow> options | Some tw \<Rightarrow> tw options)),
      inf_WatchFunc = (\<lambda>options. watch_request namespace
        (case tweak of None \<Rightarrow> options | Some tw \<Rightarrow> tw options)),
      inf_resync = resyncPeriod, inf_indexers = indexers\<rparr>"

definition NewHelmAppInformer :: "string \<Rightarrow> duration \<Rightarrow> string list \<Rightarrow> nat \<Rightarrow> informer" where
  "NewHelmAppInformer namespace resyncPeriod indexers addr =
     NewFilteredHelmAppInformer namespace resyncPeriod indexers None addr"

definition defaultInformer ::
    "string \<Rightarrow> (list_options \<Rightarrow> list_options) option \<Rightarrow> nat \<Rightarrow> duration \<Rightarrow> informer" where
  "defaultInformer namespace tweak addr resyncPeriod =
     NewFilteredHelmAppInformer namespace resyncPeriod [NamespaceIndex] tweak addr"

text \<open>\<open>factory.Operator().V1alpha1().HelmApps().Informer()\<close>: the three accessors hand the namespace and
  the tweak of the factory down.\<close>

definition helmAppInformer_Informer :: "world \<Rightarrow> informer \<times> world" where
  "helmAppInformer_Informer w = InformerFor HelmApp_type
     (defaultInformer (fc_namespace (wd_factory w)) (fc_tweak (wd_factory w))) w"

definition no_informer :: "string \<times> string \<times> string \<Rightarrow> string" where
  "no_informer r = (case r of (g, v, k) \<Rightarrow> ''no informer found for '' @ g @ ''/'' @ v @ '', Resource='' @ k)"

definition ForResource :: "string \<times> string \<times> string \<Rightarrow> world \<Rightarrow> (string + informer \<times> string \<times> string) \<times> world" where
  "ForResource resource w =
     (if resource = (fst group_version, snd group_version, ''helmapps'')
      then (let (informer, w') = helmAppInformer_Informer w in
        (Inr (informer, fst resource, snd (snd resource)), w'))
      else (Inl (no_informer resource), w))"

section \<open>Runs\<close>

inductive factory_step :: "world \<Rightarrow> world \<Rightarrow> bool" where
  request: "(\<And>a d. inf_addr (newFunc a d) = a) \<Longrightarrow> factory_step w (snd (InformerFor t newFunc w))"
| start: "factory_step w (Start stopCh w)"

inductive reachable_from :: "world \<Rightarrow> world \<Rightarrow> bool" where
  refl: "reachable_from w w"
| step: "reachable_from w w' \<Longrightarrow> factory_step w' w'' \<Longrightarrow> reachable_from w w''"

inductive_cases factory_stepE: "factory_step w w'"
inductive_simps reachable_from_simps: "reachable_from w w'"

definition new_world :: "duration \<Rightarrow> factory_option list \<Rightarrow> world" where
  "new_world d options = \<lparr>wd_factory = NewSharedInformerFactoryWithOptions d options, wd_next = 0, wd_runs = []\<rparr>"

text \<open>An option is one of the three the package exports: it touches none of the two tables.\<close>

definition table_free :: "factory_option \<Rightarrow> bool" where
  "table_free opt \<longleftrightarrow> (\<forall>f. fc_informers (opt f) = fc_informers f \<and> fc_started (opt f) = fc_started f)"

lemma exported_options [simp]:
  "table_free (WithCustomResyncConfig c)" "table_free (WithTweakListOptions t)" "table_free (WithNamespace n)"
  by (simp_all add: table_free_def WithCustomResyncConfig_def WithTweakListOptions_def WithNamespace_def)

lemma new_world_tables:
  assumes "list_all table_free options"
  shows "fc_informers (wd_factory (new_world d options)) = [] \<and> fc_started (wd_factory (new_world d options)) = []"
proof -
  have "fc_informers (fold (\<lambda>opt f. opt f) options f) = fc_informers f \<and>
      fc_started (fold (\<lambda>opt f. opt f) options f) = fc_started f" for f
    using assms by (induction options arbitrary: f) (auto simp: table_free_def)
  then show ?thesis by (simp add: new_world_def NewSharedInformerFactoryWithOptions_def)
qed

section \<open>The invariant\<close>

lemma is_started_update [simp]: "is_started (AList.update t True s) u \<longleftrightarrow> u = t \<or> is_started s u"
  by (simp add: is_started_def update_conv')

definition pending :: "(otype \<times> bool) list \<Rightarrow> (otype \<times> informer) list \<Rightarrow> (otype \<times> informer) list" where
  "pending started es = filter (\<lambda>(t, i). \<not> is_started started t) es"

lemma key_in: "(t, i) \<in> set es \<Longrightarrow> t \<in> fst ` set es"
  by force

lemma start_loop_result:
  "distinct (map fst es) \<Longrightarrow> start_loop stopCh es started runs = (started', runs') \<Longrightarrow>
   runs' = runs @ map (\<lambda>(t, i). (inf_addr i, stopCh)) (pending started es) \<and>
   (\<forall>t. is_started started' t \<longleftrightarrow> is_started started t \<or> t \<in> fst ` set es)"
proof (induction es arbitrary: started runs)
  case (Cons e es)
  obtain t i where e: "e = (t, i)" by fastforce
  have "pending (AList.update t True started) es = pending started es" if "t \<notin> fst ` set es"
    using that by (auto simp: pending_def intro!: filter_cong dest: key_in)
  then show ?case
    using Cons.IH [of "if is_started started t then started else AList.update t True started"
        "if is_started started t then runs else runs @ [(inf_addr i, stopCh)]"] Cons.prems e
    by (auto simp: pending_def split: if_splits)
qed (simp add: pending_def)

definition run_addrs :: "world \<Rightarrow> nat list" where
  "run_addrs w = map fst (wd_runs w)"

definition started_informers :: "world \<Rightarrow> (otype \<times> informer) list" where
  "started_informers w = filter (\<lambda>(t, i). is_started (fc_started (wd_factory w)) t) (fc_informers (wd_factory w))"

definition informer_addrs :: "(otype \<times> informer) list \<Rightarrow> nat list" where
  "informer_addrs es = map (\<lambda>(t, i). inf_addr i) es"

definition factory_inv :: "world \<Rightarrow> bool" where
  "factory_inv w \<longleftrightarrow>
     distinct (map fst (fc_informers (wd_factory w))) \<and>
     distinct (informer_addrs (fc_informers (wd_factory w))) \<and>
     (\<forall>a \<in> set (informer_addrs (fc_informers (wd_factory w))). a < wd_next w) \<and>
     (\<forall>t. is_started (fc_started (wd_factory w)) t \<longrightarrow> t \<in> fst ` set (fc_informers (wd_factory w))) \<and>
     distinct (run_addrs w) \<and> set (run_addrs w) = set (informer_addrs (started_informers w))"

lemma informer_addrs_filter: "distinct (informer_addrs es) \<Longrightarrow> distinct (informer_addrs (filter P es))"
  by (simp add: informer_addrs_def distinct_map_filter)

lemma AList_update_new: "map_of es k = None \<Longrightarrow> AList.update k v es = es @ [(k, v)]"
  by (induction es) auto

lemma InformerFor_cases:
  obtains (old) i where "map_of (fc_informers (wd_factory w)) t = Some i" "InformerFor t newFunc w = (i, w)"
  | (new) d where "map_of (fc_informers (wd_factory w)) t = None"
      "InformerFor t newFunc w = (newFunc (wd_next w) d,
         w\<lparr>wd_factory := (wd_factory w)\<lparr>fc_informers := fc_informers (wd_factory w) @ [(t, newFunc (wd_next w) d)]\<rparr>,
           wd_next := Suc (wd_next w)\<rparr>)"
  by (cases "map_of (fc_informers (wd_factory w)) t") (auto simp: InformerFor_def Let_def AList_update_new)

lemma InformerFor_inv:
  assumes "factory_inv w" and "\<And>a d. inf_addr (newFunc a d) = a"
  shows "factory_inv (snd (InformerFor t newFunc w))"
proof (cases rule: InformerFor_cases [of w t newFunc])
  case (old i)
  with assms show ?thesis by simp
next
  case (new d)
  have "\<not> is_started (fc_started (wd_factory w)) t"
    using assms(1) new(1) by (force simp: factory_inv_def map_of_eq_None_iff)
  moreover have "wd_next w \<notin> set (informer_addrs (fc_informers (wd_factory w)))"
    using assms(1) by (auto simp: factory_inv_def)
  ultimately show ?thesis
    using assms new
    by (auto simp: factory_inv_def run_addrs_def started_informers_def informer_addrs_def map_of_eq_None_iff)
qed

lemma Start_inv:
  assumes "factory_inv w"
  shows "factory_inv (Start stopCh w)"
proof -
  let ?es = "fc_informers (wd_factory w)" and ?s = "fc_started (wd_factory w)"
  obtain s' r' where sl: "start_loop stopCh ?es ?s (wd_runs w) = (s', r')" by fastforce
  have d: "distinct (map fst ?es)" "distinct (informer_addrs ?es)" using assms by (auto simp: factory_inv_def)
  have res: "r' = wd_runs w @ map (\<lambda>(t, i). (inf_addr i, stopCh)) (pending ?s ?es)"
    "\<And>t. is_started s' t \<longleftrightarrow> is_started ?s t \<or> t \<in> fst ` set ?es"
    using start_loop_result [OF d(1) sl] by auto
  have w': "Start stopCh w = w\<lparr>wd_factory := (wd_factory w)\<lparr>fc_started := s'\<rparr>, wd_runs := r'\<rparr>"
    by (simp add: Start_def sl Let_def)
  have all: "started_informers (Start stopCh w) = ?es"
    unfolding started_informers_def w' by (auto simp: res(2) intro!: filter_True dest: key_in)
  have runs: "run_addrs (Start stopCh w) = run_addrs w @ informer_addrs (pending ?s ?es)"
    by (simp add: run_addrs_def w' res(1) informer_addrs_def case_prod_beta comp_def)
  have old: "set (run_addrs w) = set (informer_addrs (filter (\<lambda>(t, i). is_started ?s t) ?es))"
    using assms by (simp add: factory_inv_def started_informers_def)
  have "set (informer_addrs ?es) = set (run_addrs w) \<union> set (informer_addrs (pending ?s ?es))"
    unfolding old by (auto simp: informer_addrs_def pending_def)
  moreover have "set (run_addrs w) \<inter> set (informer_addrs (pending ?s ?es)) = {}"
    using d(2) unfolding old
    by (fastforce simp: informer_addrs_def pending_def distinct_map inj_on_def)
  moreover have "distinct (informer_addrs (pending ?s ?es))"
    using d(2) unfolding pending_def by (rule informer_addrs_filter)
  ultimately have "distinct (run_addrs (Start stopCh w)) \<and>
      set (run_addrs (Start stopCh w)) = set (informer_addrs (started_informers (Start stopCh w)))"
    using assms unfolding runs all by (auto simp: factory_inv_def)
  moreover have "is_started s' t \<Longrightarrow> t \<in> fst ` set ?es" for t
    using assms unfolding res(2) by (auto simp: factory_inv_def)
  ultimately show ?thesis
    using assms by (auto simp: factory_inv_def w')
qed

lemma reachable_inv:
  assumes "reachable_from (new_world d options) w" and "list_all table_free options"
  shows "factory_inv w"
  using assms(1)
proof (induction "new_world d options" w rule: reachable_from.induct)
  case refl
  have "wd_runs (new_world d options) = []" by (simp add: new_world_def)
  with new_world_tables [OF assms(2), of d] show ?case
    by (auto simp: factory_inv_def run_addrs_def started_informers_def informer_addrs_def is_started_def)
next
  case (step w' w'')
  from step(3) show ?case
    by (rule factory_stepE) (auto intro: InformerFor_inv Start_inv step(2))
qed

lemma map_of_append_new: "map_of es k = Some v \<Longrightarrow> map_of (es @ fs) k = Some v"
  by (simp add: map_add_def)

lemma step_keeps_informer:
  assumes "factory_step w w'" and "map_of (fc_informers (wd_factory w)) t = Some i"
  shows "map_of (fc_informers (wd_factory w')) t = Some i"
  using assms(1)
proof (rule factory_stepE)
  fix newFunc :: "nat \<Rightarrow> duration \<Rightarrow> informer" and u
  assume w': "w' = snd (InformerFor u newFunc w)"
  show ?thesis
    by (cases rule: InformerFor_cases [of w u newFunc]) (use assms(2) w' in \<open>auto simp: map_of_append_new\<close>)
next
  fix stopCh
  assume "w' = Start stopCh w"
  with assms(2) show ?thesis by (simp add: Start_def Let_def split: prod.splits)
qed

lemma run_keeps_informer:
  "reachable_from w w' \<Longrightarrow> map_of (fc_informers (wd_factory w)) t = Some i \<Longrightarrow>
   map_of (fc_informers (wd_factory w')) t = Some i"
  by (induction rule: reachable_from.induct) (auto intro: step_keeps_informer)

lemma InformerFor_registers:
  "map_of (fc_informers (wd_factory (snd (InformerFor t newFunc w)))) t = Some (fst (InformerFor t newFunc w))"
  by (cases rule: InformerFor_cases [of w t newFunc]) (auto simp: map_add_def)

lemma WaitForCacheSync_started: "WaitForCacheSync synced w = map (\<lambda>(t, i). (t, synced i)) (started_informers w)"
  by (simp add: WaitForCacheSync_def started_informers_def Let_def)

lemma Start_starts_all:
  assumes "factory_inv w"
  shows "started_informers (Start s w) = fc_informers (wd_factory w)"
proof -
  obtain s1 r1 where sl: "start_loop s (fc_informers (wd_factory w)) (fc_started (wd_factory w)) (wd_runs w) = (s1, r1)"
    by fastforce
  have "distinct (map fst (fc_informers (wd_factory w)))" using assms by (simp add: factory_inv_def)
  then have "is_started s1 t" if "(t, i) \<in> set (fc_informers (wd_factory w))" for t i
    using start_loop_result [OF _ sl] that by (auto dest: key_in)
  then show ?thesis by (auto simp: started_informers_def Start_def sl intro!: filter_True)
qed

lemma Start_runs_all:
  assumes "factory_inv w"
  shows "set (run_addrs (Start s w)) = set (informer_addrs (fc_informers (wd_factory w)))"
  using Start_inv [OF assms, of s] unfolding factory_inv_def Start_starts_all [OF assms] by blast

lemma Start_factory: "fc_informers (wd_factory (Start s w)) = fc_informers (wd_factory w)"
  by (simp add: Start_def Let_def split: prod.splits)

lemma Start_again:
  assumes "factory_inv w"
  shows "run_addrs (Start s' (Start s w)) = run_addrs (Start s w)"
proof -
  let ?w = "Start s w"
  obtain s2 r2 where sl: "start_loop s' (fc_informers (wd_factory ?w)) (fc_started (wd_factory ?w)) (wd_runs ?w) = (s2, r2)"
    by fastforce
  have "distinct (map fst (fc_informers (wd_factory ?w)))"
    using Start_inv [OF assms, of s] by (simp add: factory_inv_def)
  moreover have "pending (fc_started (wd_factory ?w)) (fc_informers (wd_factory ?w)) = []"
    using Start_starts_all [OF assms, of s] unfolding started_informers_def Start_factory
    by (auto simp: pending_def filter_empty_conv filter_id_conv)
  ultimately have "r2 = wd_runs ?w" using start_loop_result [OF _ sl] by simp
  then show ?thesis by (simp add: run_addrs_def Start_def [of s' ?w] sl)
qed

section \<open>Properties\<close>

text \<open>C33. However requests for informers and calls of \<open>Start\<close> interleave, no informer is run twice, and
  the informers that run are exactly those the factory has marked as started.\<close>

theorem each_informer_runs_once:
  assumes "reachable_from (new_world d options) w" and "list_all table_free options"
  shows "distinct (run_addrs w) \<and> set (run_addrs w) = set (informer_addrs (started_informers w))"
  using reachable_inv [OF assms] by (simp add: factory_inv_def)

definition demo_world :: world where
  "demo_world = Start 7 (Start 7 (snd (helmAppInformer_Informer (new_world 30 [WithNamespace ''ns'']))))"

lemma demo_reachable: "reachable_from (new_world 30 [WithNamespace ''ns'']) demo_world"
proof -
  let ?w = "new_world 30 [WithNamespace ''ns'']"
  have "reachable_from ?w (snd (helmAppInformer_Informer ?w))"
    unfolding helmAppInformer_Informer_def
    by (rule reachable_from.step [OF reachable_from.refl factory_step.request])
       (simp add: defaultInformer_def NewFilteredHelmAppInformer_def)
  then show ?thesis
    unfolding demo_world_def by (blast intro: reachable_from.step factory_step.start)
qed

theorem each_informer_runs_once_witness: "distinct (run_addrs demo_world)"
  using each_informer_runs_once [OF demo_reachable] by simp

text \<open>\<open>Start\<close> leaves nothing behind: after it every requested informer runs, once; calling it again
  runs nothing more; and \<open>WaitForCacheSync\<close> then waits for, and reports on, every requested type.\<close>

theorem start_is_complete_and_idempotent:
  assumes "reachable_from (new_world d options) w" and "list_all table_free options"
  shows "set (run_addrs (Start s w)) = set (informer_addrs (fc_informers (wd_factory w))) \<and>
    run_addrs (Start s' (Start s w)) = run_addrs (Start s w) \<and>
    WaitForCacheSync synced (Start s w) = map (\<lambda>(t, i). (t, synced i)) (fc_informers (wd_factory w))"
  using reachable_inv [OF assms]
  by (simp add: Start_runs_all Start_again WaitForCacheSync_started Start_starts_all)

theorem start_is_complete_and_idempotent_witness:
  "run_addrs (Start 8 (Start 7 demo_world)) = run_addrs (Start 7 demo_world)"
  using start_is_complete_and_idempotent [OF demo_reachable] by simp

text \<open>Informers are shared: once a type has been requested, every later request for it, after any
  number of other requests and starts and whatever constructor it brings, returns the same informer.\<close>

theorem informer_is_shared:
  assumes "reachable_from (snd (InformerFor t newFunc w)) w'"
  shows "fst (InformerFor t otherFunc w') = fst (InformerFor t newFunc w)"
  using run_keeps_informer [OF assms InformerFor_registers] by (simp add: InformerFor_def Let_def)

theorem informer_is_shared_witness:
  "fst (InformerFor HelmApp_type (\<lambda>a d. NewHelmAppInformer [] d [] a)
      (Start 7 (snd (InformerFor HelmApp_type (\<lambda>a d. NewHelmAppInformer [] d [''x''] a) (new_world 30 []))))) =
   fst (InformerFor HelmApp_type (\<lambda>a d. NewHelmAppInformer [] d [''x''] a) (new_world 30 []))"
  by (rule informer_is_shared) (rule reachable_from.step [OF reachable_from.refl factory_step.start])

text \<open>The generic accessor knows one resource: for the HelmApps of this group and version it returns
  the very informer the typed accessor returns, and for anything else an error that names it; on a
  new filtered factory that informer lists and watches only the factory's namespace, with the
  factory's tweak applied to the options.\<close>

theorem for_resource:
  "ForResource r w = (if r = (''operator.pluma.io'', ''v1alpha1'', ''helmapps'')
     then (Inr (fst (helmAppInformer_Informer w), ''operator.pluma.io'', ''helmapps''), snd (helmAppInformer_Informer w))
     else (Inl (no_informer r), w)) \<and>
   (let i = fst (helmAppInformer_Informer \<lparr>wd_factory = NewFilteredSharedInformerFactory d ns (Some tweak),
       wd_next = n, wd_runs = []\<rparr>)
    in inf_ListFunc i opts = list_request ns (tweak opts) \<and> inf_WatchFunc i opts = watch_request ns (tweak opts) \<and>
       inf_resync i = d)"
  by (auto simp: ForResource_def group_version_def Let_def helmAppInformer_Informer_def InformerFor_def
      NewFilteredSharedInformerFactory_def NewSharedInformerFactoryWithOptions_def WithNamespace_def
      WithTweakListOptions_def defaultInformer_def NewFilteredHelmAppInformer_def split: prod.splits)

end
