(* ===== verification/Lister.thy ===== *)
theory Lister
  imports API_Types
begin

text \<open>
  The lister for HelmApps, apis/client/listers/operator/v1alpha1/helmapp.go. The indexer of client-go is
  a parameter: the objects a listing visits, in order, and the object stored under a key. An object
  that is not a HelmApp makes the type assertion \<open>m.(*v1alpha1.HelmApp)\<close> panic.
\<close>

datatype any_object = AHelmApp HelmApp | OtherObject string

datatype lister_error = IndexerError string | NotFoundError "string \<times> string" string

type_synonym selector = string

record indexer =
  ix_ListAll :: "selector \<Rightarrow> any_object list \<times> string option"
  ix_ListAllByNamespace :: "string \<Rightarrow> selector \<Rightarrow> any_object list \<times> string option"
  ix_GetByKey :: "string \<Rightarrow> any_object option \<times> string option"

fun append_all :: "any_object list \<Rightarrow> HelmApp list \<Rightarrow> HelmApp list outcome" where
  "append_all [] ret = Returned ret"
| "append_all (AHelmApp m # ms) ret = append_all ms (ret @ [m])"
| "append_all (OtherObject p # ms) ret = Panicked"

definition lister_List :: "indexer \<Rightarrow> selector \<Rightarrow> (HelmApp list \<times> string option) outcome" where
  "lister_List ix selector =
     (let (ms, err) = ix_ListAll ix selector in
      case append_all ms [] of Panicked \<Rightarrow> Panicked | Returned ret \<Rightarrow> Returned (ret, err))"

definition namespace_List :: "indexer \<Rightarrow> string \<Rightarrow> selector \<Rightarrow> (HelmApp list \<times> string option) outcome" where
  "namespace_List ix namespace selector =
     (let (ms, err) = ix_ListAllByNamespace ix namespace selector in
      case append_all ms [] of Panicked \<Rightarrow> Panicked | Returned ret \<Rightarrow> Returned (ret, err))"

definition namespace_Get :: "indexer \<Rightarrow> string \<Rightarrow> string \<Rightarrow> (lister_error + HelmApp) outcome" where
  "namespace_Get ix namespace name =
     (let (obj, err) = ix_GetByKey ix (namespace @ ''/'' @ name) in
      case err of
        Some m \<Rightarrow> Returned (Inl (IndexerError m))
      | None \<Rightarrow>
          (case obj of
             None \<Rightarrow> Returned (Inl (NotFoundError (''operator.pluma.io'', ''helmapp'') name))
           | Some (AHelmApp a) \<Rightarrow> Returned (Inr a)
           | Some (OtherObject p) \<Rightarrow> Panicked))"

text \<open>The key function of a namespaced informer: the HelmApps of the store are filed under it.\<close>

definition filed_by_key :: "indexer \<Rightarrow> bool" where
  "filed_by_key ix \<longleftrightarrow> (\<forall>k a. fst (ix_GetByKey ix k) = Some (AHelmApp a) \<longrightarrow>
     k = om_Namespace (ha_Meta a) @ ''/'' @ om_Name (ha_Meta a) \<and> CHR ''/'' \<notin> set (om_Namespace (ha_Meta a)))"

lemma split_key:
  "xs @ c # ys = xs' @ c # ys' \<Longrightarrow> c \<notin> set xs \<Longrightarrow> c \<notin> set xs' \<Longrightarrow> xs = xs' \<and> ys = ys'"
proof (induction xs arbitrary: xs')
  case Nil
  then show ?case by (cases xs') auto
next
  case (Cons x xs)
  then show ?case by (cases xs') auto
qed

text \<open>A namespaced lookup finds only the object of that namespace and name: namespace and name can be
  recovered from the key, whatever the name is, because a namespace contains no slash. An object
  that is not stored is reported as not found, under the name asked for.\<close>

theorem namespace_get_exact:
  assumes "filed_by_key ix" and "CHR ''/'' \<notin> set ns"
  shows "(\<forall>a. namespace_Get ix ns name = Returned (Inr a) \<longrightarrow>
      om_Namespace (ha_Meta a) = ns \<and> om_Name (ha_Meta a) = name) \<and>
    (ix_GetByKey ix (ns @ ''/'' @ name) = (None, None) \<longrightarrow>
      namespace_Get ix ns name = Returned (Inl (NotFoundError (''operator.pluma.io'', ''helmapp'') name)))"
proof -
  have "om_Namespace (ha_Meta a) = ns \<and> om_Name (ha_Meta a) = name"
    if got: "namespace_Get ix ns name = Returned (Inr a)" for a
  proof -
    have "fst (ix_GetByKey ix (ns @ ''/'' @ name)) = Some (AHelmApp a)"
      using got by (auto simp: namespace_Get_def split: prod.splits option.splits any_object.splits)
    then have "ns @ CHR ''/'' # name = om_Namespace (ha_Meta a) @ CHR ''/'' # om_Name (ha_Meta a)"
      and "CHR ''/'' \<notin> set (om_Namespace (ha_Meta a))"
      using assms(1) by (auto simp: filed_by_key_def)
    with split_key assms(2) show ?thesis by metis
  qed
  then show ?thesis by (auto simp: namespace_Get_def)
qed

definition filed_app :: HelmApp where
  "filed_app = \<lparr>ha_Meta = \<lparr>om_Name = ''a/b'', om_Namespace = ''ns'', om_ResourceVersion = [], om_Labels = None,
     om_Finalizers = [], om_DeletionTimestamp = None\<rparr>, ha_Spec = None, ha_Status = None\<rparr>"

definition one_object :: indexer where
  "one_object = \<lparr>ix_ListAll = (\<lambda>s. ([AHelmApp filed_app], None)),
     ix_ListAllByNamespace = (\<lambda>n s. ([AHelmApp filed_app], None)),
     ix_GetByKey = (\<lambda>k. (if k = ''ns/a/b'' then Some (AHelmApp filed_app) else None, None))\<rparr>"

theorem namespace_get_exact_witness:
  "namespace_Get one_object ''ns'' ''a'' = Returned (Inl (NotFoundError (''operator.pluma.io'', ''helmapp'') ''a''))"
proof -
  have "filed_by_key one_object" by (auto simp: filed_by_key_def one_object_def filed_app_def split: if_splits)
  from namespace_get_exact [OF this, of "''ns''" "''a''"] show ?thesis by (simp add: one_object_def)
qed

lemma append_all_apps: "append_all (map AHelmApp as) ret = Returned (ret @ as)"
  by (induction as arbitrary: ret) auto

text \<open>A listing returns the HelmApps the indexer visits, all of them, in its order, together with its
  error; it panics exactly when the indexer holds an object of another type.\<close>

theorem lister_lists_all:
  assumes "ix_ListAll ix s = (ms, err)"
  shows "(\<forall>as. ms = map AHelmApp as \<longrightarrow> lister_List ix s = Returned (as, err)) \<and>
    (lister_List ix s = Panicked \<longleftrightarrow> list_ex (\<lambda>m. \<exists>p. m = OtherObject p) ms)"
proof -
  have "append_all ms ret = Panicked \<longleftrightarrow> list_ex (\<lambda>m. \<exists>p. m = OtherObject p) ms" for ret
    by (induction ms ret rule: append_all.induct) auto
  then show ?thesis
    using assms by (auto simp: lister_List_def append_all_apps split: outcome.splits)
qed

theorem lister_lists_all_witness: "lister_List one_object [] = Returned ([filed_app], None)"
proof -
  have "ix_ListAll one_object [] = ([AHelmApp filed_app], None)" by (simp add: one_object_def)
  from lister_lists_all [OF this, THEN conjunct1, THEN spec, of "[filed_app]"] show ?thesis by simp
qed

end
