(* ===== verification/Accessors.thy ===== *)
theory Accessors
  imports Informer_Factory Lister
begin

text \<open>
  How callers get at the generated client code: the accessors of the clientset (clientset.go), the group
  client (operator_client.go), the typed client (helmapp.go), the informer factory (factory.go,
  operator/interface.go, operator/v1alpha1/interface.go and helmapp.go, generic.go) and the listers.

  \<^item> A receiver that may be nil is an option. A group client is its REST client, as in
    \<open>Typed_Client\<close>; an interface value that holds no REST client is \<open>None\<close>.
  \<^item> The structs on the way from the factory to an informer hold the factory itself, which here is
    the one in the world the operation is applied to.
  \<^item> \<open>GetIndexer\<close> of client-go is a parameter: the indexer of an informer.
\<close>

section \<open>The clientset\<close>

definition OperatorV1alpha1 :: "clientset option \<Rightarrow> rest_client outcome" where
  "OperatorV1alpha1 c = (case c of None \<Rightarrow> Panicked | Some cs \<Rightarrow> Returned (cs_operator cs))"

definition Discovery :: "clientset option \<Rightarrow> string option" where
  "Discovery c = (if c = None then None else map_option cs_Discovery c)"

definition operator_New :: "rest_client \<Rightarrow> rest_client" where
  "operator_New c = c"

definition clientset_New :: "(rest_client \<Rightarrow> string) \<Rightarrow> rest_client \<Rightarrow> clientset" where
  "clientset_New NewDiscoveryClient c = \<lparr>cs_Discovery = NewDiscoveryClient c, cs_operator = operator_New c\<rparr>"

definition operator_NewForConfigOrDie :: "rest_lib \<Rightarrow> rest_config \<Rightarrow> rest_client outcome" where
  "operator_NewForConfigOrDie R c =
     (case operator_NewForConfig R c of Inl err \<Rightarrow> Panicked | Inr client \<Rightarrow> Returned client)"

definition RESTClient :: "rest_client option \<Rightarrow> rest_client option" where
  "RESTClient c = (case c of None \<Rightarrow> None | Some client \<Rightarrow> Some client)"

record typed_client =
  tc_client :: "rest_client option"
  tc_ns :: string

definition newHelmApps :: "rest_client option \<Rightarrow> string \<Rightarrow> typed_client" where
  "newHelmApps c namespace = \<lparr>tc_client = RESTClient c, tc_ns = namespace\<rparr>"

definition operator_HelmApps :: "rest_client option \<Rightarrow> string \<Rightarrow> typed_client" where
  "operator_HelmApps c namespace = newHelmApps c namespace"

text \<open>An operation of the typed client: calling a method of a nil interface panics.\<close>

definition typed_Get :: "typed_client \<Rightarrow> string \<Rightarrow> string \<Rightarrow> (HelmApp \<times> string option) outcome" where
  "typed_Get c name options =
     (case tc_client c of None \<Rightarrow> Panicked | Some C \<Rightarrow> Returned (helmApps_Get C (tc_ns c) name options))"

definition typed_List :: "typed_client \<Rightarrow> list_options \<Rightarrow> (HelmAppList \<times> string option) outcome" where
  "typed_List c opts =
     (case tc_client c of None \<Rightarrow> Panicked | Some C \<Rightarrow> Returned (helmApps_List C (tc_ns c) opts))"

definition typed_Watch :: "typed_client \<Rightarrow> list_options \<Rightarrow> (string + string) outcome" where
  "typed_Watch c opts =
     (case tc_client c of None \<Rightarrow> Panicked | Some C \<Rightarrow> Returned (helmApps_Watch C (tc_ns c) opts))"

section \<open>The listers\<close>

record helmAppLister = ls_indexer :: indexer

record helmAppNamespaceLister =
  ns_indexer :: indexer
  ns_namespace :: string

definition NewHelmAppLister :: "indexer \<Rightarrow> helmAppLister" where
  "NewHelmAppLister ix = \<lparr>ls_indexer = ix\<rparr>"

definition lister_HelmApps :: "helmAppLister \<Rightarrow> string \<Rightarrow> helmAppNamespaceLister" where
  "lister_HelmApps s namespace = \<lparr>ns_indexer = ls_indexer s, ns_namespace = namespace\<rparr>"

section \<open>From the factory to an informer\<close>

record scope =
  sp_namespace :: string
  sp_tweak :: "(list_options \<Rightarrow> list_options) option"

text \<open>The group, the version and the informer accessor are the same three fields one after the other.\<close>

definition operator_group_New :: "string \<Rightarrow> (list_options \<Rightarrow> list_options) option \<Rightarrow> scope" where
  "operator_group_New namespace tweak = \<lparr>sp_namespace = namespace, sp_tweak = tweak\<rparr>"

definition factory_Operator :: "world \<Rightarrow> scope" where
  "factory_Operator w = operator_group_New (fc_namespace (wd_factory w)) (fc_tweak (wd_factory w))"

definition version_New :: "string \<Rightarrow> (list_options \<Rightarrow> list_options) option \<Rightarrow> scope" where
  "version_New namespace tweak = \<lparr>sp_namespace = namespace, sp_tweak = tweak\<rparr>"

definition group_V1alpha1 :: "scope \<Rightarrow> scope" where
  "group_V1alpha1 g = version_New (sp_namespace g) (sp_tweak g)"

definition version_HelmApps :: "scope \<Rightarrow> scope" where
  "version_HelmApps v = \<lparr>sp_namespace = sp_namespace v, sp_tweak = sp_tweak v\<rparr>"

definition scoped_Informer :: "scope \<Rightarrow> world \<Rightarrow> informer \<times> world" where
  "scoped_Informer f w = InformerFor HelmApp_type (defaultInformer (sp_namespace f) (sp_tweak f)) w"

definition scoped_Lister :: "(informer \<Rightarrow> indexer) \<Rightarrow> scope \<Rightarrow> world \<Rightarrow> helmAppLister \<times> world" where
  "scoped_Lister GetIndexer f w =
     (let (informer, w) = scoped_Informer f w in (NewHelmAppLister (GetIndexer informer), w))"

record genericInformer =
  gi_informer :: informer
  gi_resource :: "string \<times> string"

definition generic_Informer :: "genericInformer \<Rightarrow> informer" where
  "generic_Informer f = gi_informer f"

definition generic_Lister :: "(informer \<Rightarrow> indexer) \<Rightarrow> genericInformer \<Rightarrow> indexer \<times> string \<times> string" where
  "generic_Lister GetIndexer f = (GetIndexer (generic_Informer f), gi_resource f)"

section \<open>Properties\<close>

lemmas client_defs = OperatorV1alpha1_def Discovery_def operator_New_def clientset_New_def RESTClient_def
  newHelmApps_def operator_HelmApps_def typed_Get_def typed_List_def typed_Watch_def

text \<open>A clientset leads to the API server it was configured for: the REST client built from the
  effective configuration answers the requests of the typed client, with the namespace asked for.
  Without a clientset the group client cannot be had; a nil group client has a typed client, which
  panics when it is used.\<close>

theorem clientset_reaches_api:
  assumes "NewForConfigAndClient R c h = Inr cs"
  shows "\<exists>C. rl_RESTClientFor R (effective_config R c) h = Inr C \<and> OperatorV1alpha1 (Some cs) = Returned C \<and>
     typed_Get (operator_HelmApps (Some C) ns) name opts = Returned (rc_IntoApp C (get_request ns name opts)) \<and>
     typed_List (operator_HelmApps (Some C) ns) lopts = Returned (rc_IntoList C (list_request ns lopts)) \<and>
     typed_Watch (operator_HelmApps (Some C) ns) lopts = Returned (rc_Watch C (watch_request ns lopts)) \<and>
     OperatorV1alpha1 None = Panicked \<and> typed_Get (operator_HelmApps None ns) name opts = Panicked"
  using clientset_config [of c R h cs] assms
  by (auto simp: client_defs helmApps_Get_def helmApps_List_def helmApps_Watch_def)

definition silent_client :: rest_client where
  "silent_client = \<lparr>rc_IntoApp = (\<lambda>r. (\<lparr>ha_Meta = \<lparr>om_Name = [], om_Namespace = [], om_ResourceVersion = [],
       om_Labels = None, om_Finalizers = [], om_DeletionTimestamp = None\<rparr>, ha_Spec = None, ha_Status = None\<rparr>, None)),
     rc_IntoList = (\<lambda>r. (\<lparr>hl_ListMeta = [], hl_Items = []\<rparr>, None)), rc_Error = (\<lambda>r. None), rc_Watch = (\<lambda>r. Inl [])\<rparr>"

theorem clientset_reaches_api_witness:
  "typed_List (operator_HelmApps (Some silent_client) ''ns'') \<lparr>lo_LabelSelector = [], lo_FieldSelector = [],
     lo_Watch = False, lo_TimeoutSeconds = None\<rparr> = Returned (\<lparr>hl_ListMeta = [], hl_Items = []\<rparr>, None)"
proof -
  let ?R = "sample_rest_lib\<lparr>rl_RESTClientFor := (\<lambda>c h. Inr silent_client)\<rparr>"
  have "NewForConfigAndClient ?R (sample_rest_config\<lparr>cfg_Burst := 10\<rparr>) [] =
      Inr \<lparr>cs_Discovery = [], cs_operator = silent_client\<rparr>"
    by (simp add: NewForConfigAndClient_def operator_NewForConfigAndClient_def sample_rest_lib_def
        sample_rest_config_def Let_def)
  from clientset_reaches_api [OF this, of "''ns''" _ _ "\<lparr>lo_LabelSelector = [], lo_FieldSelector = [],
     lo_Watch = False, lo_TimeoutSeconds = None\<rparr>"] show ?thesis
    by (simp add: silent_client_def)
qed

text \<open>The accessors hand the scope of the factory down unchanged.\<close>

lemma accessors_compose:
  "scoped_Informer (version_HelmApps (group_V1alpha1 (factory_Operator w))) w = helmAppInformer_Informer w"
  by (simp add: scoped_Informer_def version_HelmApps_def group_V1alpha1_def factory_Operator_def
      version_New_def operator_group_New_def helmAppInformer_Informer_def)

lemma reachable_trans: "reachable_from v w \<Longrightarrow> reachable_from w x \<Longrightarrow> reachable_from v x"
  by (rotate_tac 1, induction rule: reachable_from.induct) (auto intro: reachable_from.step)

lemma helmAppInformer_step: "factory_step w (snd (helmAppInformer_Informer w))"
  unfolding helmAppInformer_Informer_def
  by (rule factory_step.request) (simp add: defaultInformer_def NewFilteredHelmAppInformer_def)

text \<open>C34. A lister is never empty for want of an informer: once a caller has taken the HelmApp lister of the
  factory, then whatever other informers are requested and however often \<open>Start\<close> is called in
  between, the next \<open>Start\<close> leaves the informer behind that lister running, \<open>WaitForCacheSync\<close> waits
  for it, and the lister reads that informer's indexer.\<close>

theorem lister_is_backed:
  assumes "reachable_from (new_world d options) w" and "list_all table_free options"
    and "scoped_Lister GetIndexer (version_HelmApps (group_V1alpha1 (factory_Operator w))) w = (l, w1)"
    and "reachable_from w1 w2"
  shows "\<exists>i :: informer. l = NewHelmAppLister (GetIndexer i) \<and> inf_addr i \<in> set (run_addrs (Start s w2)) \<and>
    (HelmApp_type, synced i) \<in> set (WaitForCacheSync synced (Start s w2)) \<and>
    ns_indexer (lister_HelmApps l ns) = GetIndexer i"
proof -
  let ?i = "fst (helmAppInformer_Informer w)"
  have l: "l = NewHelmAppLister (GetIndexer ?i)" and w1: "w1 = snd (helmAppInformer_Informer w)"
    using assms(3) by (simp_all add: scoped_Lister_def accessors_compose split: prod.splits)
  have "reachable_from w w1"
    unfolding w1 by (rule reachable_from.step [OF reachable_from.refl helmAppInformer_step])
  then have w2: "reachable_from (new_world d options) w2"
    using assms(1,4) by (blast intro: reachable_trans)
  have "map_of (fc_informers (wd_factory w2)) HelmApp_type = Some ?i"
    using run_keeps_informer [OF assms(4)] InformerFor_registers
    unfolding w1 helmAppInformer_Informer_def by blast
  then have mem: "(HelmApp_type, ?i) \<in> set (fc_informers (wd_factory w2))" by (rule map_of_SomeD)
  have inv: "factory_inv w2" by (rule reachable_inv [OF w2 assms(2)])
  have "inf_addr ?i \<in> set (run_addrs (Start s w2))"
    using mem unfolding Start_runs_all [OF inv] informer_addrs_def by force
  moreover have "(HelmApp_type, synced ?i) \<in> set (WaitForCacheSync synced (Start s w2))"
    using mem unfolding WaitForCacheSync_started Start_starts_all [OF inv] by force
  ultimately show ?thesis
    using l by (intro exI [of _ ?i]) (simp add: lister_HelmApps_def NewHelmAppLister_def)
qed

theorem lister_is_backed_witness:
  "\<exists>i :: informer. inf_addr i \<in> set (run_addrs (Start 1 (snd (scoped_Lister (\<lambda>i. one_object)
     (version_HelmApps (group_V1alpha1 (factory_Operator (new_world 30 [WithNamespace ''ns''])))) (new_world 30 [WithNamespace ''ns''])))))"
proof -
  let ?w = "new_world 30 [WithNamespace ''ns'']"
  obtain l w1 where l: "scoped_Lister (\<lambda>i. one_object) (version_HelmApps (group_V1alpha1 (factory_Operator ?w))) ?w = (l, w1)"
    by fastforce
  have "list_all table_free [WithNamespace ''ns'']" by simp
  from lister_is_backed [OF reachable_from.refl this l reachable_from.refl, where s = 1 and synced = "\<lambda>_. True" and ns = "[]"] show ?thesis
    unfolding l snd_conv by blast
qed

end
