(* ===== verification/Fake_Clientset.thy ===== *)
theory Fake_Clientset
  imports Typed_Client
begin

text \<open>
  The fake clientset for tests: clientset/versioned/fake/clientset_generated.go. The object tracker of
  client-go is a parameter; the clientset keeps it together with the chains of reactors it registers.
  The embedded \<open>testing.Fake\<close> records the actions; pointers to it are given by the address of the clientset.
\<close>

record ('t, 'o, 'w) tracker_lib =
  tl_NewObjectTracker :: 't
  tl_Add :: "'t \<Rightarrow> 'o \<Rightarrow> string + 't"
  tl_Watch :: "'t \<Rightarrow> gvr \<Rightarrow> string \<Rightarrow> string + 'w"

datatype reaction = ObjectReaction | WatchReaction

datatype fake_ref = FakeOf nat

record 't fake_clientset =
  fk_discovery :: "fake_ref option"
  fk_tracker :: 't
  fk_reactors :: "(string \<times> string \<times> reaction) list"
  fk_watch_reactors :: "(string \<times> reaction) list"

text \<open>The loop over the objects: a refused object is a panic.\<close>

fun add_objects :: "('t, 'o, 'w) tracker_lib \<Rightarrow> 'o list \<Rightarrow> 't \<Rightarrow> 't outcome" where
  "add_objects T [] o' = Returned o'"
| "add_objects T (obj # objects) o' =
     (case tl_Add T o' obj of Inl err \<Rightarrow> Panicked | Inr o' \<Rightarrow> add_objects T objects o')"

definition NewSimpleClientset :: "('t, 'o, 'w) tracker_lib \<Rightarrow> nat \<Rightarrow> 'o list \<Rightarrow> 't fake_clientset outcome" where
  "NewSimpleClientset T addr objects =
     (case add_objects T objects (tl_NewObjectTracker T) of
        Panicked \<Rightarrow> Panicked
      | Returned o' \<Rightarrow>
          (let cs = \<lparr>fk_discovery = None, fk_tracker = o', fk_reactors = [], fk_watch_reactors = []\<rparr>;
               cs = cs\<lparr>fk_discovery := Some (FakeOf addr)\<rparr>;
               cs = cs\<lparr>fk_reactors := fk_reactors cs @ [(''*'', ''*'', ObjectReaction)]\<rparr>;
               cs = cs\<lparr>fk_watch_reactors := fk_watch_reactors cs @ [(''*'', WatchReaction)]\<rparr>
           in Returned cs))"

fun GetResource :: "action \<Rightarrow> gvr" where
  "GetResource (GetAction r ns n) = r"
| "GetResource (ListAction r k ns opts) = r"
| "GetResource (WatchAction r ns opts) = r"
| "GetResource (CreateAction r ns a) = r"
| "GetResource (UpdateAction r ns a) = r"
| "GetResource (UpdateSubresourceAction r sub ns a) = r"
| "GetResource (DeleteActionWithOptions r ns n opts) = r"
| "GetResource (DeleteCollectionAction r ns opts) = r"
| "GetResource (PatchSubresourceAction r ns n pt data subs) = r"

fun GetNamespace :: "action \<Rightarrow> string" where
  "GetNamespace (GetAction r ns n) = ns"
| "GetNamespace (ListAction r k ns opts) = ns"
| "GetNamespace (WatchAction r ns opts) = ns"
| "GetNamespace (CreateAction r ns a) = ns"
| "GetNamespace (UpdateAction r ns a) = ns"
| "GetNamespace (UpdateSubresourceAction r sub ns a) = ns"
| "GetNamespace (DeleteActionWithOptions r ns n opts) = ns"
| "GetNamespace (DeleteCollectionAction r ns opts) = ns"
| "GetNamespace (PatchSubresourceAction r ns n pt data subs) = ns"

text \<open>The watch reactor: whether it handled the action, the watch and the error.\<close>

definition watch_reaction ::
    "('t, 'o, 'w) tracker_lib \<Rightarrow> 't \<Rightarrow> action \<Rightarrow> bool \<times> 'w option \<times> string option" where
  "watch_reaction T o' action =
     (let gvr = GetResource action; ns = GetNamespace action in
      case tl_Watch T o' gvr ns of
        Inl err \<Rightarrow> (False, None, Some err)
      | Inr watch \<Rightarrow> (True, Some watch, None))"

definition fake_RESTClient :: "(string \<times> unit option) option" where
  "fake_RESTClient = Some (''*rest.RESTClient'', None)"

section \<open>Accessors\<close>

definition fake_Discovery :: "'t fake_clientset \<Rightarrow> fake_ref option" where
  "fake_Discovery c = fk_discovery c"

definition fake_Tracker :: "'t fake_clientset \<Rightarrow> 't" where
  "fake_Tracker c = fk_tracker c"

record fake_operator =
  fo_Fake :: fake_ref

record fake_helmapps =
  fh_Fake :: fake_operator
  fh_ns :: string

text \<open>\<open>OperatorV1alpha1\<close> of the clientset at an address, and \<open>HelmApps\<close> of what it returns.\<close>

definition fake_OperatorV1alpha1 :: "nat \<Rightarrow> fake_operator" where
  "fake_OperatorV1alpha1 c = \<lparr>fo_Fake = FakeOf c\<rparr>"

definition fake_HelmApps :: "fake_operator \<Rightarrow> string \<Rightarrow> fake_helmapps" where
  "fake_HelmApps c namespace = \<lparr>fh_Fake = c, fh_ns = namespace\<rparr>"

text \<open>The fake that an operation is recorded by, and the action.\<close>

definition invokes :: "fake_helmapps \<Rightarrow> client_op \<Rightarrow> fake_ref \<times> action" where
  "invokes c op' = (fo_Fake (fh_Fake c), action_of (fh_ns c) op')"

section \<open>Properties\<close>

text \<open>The objects a tracker holds after it took a list of them, in the order of the list.\<close>

fun takes :: "('t, 'o, 'w) tracker_lib \<Rightarrow> 't \<Rightarrow> 'o list \<Rightarrow> 't \<Rightarrow> bool" where
  "takes T t [] t' = (t' = t)"
| "takes T t (x # xs) t' = (\<exists>u. tl_Add T t x = Inr u \<and> takes T u xs t')"

lemma add_objects_takes: "add_objects T xs t = Returned t' \<longleftrightarrow> takes T t xs t'"
  by (induction xs arbitrary: t) (auto split: sum.splits)

text \<open>The clientset is built exactly when the tracker takes every object in turn, and it panics
  otherwise; it then has that tracker, discovery by its own fake, one reactor for everything and one for every watch.\<close>

theorem simple_clientset_built:
  "NewSimpleClientset T addr objects = Returned cs \<longleftrightarrow>
     takes T (tl_NewObjectTracker T) objects (fk_tracker cs) \<and> fk_discovery cs = Some (FakeOf addr) \<and>
     fk_reactors cs = [(''*'', ''*'', ObjectReaction)] \<and> fk_watch_reactors cs = [(''*'', WatchReaction)]"
  by (cases cs) (auto simp: NewSimpleClientset_def Let_def add_objects_takes [symmetric] split: outcome.splits)

text \<open>A watch through the fake client of a namespace is a watch of the tracker on the HelmApps of that
  namespace; when the tracker refuses it, the reactor leaves the action to the next one.\<close>

theorem fake_watch_routes:
  "watch_reaction T t (action_of ns (OpWatch opts)) =
     (case tl_Watch T t (''operator.pluma.io'', ''v1alpha1'', ''helmapps'') ns of
        Inl err \<Rightarrow> (False, None, Some err) | Inr w \<Rightarrow> (True, Some w, None))"
  by (simp add: watch_reaction_def helmappsResource_def)

text \<open>Every action of the fake client is about the HelmApps of its namespace.\<close>

theorem fake_actions_namespaced:
  "GetResource (action_of ns op) = helmappsResource \<and> GetNamespace (action_of ns op) = ns"
  by (cases op) simp_all

text \<open>What is done through the accessors of a clientset is recorded by its own fake, which its discovery
  uses as well, under the namespace asked for.\<close>

theorem fake_accessors_share:
  assumes "NewSimpleClientset T c objects = Returned cs"
  shows "\<exists>f a. invokes (fake_HelmApps (fake_OperatorV1alpha1 c) ns) op' = (f, a) \<and> fake_Discovery cs = Some f \<and>
    GetResource a = helmappsResource \<and> GetNamespace a = ns"
proof -
  have "fk_discovery cs = Some (FakeOf c)"
    using assms by (auto simp: NewSimpleClientset_def Let_def split: outcome.splits)
  moreover have "GetResource (action_of ns op') = helmappsResource \<and> GetNamespace (action_of ns op') = ns"
    by (cases op') simp_all
  ultimately show ?thesis
    by (simp add: invokes_def fake_HelmApps_def fake_OperatorV1alpha1_def fake_Discovery_def)
qed

end
