(* ===== verification/Deep_Copy.thy ===== *)
theory Deep_Copy
  imports API_Types
begin

text \<open>
  The generated deep copies: zz_generated.deepcopy.go (HelmApp, HelmAppList) and helmapp_deepcopy.gen.go
  (the messages), in apis/operator/v1alpha1.

  \<^item> The heap is explicit, because the point of a deep copy is aliasing. A cell is a HelmApp struct,
    whose spec and status are addresses; a message, with everything below it; or the backing array of
    the items of a list, whose entries are addresses of HelmApps.
  \<^item> \<open>proto.Clone\<close> allocates a cell with an equal message, as the library documents;
    \<open>ObjectMeta.DeepCopyInto\<close> and \<open>ListMeta.DeepCopyInto\<close> copy values that have no addresses here.
  \<^item> Reading an address outside the heap, which a Go program cannot do, is \<open>None\<close>.
\<close>

section \<open>The heap\<close>

datatype proto_message = SpecMsg HelmAppSpec | StatusMsg HelmAppStatus | ComponentMsg HelmComponent
  | RepoMsg HelmRepo | ComponentStatusMsg HelmComponentStatus | ResourceStatusMsg HelmResourceStatus

record app_struct =
  as_TypeMeta :: string
  as_Meta :: ObjectMeta
  as_Spec :: "nat option"
  as_Status :: "nat option"

datatype cell = AppCell app_struct | MsgCell proto_message | ItemsCell "nat option list"

record list_struct =
  ls_TypeMeta :: string
  ls_ListMeta :: string
  ls_Items :: "nat option"

record heap =
  hp_next :: nat
  hp_cells :: "nat \<Rightarrow> cell option"

definition alloc :: "cell \<Rightarrow> heap \<Rightarrow> nat \<times> heap" where
  "alloc c h = (hp_next h, h\<lparr>hp_next := Suc (hp_next h), hp_cells := (hp_cells h)(hp_next h \<mapsto> c)\<rparr>)"

definition store_cell :: "nat \<Rightarrow> cell \<Rightarrow> heap \<Rightarrow> heap" where
  "store_cell a c h = h\<lparr>hp_cells := (hp_cells h)(a \<mapsto> c)\<rparr>"

section \<open>Copying a message\<close>

text \<open>\<open>p := proto.Clone(in); *out = *p\<close>\<close>

definition Clone :: "nat \<Rightarrow> heap \<Rightarrow> (nat \<times> heap) option" where
  "Clone inp h = (case hp_cells h inp of Some (MsgCell m) \<Rightarrow> Some (alloc (MsgCell m) h) | _ \<Rightarrow> None)"

definition message_DeepCopyInto :: "nat \<Rightarrow> nat \<Rightarrow> heap \<Rightarrow> heap option" where
  "message_DeepCopyInto inp out h =
     (case Clone inp h of
        None \<Rightarrow> None
      | Some (p, h) \<Rightarrow> (case hp_cells h p of None \<Rightarrow> None | Some c \<Rightarrow> Some (store_cell out c h)))"

definition zero_message :: "proto_message \<Rightarrow> proto_message" where
  "zero_message m = (case m of
      SpecMsg s \<Rightarrow> SpecMsg \<lparr>spec_Components = None, spec_GlobalValues = None, spec_Repo = None\<rparr>
    | StatusMsg s \<Rightarrow> StatusMsg \<lparr>st_Phase = Phase_UNKNOWN, st_Components = []\<rparr>
    | ComponentMsg c \<Rightarrow> ComponentMsg \<lparr>hc_Name = [], hc_Chart = [], hc_Version = [], hc_ComponentValues = None,
        hc_Repo = None, hc_IgnoreGlobalValues = False\<rparr>
    | RepoMsg r \<Rightarrow> RepoMsg \<lparr>repo_Name = [], repo_Url = []\<rparr>
    | ComponentStatusMsg s \<Rightarrow> ComponentStatusMsg \<lparr>hs_Name = [], hs_Status = [], hs_Message = [],
        hs_Version = [], hs_Resources = [], hs_ResourcesTotal = 0\<rparr>
    | ResourceStatusMsg s \<Rightarrow> ResourceStatusMsg \<lparr>hr_ApiVersion = [], hr_Kind = [], hr_Name = [], hr_Namespace = []\<rparr>)"

definition message_DeepCopy :: "nat option \<Rightarrow> heap \<Rightarrow> (nat option \<times> heap) option" where
  "message_DeepCopy inp h =
     (case inp of
        None \<Rightarrow> Some (None, h)
      | Some a \<Rightarrow>
          (case hp_cells h a of
             Some (MsgCell m) \<Rightarrow>
               (let (out, h) = alloc (MsgCell (zero_message m)) h in
                map_option (\<lambda>h. (Some out, h)) (message_DeepCopyInto a out h))
           | _ \<Rightarrow> None))"

section \<open>Copying a HelmApp\<close>

definition HelmApp_DeepCopyInto :: "nat \<Rightarrow> nat \<Rightarrow> heap \<Rightarrow> heap option" where
  "HelmApp_DeepCopyInto inp out h =
     (case hp_cells h inp of
        Some (AppCell s) \<Rightarrow>
     (let h = store_cell out (AppCell s) h in
      case (if as_Spec s \<noteq> None then message_DeepCopy (as_Spec s) h else Some (as_Spec s, h)) of
        None \<Rightarrow> None
      | Some (spec, h) \<Rightarrow>
     (let h = store_cell out (AppCell (s\<lparr>as_Spec := spec\<rparr>)) h in
      case (if as_Status s \<noteq> None then message_DeepCopy (as_Status s) h else Some (as_Status s, h)) of
        None \<Rightarrow> None
      | Some (status, h) \<Rightarrow> Some (store_cell out (AppCell (s\<lparr>as_Spec := spec, as_Status := status\<rparr>)) h)))
      | _ \<Rightarrow> None)"

definition empty_app :: app_struct where
  "empty_app = \<lparr>as_TypeMeta = [], as_Meta = \<lparr>om_Name = [], om_Namespace = [], om_ResourceVersion = [],
     om_Labels = None, om_Finalizers = [], om_DeletionTimestamp = None\<rparr>, as_Spec = None, as_Status = None\<rparr>"

definition HelmApp_DeepCopy :: "nat option \<Rightarrow> heap \<Rightarrow> (nat option \<times> heap) option" where
  "HelmApp_DeepCopy inp h =
     (case inp of
        None \<Rightarrow> Some (None, h)
      | Some a \<Rightarrow>
          (let (out, h) = alloc (AppCell empty_app) h in
           map_option (\<lambda>h. (Some out, h)) (HelmApp_DeepCopyInto a out h)))"

section \<open>Copying a list\<close>

text \<open>The loop over the items: \<open>copy_items i\<close> copies the entries from index \<open>i\<close> on into the new array.\<close>

fun copy_items :: "nat \<Rightarrow> nat option list \<Rightarrow> nat \<Rightarrow> heap \<Rightarrow> heap option" where
  "copy_items out [] i h = Some h"
| "copy_items out (None # ps) i h = copy_items out ps (Suc i) h"
| "copy_items out (Some a # ps) i h =
     (let (new, h) = alloc (AppCell empty_app) h in
      case hp_cells h out of
        Some (ItemsCell items) \<Rightarrow>
          (let h = store_cell out (ItemsCell (items[i := Some new])) h in
           case HelmApp_DeepCopyInto a new h of
             None \<Rightarrow> None
           | Some h \<Rightarrow> copy_items out ps (Suc i) h)
      | _ \<Rightarrow> None)"

definition HelmAppList_DeepCopyInto :: "list_struct \<Rightarrow> heap \<Rightarrow> (list_struct \<times> heap) option" where
  "HelmAppList_DeepCopyInto inp h =
     (case ls_Items inp of
        None \<Rightarrow> Some (inp, h)
      | Some a \<Rightarrow>
          (case hp_cells h a of
             Some (ItemsCell items) \<Rightarrow>
               (let (out, h) = alloc (ItemsCell (replicate (length items) None)) h in
                map_option (\<lambda>h. (inp\<lparr>ls_Items := Some out\<rparr>, h)) (copy_items out items 0 h))
           | _ \<Rightarrow> None))"

text \<open>A list is reached by value here; a nil pointer to a list is \<open>None\<close>.\<close>

definition HelmAppList_DeepCopy :: "list_struct option \<Rightarrow> heap \<Rightarrow> (list_struct option \<times> heap) option" where
  "HelmAppList_DeepCopy inp h =
     (case inp of
        None \<Rightarrow> Some (None, h)
      | Some l \<Rightarrow> map_option (\<lambda>(out, h). (Some out, h)) (HelmAppList_DeepCopyInto l h))"

text \<open>A value of an interface type: nil, or a pointer, which may be nil itself.\<close>

datatype 'p go_interface = NilInterface | Interface "'p option"

definition HelmApp_DeepCopyObject :: "nat option \<Rightarrow> heap \<Rightarrow> (nat go_interface \<times> heap) option" where
  "HelmApp_DeepCopyObject inp h =
     map_option (\<lambda>(c, h). (if c \<noteq> None then Interface c else NilInterface, h)) (HelmApp_DeepCopy inp h)"

definition HelmAppList_DeepCopyObject :: "list_struct option \<Rightarrow> heap \<Rightarrow> (list_struct go_interface \<times> heap) option" where
  "HelmAppList_DeepCopyObject inp h =
     map_option (\<lambda>(c, h). (if c \<noteq> None then Interface c else NilInterface, h)) (HelmAppList_DeepCopy inp h)"

definition message_DeepCopyInterface :: "nat option \<Rightarrow> heap \<Rightarrow> (nat go_interface \<times> heap) option" where
  "message_DeepCopyInterface inp h = map_option (\<lambda>(c, h). (Interface c, h)) (message_DeepCopy inp h)"

text \<open>Of a nil pointer the Kubernetes wrappers make a nil interface; the wrapper of the messages makes an
  interface that is not nil and holds a nil pointer.\<close>

lemma nil_copies:
  "HelmApp_DeepCopyObject None h = Some (NilInterface, h)"
  "HelmAppList_DeepCopyObject None h = Some (NilInterface, h)"
  "message_DeepCopyInterface None h = Some (Interface None, h)"
  by (simp_all add: HelmApp_DeepCopyObject_def HelmApp_DeepCopy_def HelmAppList_DeepCopyObject_def
      HelmAppList_DeepCopy_def message_DeepCopyInterface_def message_DeepCopy_def)

section \<open>What a copy shares\<close>

definition message_at :: "heap \<Rightarrow> nat option \<Rightarrow> cell option" where
  "message_at h p = (case p of None \<Rightarrow> None | Some a \<Rightarrow> hp_cells h a)"

text \<open>The value of the HelmApp at an address, and the addresses it consists of.\<close>

definition app_value :: "heap \<Rightarrow> nat \<Rightarrow> (string \<times> ObjectMeta \<times> cell option \<times> cell option) option" where
  "app_value h a = (case hp_cells h a of
      Some (AppCell s) \<Rightarrow> Some (as_TypeMeta s, as_Meta s, message_at h (as_Spec s), message_at h (as_Status s))
    | _ \<Rightarrow> None)"

definition app_addrs :: "heap \<Rightarrow> nat \<Rightarrow> nat set" where
  "app_addrs h a = insert a (case hp_cells h a of
      Some (AppCell s) \<Rightarrow> set_option (as_Spec s) \<union> set_option (as_Status s) | _ \<Rightarrow> {})"

definition pointer_ok :: "heap \<Rightarrow> nat option \<Rightarrow> bool" where
  "pointer_ok h p \<longleftrightarrow> (\<forall>a. p = Some a \<longrightarrow> a < hp_next h \<and> (\<exists>m. hp_cells h a = Some (MsgCell m)))"

definition app_ok :: "heap \<Rightarrow> nat \<Rightarrow> bool" where
  "app_ok h a \<longleftrightarrow> a < hp_next h \<and>
     (\<exists>s. hp_cells h a = Some (AppCell s) \<and> pointer_ok h (as_Spec s) \<and> pointer_ok h (as_Status s))"

text \<open>The heap \<open>h'\<close> differs from \<open>h\<close> only at new addresses and at those of \<open>A\<close>.\<close>

definition changes_only :: "nat set \<Rightarrow> heap \<Rightarrow> heap \<Rightarrow> bool" where
  "changes_only A h h' \<longleftrightarrow> hp_next h \<le> hp_next h' \<and>
     (\<forall>x < hp_next h. x \<notin> A \<longrightarrow> hp_cells h' x = hp_cells h x)"

lemma changes_only_trans: "changes_only A h h' \<Longrightarrow> changes_only B h' h'' \<Longrightarrow> changes_only (A \<union> B) h h''"
  by (auto simp: changes_only_def)

lemma changes_only_mono: "changes_only A h h' \<Longrightarrow> (\<And>x. x \<in> A \<Longrightarrow> x < hp_next h \<Longrightarrow> x \<in> B) \<Longrightarrow> changes_only B h h'"
  by (auto simp: changes_only_def)

lemma app_value_unchanged:
  assumes "changes_only A h h'" and "app_ok h a" and "A \<inter> app_addrs h a = {}"
  shows "app_value h' a = app_value h a \<and> app_ok h' a \<and> app_addrs h' a = app_addrs h a"
proof -
  obtain s where s: "hp_cells h a = Some (AppCell s)" "pointer_ok h (as_Spec s)" "pointer_ok h (as_Status s)"
    and a: "a < hp_next h" using assms(2) by (auto simp: app_ok_def)
  have "hp_cells h' x = hp_cells h x" if "x \<in> app_addrs h a" for x
    using that assms(1,3) a s by (auto simp: changes_only_def app_addrs_def pointer_ok_def)
  moreover have "a \<in> app_addrs h a" "set_option (as_Spec s) \<subseteq> app_addrs h a" "set_option (as_Status s) \<subseteq> app_addrs h a"
    using s by (auto simp: app_addrs_def)
  ultimately have same: "hp_cells h' a = Some (AppCell s)" "message_at h' (as_Spec s) = message_at h (as_Spec s)"
      "message_at h' (as_Status s) = message_at h (as_Status s)"
    using s by (auto simp: message_at_def split: option.splits)
  moreover have "pointer_ok h' p" if "p \<in> {as_Spec s, as_Status s}" for p
    using that s same assms(1) by (fastforce simp: pointer_ok_def changes_only_def message_at_def)
  ultimately show ?thesis
    using s a assms(1) by (auto simp: app_value_def app_ok_def app_addrs_def changes_only_def)
qed

lemma message_DeepCopy_run:
  assumes "pointer_ok h p"
  obtains q h' where "message_DeepCopy p h = Some (q, h')" "changes_only {} h h'"
    "message_at h' q = message_at h p" "pointer_ok h' q" "q = None \<longleftrightarrow> p = None"
    "set_option q \<inter> {..< hp_next h} = {}"
proof (cases p)
  case None
  then show ?thesis
    by (intro that [of None h]) (simp_all add: message_DeepCopy_def changes_only_def pointer_ok_def)
next
  case (Some a)
  then obtain m where m: "hp_cells h a = Some (MsgCell m)" and a: "a < hp_next h"
    using assms by (auto simp: pointer_ok_def)
  let ?h' = "\<lparr>hp_next = Suc (Suc (hp_next h)),
      hp_cells = (hp_cells h)(hp_next h \<mapsto> MsgCell m, Suc (hp_next h) \<mapsto> MsgCell m)\<rparr>"
  have "message_DeepCopy p h = Some (Some (hp_next h), ?h')"
    using m a Some
    by (auto simp: message_DeepCopy_def message_DeepCopyInto_def Clone_def alloc_def store_cell_def
        fun_upd_twist)
  then show ?thesis
    by (rule that) (use m a Some in \<open>auto simp: changes_only_def message_at_def pointer_ok_def\<close>)
qed

lemma HelmApp_DeepCopyInto_run:
  assumes "app_ok h a" and "out < hp_next h" and "out \<notin> app_addrs h a"
  obtains h' where "HelmApp_DeepCopyInto a out h = Some h'" "changes_only {out} h h'"
    "app_value h' out = app_value h a" "app_ok h' out" "app_addrs h' out \<inter> {..< hp_next h} = {out}"
proof -
  obtain s where s: "hp_cells h a = Some (AppCell s)" "pointer_ok h (as_Spec s)" "pointer_ok h (as_Status s)"
    using assms(1) by (auto simp: app_ok_def)
  have neq: "out \<noteq> a" "out \<notin> set_option (as_Spec s)" "out \<notin> set_option (as_Status s)"
    using assms(3) s by (auto simp: app_addrs_def)
  let ?h1 = "store_cell out (AppCell s) h"
  have c1: "changes_only {out} h ?h1" by (simp add: changes_only_def store_cell_def)
  have "pointer_ok ?h1 (as_Spec s)" using s(2) neq by (fastforce simp: pointer_ok_def store_cell_def)
  then obtain q1 h2 where q1: "message_DeepCopy (as_Spec s) ?h1 = Some (q1, h2)" "changes_only {} ?h1 h2"
      "message_at h2 q1 = message_at ?h1 (as_Spec s)" "pointer_ok h2 q1" "q1 = None \<longleftrightarrow> as_Spec s = None"
      "set_option q1 \<inter> {..< hp_next ?h1} = {}" by (rule message_DeepCopy_run)
  let ?h3 = "store_cell out (AppCell (s\<lparr>as_Spec := q1\<rparr>)) h2"
  have next1: "hp_next ?h1 = hp_next h" by (simp add: store_cell_def)
  have c2: "changes_only {} ?h1 h2" by (rule q1(2))
  have c3: "changes_only {out} h2 ?h3" by (simp add: changes_only_def store_cell_def)
  have "pointer_ok ?h3 (as_Status s)"
    using s(3) neq c1 c2 c3 unfolding pointer_ok_def changes_only_def next1
    by (metis (no_types, lifting) empty_iff option.set_intros order_less_le_trans singletonD)
  then obtain q2 h4 where q2: "message_DeepCopy (as_Status s) ?h3 = Some (q2, h4)" "changes_only {} ?h3 h4"
      "message_at h4 q2 = message_at ?h3 (as_Status s)" "pointer_ok h4 q2" "q2 = None \<longleftrightarrow> as_Status s = None"
      "set_option q2 \<inter> {..< hp_next ?h3} = {}" by (rule message_DeepCopy_run)
  let ?h' = "store_cell out (AppCell (s\<lparr>as_Spec := q1, as_Status := q2\<rparr>)) h4"
  have run: "HelmApp_DeepCopyInto a out h = Some ?h'"
    using s(1) q1(1,5) q2(1,5)
    by (cases "as_Spec s"; cases "as_Status s") (auto simp: HelmApp_DeepCopyInto_def Let_def message_DeepCopy_def)
  have next3: "hp_next ?h3 = hp_next h2" by (simp add: store_cell_def)
  have le: "hp_next h \<le> hp_next h2" "hp_next h2 \<le> hp_next h4"
    using q1(2) q2(2) by (auto simp: changes_only_def next1 next3)
  have new: "x \<noteq> out \<and> hp_next h \<le> x" if "x \<in> set_option q1 \<or> x \<in> set_option q2" for x
    using that q1(6) q2(6) assms(2) le by (fastforce simp: next1 next3)
  have frame: "changes_only {out} h ?h'"
    using le c1 c2 c3 q2(2) by (auto simp: changes_only_def store_cell_def)
  have sp: "message_at ?h' q1 = message_at h (as_Spec s)" "pointer_ok ?h' q1"
  proof -
    have "message_at h2 q1 = message_at h (as_Spec s)"
      using q1(3) neq by (auto simp: message_at_def store_cell_def split: option.splits)
    moreover have "hp_cells ?h' x = hp_cells h2 x" if "x \<in> set_option q1" for x
      using that new [of x] q1(4) q2(2) by (auto simp: store_cell_def pointer_ok_def changes_only_def)
    ultimately show "message_at ?h' q1 = message_at h (as_Spec s)" "pointer_ok ?h' q1"
      using q1(4) le by (auto simp: message_at_def pointer_ok_def store_cell_def split: option.splits)
  qed
  have st: "message_at ?h' q2 = message_at h (as_Status s)" "pointer_ok ?h' q2"
  proof -
    have "message_at ?h3 (as_Status s) = message_at h (as_Status s)"
      using s(3) neq c1 c2 c3 unfolding message_at_def pointer_ok_def changes_only_def next1
      by (auto split: option.splits)
    moreover have "hp_cells ?h' x = hp_cells h4 x" if "x \<in> set_option q2" for x
      using that new [of x] by (auto simp: store_cell_def)
    ultimately show "message_at ?h' q2 = message_at h (as_Status s)" "pointer_ok ?h' q2"
      using q2(3,4) by (auto simp: message_at_def pointer_ok_def store_cell_def split: option.splits)
  qed
  show ?thesis
  proof (rule that [OF run frame])
    show "app_value ?h' out = app_value h a"
      using sp(1) st(1) s(1) by (simp add: app_value_def store_cell_def)
    show "app_ok ?h' out"
      using sp(2) st(2) assms(2) le by (auto simp: app_ok_def store_cell_def)
    show "app_addrs ?h' out \<inter> {..< hp_next h} = {out}"
      using new assms(2) by (auto simp: app_addrs_def store_cell_def) (metis not_less)+
  qed
qed

lemma HelmApp_DeepCopyInto_new:
  assumes "app_ok h a" and "alloc (AppCell empty_app) h = (new, h1)"
  obtains h' where "HelmApp_DeepCopyInto a new h1 = Some h'" "changes_only {} h h'" "hp_next h < hp_next h'"
    "app_value h' new = app_value h a" "app_ok h' new" "app_addrs h' new \<inter> {..< hp_next h} = {}"
proof -
  have h1: "new = hp_next h" "h1 = h\<lparr>hp_next := Suc (hp_next h), hp_cells := (hp_cells h)(hp_next h \<mapsto> AppCell empty_app)\<rparr>"
    using assms(2) by (auto simp: alloc_def)
  have c: "changes_only {} h h1" by (simp add: changes_only_def h1)
  have a1: "app_value h1 a = app_value h a" "app_ok h1 a" "app_addrs h1 a = app_addrs h a"
    using app_value_unchanged [OF c assms(1)] by auto
  have "new \<notin> app_addrs h a" "new < hp_next h1"
    using assms(1) by (auto simp: h1 app_ok_def app_addrs_def pointer_ok_def)
  with a1 obtain h' where h': "HelmApp_DeepCopyInto a new h1 = Some h'" "changes_only {new} h1 h'"
      "app_value h' new = app_value h1 a" "app_ok h' new" "app_addrs h' new \<inter> {..< hp_next h1} = {new}"
    using HelmApp_DeepCopyInto_run [OF a1(2)] by metis
  have "changes_only {} h h'"
    using changes_only_trans [OF c h'(2)] by (rule changes_only_mono) (simp add: h1)
  moreover have "hp_next h < hp_next h'" using h'(2) by (simp add: changes_only_def h1)
  moreover have "app_addrs h' new \<inter> {..< hp_next h} = {}"
  proof -
    have "x \<noteq> new \<and> x \<in> {..< hp_next h1}" if "x \<in> {..< hp_next h}" for x using that by (simp add: h1)
    then show ?thesis using equalityD1 [OF h'(5)] by (intro equals0I) (elim IntE, meson IntI singletonD subsetD)
  qed
  ultimately show ?thesis
    using that [OF h'(1)] h'(3,4) unfolding a1(1) by blast
qed

lemma app_addrs_old: "app_ok h a \<Longrightarrow> x \<in> app_addrs h a \<Longrightarrow> x < hp_next h"
  by (auto simp: app_ok_def app_addrs_def pointer_ok_def)

section \<open>Properties\<close>


definition small_heap :: heap where
  "small_heap = \<lparr>hp_next = 3, hp_cells = [0 \<mapsto> AppCell (empty_app\<lparr>as_Spec := Some 1\<rparr>),
     1 \<mapsto> MsgCell (SpecMsg \<lparr>spec_Components = Some [], spec_GlobalValues = None, spec_Repo = None\<rparr>),
     2 \<mapsto> ItemsCell [Some 0, None, Some 0]]\<rparr>"

lemma small_heap_ok: "app_ok small_heap 0"
  by (simp add: app_ok_def small_heap_def empty_app_def pointer_ok_def)


text \<open>One copied item: nil stays nil, a HelmApp becomes a new one of the same value.\<close>

definition copied :: "nat \<Rightarrow> heap \<Rightarrow> heap \<Rightarrow> nat option \<Rightarrow> nat option \<Rightarrow> bool" where
  "copied n h h' p q \<longleftrightarrow> (case (p, q) of
      (None, None) \<Rightarrow> True
    | (Some a, Some b) \<Rightarrow> app_ok h' b \<and> app_value h' b = app_value h a \<and> app_addrs h' b \<inter> {..< n} = {}
    | _ \<Rightarrow> False)"

lemma copied_later:
  assumes "copied n h h' p q" and "changes_only A h' h''" and "A \<subseteq> {..< n}"
  shows "copied n h h'' p q"
proof (cases "\<exists>a b. p = Some a \<and> q = Some b")
  case True
  then obtain a b where ab: "p = Some a" "q = Some b" "app_ok h' b" "app_addrs h' b \<inter> {..< n} = {}"
      "app_value h' b = app_value h a" using assms(1) by (auto simp: copied_def)
  have "A \<inter> app_addrs h' b = {}" using ab(4) assms(3) by blast
  with app_value_unchanged [OF assms(2) ab(3)] ab show ?thesis by (simp add: copied_def)
next
  case False
  with assms(1) show ?thesis by (auto simp: copied_def split: option.splits)
qed

lemma copy_items_run:
  assumes "changes_only {out} h0 h" and "hp_cells h out = Some (ItemsCell (pre @ replicate (length ps) None))"
    and "out < hp_next h0" and "list_all (\<lambda>p. \<forall>a. p = Some a \<longrightarrow> app_ok h0 a) ps"
    and "\<And>a. app_ok h0 a \<Longrightarrow> out \<notin> app_addrs h0 a"
  shows "\<exists>h' news. copy_items out ps (length pre) h = Some h' \<and> changes_only {out} h h' \<and>
    hp_cells h' out = Some (ItemsCell (pre @ news)) \<and> list_all2 (copied (hp_next h0) h0 h') ps news"
  using assms(1,2,4)
proof (induction ps arbitrary: pre h)
  case Nil
  then show ?case by (intro exI [of _ h] exI [of _ "[]"]) (simp add: changes_only_def)
next
  case (Cons p ps)
  show ?case
  proof (cases p)
    case None
    have "hp_cells h out = Some (ItemsCell ((pre @ [None]) @ replicate (length ps) None))"
      using Cons.prems(2) by simp
    with Cons.IH [OF Cons.prems(1) this] Cons.prems(3) obtain h' news where
      "copy_items out ps (Suc (length pre)) h = Some h'" "changes_only {out} h h'"
      "hp_cells h' out = Some (ItemsCell ((pre @ [None]) @ news))" "list_all2 (copied (hp_next h0) h0 h') ps news"
      by auto
    moreover have "copied (hp_next h0) h0 h' None None" by (simp add: copied_def)
    ultimately show ?thesis
      by (intro exI [of _ h'] exI [of _ "None # news"]) (simp add: None)
  next
    case (Some a)
    have ok0: "app_ok h0 a" using Cons.prems(3) Some by simp
    have ok: "app_ok h a" "app_value h a = app_value h0 a" "app_addrs h a = app_addrs h0 a"
      using app_value_unchanged [OF Cons.prems(1) ok0] assms(5) [OF ok0] by auto
    have out_h: "out < hp_next h" using Cons.prems(1) assms(3) by (auto simp: changes_only_def)
    obtain new h1 where al: "alloc (AppCell empty_app) h = (new, h1)" by fastforce
    have new: "new = hp_next h" using al by (simp add: alloc_def)
    let ?items = "(pre @ None # replicate (length ps) None)[length pre := Some new]"
    let ?h2 = "store_cell out (ItemsCell ?items) h"
    have "alloc (AppCell empty_app) ?h2 = (new, store_cell out (ItemsCell ?items) h1)"
      using al out_h by (auto simp: alloc_def store_cell_def fun_upd_twist)
    moreover have c2: "changes_only {out} h ?h2" by (simp add: changes_only_def store_cell_def)
    moreover have ok2: "app_ok ?h2 a" "app_value ?h2 a = app_value h a"
      using app_value_unchanged [OF c2 ok(1)] ok(3) assms(5) [OF ok0] by auto
    ultimately obtain h3 where h3: "HelmApp_DeepCopyInto a new (store_cell out (ItemsCell ?items) h1) = Some h3"
        "changes_only {} ?h2 h3" "app_value h3 new = app_value ?h2 a" "app_ok h3 new"
        "app_addrs h3 new \<inter> {..< hp_next ?h2} = {}"
      using HelmApp_DeepCopyInto_new [OF ok2(1)] by metis
    have c3: "changes_only {out} h h3" using changes_only_trans [OF c2 h3(2)] by simp
    have c03: "changes_only {out} h0 h3" using changes_only_trans [OF Cons.prems(1) c3] by simp
    have items3: "hp_cells h3 out = Some (ItemsCell ((pre @ [Some new]) @ replicate (length ps) None))"
      using h3(2) out_h by (simp add: changes_only_def store_cell_def list_update_append)
    obtain h' news where IH: "copy_items out ps (Suc (length pre)) h3 = Some h'" "changes_only {out} h3 h'"
      "hp_cells h' out = Some (ItemsCell ((pre @ [Some new]) @ news))" "list_all2 (copied (hp_next h0) h0 h') ps news"
      using Cons.IH [OF c03 items3] Cons.prems(3) by auto
    have "hp_next h0 \<le> hp_next ?h2" using Cons.prems(1) by (simp add: changes_only_def store_cell_def)
    then have "copied (hp_next h0) h0 h3 (Some a) (Some new)"
      using h3(3,4,5) ok2(2) ok(2) by (auto simp: copied_def)
    then have "copied (hp_next h0) h0 h' (Some a) (Some new)"
      by (rule copied_later [OF _ IH(2)]) (use assms(3) in simp)
    moreover have "hp_cells h1 out = Some (ItemsCell (pre @ None # replicate (length ps) None))"
      using al out_h Cons.prems(2) by (auto simp: alloc_def)
    then have "copy_items out (p # ps) (length pre) h = Some h'"
      using al h3(1) IH(1) by (simp add: Some)
    ultimately show ?thesis
      using IH changes_only_trans [OF c3 IH(2)] Some
      by (intro exI [of _ h'] exI [of _ "Some new # news"]) auto
  qed
qed

text \<open>The deep copy of a list has, item by item, a new HelmApp of the same value where the list has
  one and nil where it has nil, even when the list holds one HelmApp twice; no cell of the old heap
  changes; a nil list of items stays nil.\<close>

theorem deep_copy_list:
  assumes "ls_Items l = Some a" and "hp_cells h a = Some (ItemsCell items)"
    and "list_all (\<lambda>p. \<forall>x. p = Some x \<longrightarrow> app_ok h x) items"
  shows "\<exists>out h' news. HelmAppList_DeepCopyInto l h = Some (l\<lparr>ls_Items := Some out\<rparr>, h') \<and>
    hp_next h \<le> out \<and> hp_cells h' out = Some (ItemsCell news) \<and>
    list_all2 (copied (hp_next h) h h') items news \<and> changes_only {} h h'"
proof -
  let ?out = "hp_next h"
  let ?h0 = "\<lparr>hp_next = Suc (hp_next h), hp_cells = (hp_cells h)(?out \<mapsto> ItemsCell (replicate (length items) None))\<rparr>"
  have al: "alloc (ItemsCell (replicate (length items) None)) h = (?out, ?h0)" by (simp add: alloc_def)
  have c0: "changes_only {} h ?h0" by (simp add: changes_only_def)
  have same: "app_value ?h0 x = app_value h x \<and> app_ok ?h0 x \<and> app_addrs ?h0 x = app_addrs h x" if "app_ok h x" for x
    using app_value_unchanged [OF c0 that] by simp
  have free: "?out \<notin> app_addrs ?h0 x" if "app_ok ?h0 x" for x
  proof
    assume "?out \<in> app_addrs ?h0 x"
    with that show False
      by (auto simp: app_ok_def app_addrs_def pointer_ok_def split: if_splits)
  qed
  have "list_all (\<lambda>p. \<forall>x. p = Some x \<longrightarrow> app_ok ?h0 x) items"
    using assms(3) same by (auto simp: list_all_iff)
  then obtain h' news where run: "copy_items ?out items 0 ?h0 = Some h'" "changes_only {?out} ?h0 h'"
      "hp_cells h' ?out = Some (ItemsCell news)" "list_all2 (copied (Suc (hp_next h)) ?h0 h') items news"
    using copy_items_run [of ?out ?h0 ?h0 "[]" items] free by (auto simp: changes_only_def)
  have "changes_only {} h h'"
    using changes_only_trans [OF c0 run(2)] by (rule changes_only_mono) simp
  moreover have "list_all2 (copied (hp_next h) h h') items news"
  proof (rule list.rel_mono_strong [OF run(4)])
    fix p q assume "p \<in> set items" "q \<in> set news" "copied (Suc (hp_next h)) ?h0 h' p q"
    then show "copied (hp_next h) h h' p q"
      using assms(3) same by (fastforce simp: copied_def list_all_iff split: option.splits)
  qed
  moreover have "HelmAppList_DeepCopyInto l h = Some (l\<lparr>ls_Items := Some ?out\<rparr>, h')"
    using assms(1,2) al run(1) by (simp add: HelmAppList_DeepCopyInto_def)
  ultimately show ?thesis using run(3) by blast
qed

theorem deep_copy_list_witness:
  "\<exists>h' news. HelmAppList_DeepCopyInto \<lparr>ls_TypeMeta = [], ls_ListMeta = [], ls_Items = Some 2\<rparr> small_heap =
      Some (\<lparr>ls_TypeMeta = [], ls_ListMeta = [], ls_Items = Some 3\<rparr>, h') \<and>
    list_all2 (copied 3 small_heap h') [Some 0, None, Some 0] news"
proof -
  let ?l = "\<lparr>ls_TypeMeta = [], ls_ListMeta = [], ls_Items = Some 2\<rparr>"
  have "hp_cells small_heap 2 = Some (ItemsCell [Some 0, None, Some 0])" by (simp add: small_heap_def)
  from deep_copy_list [of ?l 2, OF _ this] small_heap_ok obtain out h' news where
    r: "HelmAppList_DeepCopyInto ?l small_heap = Some (?l\<lparr>ls_Items := Some out\<rparr>, h')"
      "list_all2 (copied (hp_next small_heap) small_heap h') [Some 0, None, Some 0] news" by auto
  moreover have "out = 3"
    using r(1) by (auto simp: HelmAppList_DeepCopyInto_def alloc_def small_heap_def Let_def)
  ultimately show ?thesis by (auto simp: small_heap_def)
qed

end
