(* ===== verification/Json_Shims.thy ===== *)
theory Json_Shims
  imports Deep_Copy
begin

text \<open>
  The JSON methods of the messages: apis/operator/v1alpha1/helmapp_json.gen.go. jsonpb is a parameter;
  the two package variables are the options it is called with.
\<close>

record Marshaler =
  mr_OrigName :: bool
  mr_EnumsAsInts :: bool
  mr_EmitDefaults :: bool
  mr_Indent :: string

record Unmarshaler =
  um_AllowUnknownFields :: bool

record json_lib =
  j_MarshalToString :: "Marshaler \<Rightarrow> proto_message \<Rightarrow> string \<times> string option"
  j_Unmarshal :: "Unmarshaler \<Rightarrow> string \<Rightarrow> proto_message \<Rightarrow> proto_message \<times> string option"

definition HelmappMarshaler :: Marshaler where
  "HelmappMarshaler = \<lparr>mr_OrigName = False, mr_EnumsAsInts = False, mr_EmitDefaults = False, mr_Indent = []\<rparr>"

definition HelmappUnmarshaler :: Unmarshaler where
  "HelmappUnmarshaler = \<lparr>um_AllowUnknownFields = True\<rparr>"

text \<open>The bytes and the error: after an error the bytes are those of whatever text came with it.\<close>

definition MarshalJSON :: "json_lib \<Rightarrow> proto_message \<Rightarrow> string \<times> string option" where
  "MarshalJSON J this = (let (str, err) = j_MarshalToString J HelmappMarshaler this in (str, err))"

text \<open>The message after the call, and the error.\<close>

definition UnmarshalJSON :: "json_lib \<Rightarrow> string \<Rightarrow> proto_message \<Rightarrow> proto_message \<times> string option" where
  "UnmarshalJSON J b this = j_Unmarshal J HelmappUnmarshaler b this"

text \<open>
  On the heap: the method receives the address of the message. Reading a foreign address is \<open>None\<close>.
\<close>

definition UnmarshalJSON_at :: "json_lib \<Rightarrow> string \<Rightarrow> nat \<Rightarrow> heap \<Rightarrow> (string option \<times> heap) option" where
  "UnmarshalJSON_at J b this h =
     (case hp_cells h this of
        Some (MsgCell m) \<Rightarrow>
          (let (m', err) = UnmarshalJSON J b m in Some (err, store_cell this (MsgCell m') h))
      | _ \<Rightarrow> None)"

text \<open>Decoding into a deep copy leaves the original alone: the copy of a message shares nothing with it,
  so a failed or partial decoding of the copy cannot damage the message it was copied from.\<close>

theorem decode_into_copy:
  assumes "pointer_ok h (Some a)"
  shows "\<exists>b h'. message_DeepCopy (Some a) h = Some (Some b, h') \<and>
    (\<exists>err h''. UnmarshalJSON_at J text b h' = Some (err, h'') \<and> hp_cells h'' a = hp_cells h a)"
proof -
  obtain q h' where c: "message_DeepCopy (Some a) h = Some (q, h')" "changes_only {} h h'"
    "pointer_ok h' q" "q = None \<longleftrightarrow> Some a = None" "set_option q \<inter> {..< hp_next h} = {}"
    using message_DeepCopy_run [OF assms] by metis
  obtain b where b: "q = Some b" using c(4) by auto
  obtain m where m: "hp_cells h' b = Some (MsgCell m)" using c(3) b by (auto simp: pointer_ok_def)
  have a: "a < hp_next h" using assms by (simp add: pointer_ok_def)
  then have "a \<noteq> b" using c(5) b by auto
  moreover have "hp_cells h' a = hp_cells h a" using c(2) a by (simp add: changes_only_def)
  ultimately show ?thesis
    using c(1) b m by (auto simp: UnmarshalJSON_at_def store_cell_def split: prod.splits)
qed

definition broken_json :: json_lib where
  "broken_json = \<lparr>j_MarshalToString = (\<lambda>_ _. ([], None)),
     j_Unmarshal = (\<lambda>_ _ m. (zero_message m, Some ''unexpected end of JSON input''))\<rparr>"

theorem decode_into_copy_witness:
  "\<exists>b h' err h''. message_DeepCopy (Some 1) small_heap = Some (Some b, h') \<and>
     UnmarshalJSON_at broken_json [] b h' = Some (err, h'') \<and> hp_cells h'' 1 = hp_cells small_heap 1"
proof -
  have "pointer_ok small_heap (Some 1)" by (simp add: pointer_ok_def small_heap_def)
  from decode_into_copy [OF this, of broken_json "[]"] show ?thesis by blast
qed

end
