(* ===== verification/Scheme_Registration.thy ===== *)
theory Scheme_Registration
  imports Typed_Client
begin

text \<open>
  The registration of the API types: the \<open>SchemeBuilder\<close> of src/apis/operator/v1alpha1 (groupversion_info.go,
  helmapp_types.go) and the package variables and \<open>init\<close> functions of clientset/versioned/scheme/register.go
  and clientset/versioned/fake/register.go.

  \<^item> The scheme and the two builders of apimachinery and controller-runtime are parameters (\<open>scheme_lib\<close>);
    \<open>scheme_laws\<close> states what is relied on of them, in terms of the kinds a scheme knows.
  \<^item> \<open>AddToScheme\<close> is a method value of a pointer: it reads the builder when it is called, not when the
    variable is initialised. Packages are initialised in the order of their imports.
\<close>

type_synonym gvk = "(string \<times> string) \<times> string"

record ('b, 's) scheme_lib =
  sl_NewScheme :: 's
  sl_AddToGroupVersion :: "string \<times> string \<Rightarrow> 's \<Rightarrow> 's"
  sl_Builder :: "string \<times> string \<Rightarrow> 'b"
  sl_Register :: "string list \<Rightarrow> 'b \<Rightarrow> 'b"
  sl_Builder_AddToScheme :: "'b \<Rightarrow> 's \<Rightarrow> string option \<times> 's"
  sl_SchemeBuilder_AddToScheme :: "('s \<Rightarrow> string option \<times> 's) list \<Rightarrow> 's \<Rightarrow> string option \<times> 's"

section \<open>The API package\<close>

definition SchemeBuilder :: "('b, 's) scheme_lib \<Rightarrow> 'b" where
  "SchemeBuilder Z = sl_Builder Z group_version"

text \<open>The package variable \<open>AddToScheme\<close>: the method value, applied to what the pointer holds at the call.\<close>

definition v1alpha1_AddToScheme :: "('b, 's) scheme_lib \<Rightarrow> 'b \<Rightarrow> 's \<Rightarrow> string option \<times> 's" where
  "v1alpha1_AddToScheme Z builder = sl_Builder_AddToScheme Z builder"

text \<open>The \<open>init\<close> function of helmapp_types.go.\<close>

definition types_init :: "('b, 's) scheme_lib \<Rightarrow> 'b \<Rightarrow> 'b" where
  "types_init Z builder = sl_Register Z [''HelmApp'', ''HelmAppList''] builder"

definition Resource :: "string \<Rightarrow> string \<times> string" where
  "Resource resource = (fst group_version, resource)"

section \<open>The schemes of the clients\<close>

definition localSchemeBuilder :: "('b, 's) scheme_lib \<Rightarrow> 'b \<Rightarrow> ('s \<Rightarrow> string option \<times> 's) list" where
  "localSchemeBuilder Z builder = [v1alpha1_AddToScheme Z builder]"

definition AddToScheme :: "('b, 's) scheme_lib \<Rightarrow> 'b \<Rightarrow> 's \<Rightarrow> string option \<times> 's" where
  "AddToScheme Z builder = sl_SchemeBuilder_AddToScheme Z (localSchemeBuilder Z builder)"

text \<open>\<open>utilruntime.Must\<close> panics when there is an error.\<close>

definition scheme_init :: "('b, 's) scheme_lib \<Rightarrow> 'b \<Rightarrow> 's \<Rightarrow> 's outcome" where
  "scheme_init Z builder Scheme =
     (let Scheme = sl_AddToGroupVersion Z ([], ''v1'') Scheme in
      case AddToScheme Z builder Scheme of
        (Some err, Scheme) \<Rightarrow> Panicked
      | (None, Scheme) \<Rightarrow> Returned Scheme)"

definition fake_localSchemeBuilder :: "('b, 's) scheme_lib \<Rightarrow> 'b \<Rightarrow> ('s \<Rightarrow> string option \<times> 's) list" where
  "fake_localSchemeBuilder Z builder = [v1alpha1_AddToScheme Z builder]"

definition fake_AddToScheme :: "('b, 's) scheme_lib \<Rightarrow> 'b \<Rightarrow> 's \<Rightarrow> string option \<times> 's" where
  "fake_AddToScheme Z builder = sl_SchemeBuilder_AddToScheme Z (fake_localSchemeBuilder Z builder)"

definition fake_init :: "('b, 's) scheme_lib \<Rightarrow> 'b \<Rightarrow> 's \<Rightarrow> 's outcome" where
  "fake_init Z builder scheme =
     (let scheme = sl_AddToGroupVersion Z ([], ''v1'') scheme in
      case fake_AddToScheme Z builder scheme of
        (Some err, scheme) \<Rightarrow> Panicked
      | (None, scheme) \<Rightarrow> Returned scheme)"

text \<open>Initialisation in the order of the imports: the API package, then the scheme of the real client, then
  that of the fake. The result is the two schemes.\<close>

definition initialise :: "('b, 's) scheme_lib \<Rightarrow> ('s \<times> 's) outcome" where
  "initialise Z =
     (let builder = types_init Z (SchemeBuilder Z) in
      case scheme_init Z builder (sl_NewScheme Z) of
        Panicked \<Rightarrow> Panicked
      | Returned Scheme \<Rightarrow> (case fake_init Z builder (sl_NewScheme Z) of
          Panicked \<Rightarrow> Panicked
        | Returned scheme \<Rightarrow> Returned (Scheme, scheme)))"

section \<open>Properties\<close>

text \<open>\<open>kinds\<close> is what a builder adds and \<open>knows\<close> what a scheme holds; \<open>meta\<close> are the kinds the library adds for
  a group version.\<close>

definition scheme_laws ::
    "('b, 's) scheme_lib \<Rightarrow> ('b \<Rightarrow> (string \<times> string) \<times> string list) \<Rightarrow> ('s \<Rightarrow> gvk set) \<Rightarrow>
     (string \<times> string \<Rightarrow> gvk set) \<Rightarrow> bool" where
  "scheme_laws Z kinds knows meta \<longleftrightarrow>
     knows (sl_NewScheme Z) = {} \<and>
     (\<forall>gv s. knows (sl_AddToGroupVersion Z gv s) = knows s \<union> meta gv) \<and>
     (\<forall>gv. kinds (sl_Builder Z gv) = (gv, [])) \<and>
     (\<forall>ks b. kinds (sl_Register Z ks b) = (fst (kinds b), snd (kinds b) @ ks)) \<and>
     (\<forall>b s s'. sl_Builder_AddToScheme Z b s = (None, s') \<longrightarrow>
        knows s' = knows s \<union> (if snd (kinds b) = [] then {} else meta (fst (kinds b))) \<union>
          Pair (fst (kinds b)) ` set (snd (kinds b))) \<and>
     (\<forall>f s. sl_SchemeBuilder_AddToScheme Z [f] s = f s)"

lemma client_schemes_agree: "scheme_init Z = fake_init Z"
  by (simp add: fun_eq_iff scheme_init_def fake_init_def AddToScheme_def fake_AddToScheme_def
      localSchemeBuilder_def fake_localSchemeBuilder_def)

lemma scheme_init_knows:
  assumes "scheme_laws Z kinds knows meta" and "scheme_init Z b (sl_NewScheme Z) = Returned s"
  shows "knows s = meta ([], ''v1'') \<union> (if snd (kinds b) = [] then {} else meta (fst (kinds b))) \<union>
    Pair (fst (kinds b)) ` set (snd (kinds b))"
  using assms
  by (auto simp: scheme_laws_def scheme_init_def AddToScheme_def localSchemeBuilder_def v1alpha1_AddToScheme_def Let_def
      split: prod.splits option.splits)

lemma SchemeBuilder_kinds: "scheme_laws Z kinds knows meta \<Longrightarrow> kinds (SchemeBuilder Z) = (group_version, [])"
  by (simp add: scheme_laws_def SchemeBuilder_def group_version_def)

text \<open>The registered kinds: when the program comes up, the schemes of the real and of the fake client are the
  same, they know HelmApp and HelmAppList in the group version of the API, and besides them only the
  kinds the library adds itself; when the types cannot be added the program panics.\<close>

theorem schemes_know_the_api:
  assumes "scheme_laws Z kinds knows meta"
  shows "case initialise Z of
      Panicked \<Rightarrow> \<exists>s. fst (sl_Builder_AddToScheme Z (types_init Z (SchemeBuilder Z)) s) \<noteq> None
    | Returned (Scheme, scheme) \<Rightarrow> scheme = Scheme \<and>
        knows Scheme = meta ([], ''v1'') \<union> meta (''operator.pluma.io'', ''v1alpha1'') \<union>
          {((''operator.pluma.io'', ''v1alpha1''), ''HelmApp''), ((''operator.pluma.io'', ''v1alpha1''), ''HelmAppList'')}"
proof (cases "scheme_init Z (types_init Z (SchemeBuilder Z)) (sl_NewScheme Z)")
  case (Returned s)
  have "kinds (types_init Z (SchemeBuilder Z)) = (group_version, [''HelmApp'', ''HelmAppList''])"
    using assms SchemeBuilder_kinds [OF assms] by (simp add: scheme_laws_def types_init_def)
  then have "knows s = meta ([], ''v1'') \<union> meta group_version \<union> Pair group_version ` {''HelmApp'', ''HelmAppList''}"
    using scheme_init_knows [OF assms Returned] by simp
  with Returned show ?thesis by (simp add: initialise_def client_schemes_agree [symmetric] group_version_def)
next
  case Panicked
  let ?s = "sl_AddToGroupVersion Z ([], ''v1'') (sl_NewScheme Z)"
  have "fst (sl_Builder_AddToScheme Z (types_init Z (SchemeBuilder Z)) ?s) \<noteq> None"
    using Panicked assms
    by (auto simp: scheme_init_def AddToScheme_def localSchemeBuilder_def v1alpha1_AddToScheme_def scheme_laws_def
        split: prod.splits option.splits)
  with Panicked show ?thesis by (auto simp: initialise_def)
qed

text \<open>A library with these laws: a builder is its group version and kinds, a scheme a list of kinds.\<close>

definition list_scheme_lib :: "((string \<times> string) \<times> string list, gvk list) scheme_lib" where
  "list_scheme_lib = \<lparr>sl_NewScheme = [], sl_AddToGroupVersion = (\<lambda>gv s. (gv, ''Status'') # s),
     sl_Builder = (\<lambda>gv. (gv, [])), sl_Register = (\<lambda>ks b. (fst b, snd b @ ks)),
     sl_Builder_AddToScheme = (\<lambda>b s. (None, map (Pair (fst b)) (snd b) @ (if snd b = [] then [] else [(fst b, ''Status'')]) @ s)),
     sl_SchemeBuilder_AddToScheme = (\<lambda>fs s. fold (\<lambda>f (e, s). case e of None \<Rightarrow> f s | Some m \<Rightarrow> (Some m, s)) fs (None, s))\<rparr>"

theorem schemes_know_the_api_witness:
  "\<exists>s. initialise list_scheme_lib = Returned (s, s) \<and> ((''operator.pluma.io'', ''v1alpha1''), ''HelmApp'') \<in> set s"
proof -
  have laws: "scheme_laws list_scheme_lib id set (\<lambda>gv. {(gv, ''Status'')})"
    by (auto simp: scheme_laws_def list_scheme_lib_def)
  obtain s t where "initialise list_scheme_lib = Returned (s, t)"
    by (simp add: initialise_def scheme_init_def fake_init_def AddToScheme_def fake_AddToScheme_def
        localSchemeBuilder_def fake_localSchemeBuilder_def v1alpha1_AddToScheme_def list_scheme_lib_def Let_def)
  with schemes_know_the_api [OF laws] show ?thesis by auto
qed

text \<open>Without the registration in \<open>init\<close> the kinds of the API would be missing: the builder starts empty.\<close>

lemma registration_needed:
  assumes "scheme_laws Z kinds knows meta" and "scheme_init Z (SchemeBuilder Z) (sl_NewScheme Z) = Returned s"
  shows "knows s = meta ([], ''v1'')"
  using scheme_init_knows [OF assms] SchemeBuilder_kinds [OF assms(1)] by simp

end
