(* ===== verification/Descriptor.thy ===== *)
theory Descriptor
  imports Deep_Copy
begin

text \<open>
  The reflection data of the messages: the tables and the initialiser at the end of
  apis/operator/v1alpha1/helmapp.pb.go, and the file helmapp.proto they were generated from.

  \<^item> \<open>rawDesc\<close> is the byte array the Go file embeds; \<open>decode_file\<close> reads it in the protobuf wire format
    (a \<open>FileDescriptorProto\<close>), which the library does at run time.
  \<^item> \<open>helmapp_proto\<close> is the source; \<open>file_descriptor\<close> is what protoc makes of a source.
  \<^item> \<open>goTypes\<close>, \<open>depIdxs\<close>, \<open>go_fields\<close> and \<open>type_builder\<close> are the other tables of the Go file, which name
    each other by position; \<open>consistent\<close> says that they agree with the descriptor.
  \<^item> \<open>TypeBuilder.Build\<close> is the library's, a parameter of \<open>proto_init\<close>.
\<close>

section \<open>The wire format\<close>

fun varint :: "nat list \<Rightarrow> (nat \<times> nat list) option" where
  "varint [] = None"
| "varint (b # bs) =
     (if b < 128 then Some (b, bs)
      else case varint bs of None \<Rightarrow> None | Some (v, rest) \<Rightarrow> Some (b - 128 + 128 * v, rest))"

datatype wire = Varint nat | Bytes "nat list"

text \<open>The fields of a message: varints and byte strings only. The first argument is fuel; every field
  takes up at least two bytes, so the message itself is enough of it.\<close>

fun wire_fields :: "nat list \<Rightarrow> nat list \<Rightarrow> (nat \<times> wire) list option" where
  "wire_fields fuel [] = Some []"
| "wire_fields [] bs = None"
| "wire_fields (f # fuel) bs =
     (case varint bs of
        None \<Rightarrow> None
      | Some (tag, bs) \<Rightarrow>
          (case varint bs of
             None \<Rightarrow> None
           | Some (n, bs) \<Rightarrow>
               (if tag mod 8 = 0 then map_option ((#) (tag div 8, Varint n)) (wire_fields fuel bs)
                else if tag mod 8 = 2 \<and> n \<le> length bs
                  then map_option ((#) (tag div 8, Bytes (take n bs))) (wire_fields fuel (drop n bs))
                else None)))"

section \<open>Descriptors\<close>

record field_desc =
  fd_name :: string
  fd_number :: nat
  fd_label :: nat
  fd_type :: nat
  fd_type_name :: "string option"
  fd_json_name :: string

record message_desc =
  md_name :: string
  md_fields :: "field_desc list"

record enum_desc =
  ed_name :: string
  ed_values :: "(string \<times> nat) list"

record file_desc =
  fi_name :: string
  fi_package :: string
  fi_dependencies :: "string list"
  fi_messages :: "message_desc list"
  fi_enums :: "enum_desc list"
  fi_go_package :: string
  fi_syntax :: string

fun bytes_at :: "nat \<Rightarrow> (nat \<times> wire) list \<Rightarrow> nat list list" where
  "bytes_at k [] = []"
| "bytes_at k ((n, Bytes bs) # fs) = (if n = k then bs # bytes_at k fs else bytes_at k fs)"
| "bytes_at k ((n, Varint v) # fs) = bytes_at k fs"

fun number_at :: "nat \<Rightarrow> (nat \<times> wire) list \<Rightarrow> nat" where
  "number_at k [] = 0"
| "number_at k ((n, Varint v) # fs) = (if n = k then v else number_at k fs)"
| "number_at k ((n, Bytes bs) # fs) = number_at k fs"

fun all_some :: "'a option list \<Rightarrow> 'a list option" where
  "all_some [] = Some []"
| "all_some (None # xs) = None"
| "all_some (Some x # xs) = map_option ((#) x) (all_some xs)"

definition text_at :: "nat \<Rightarrow> (nat \<times> wire) list \<Rightarrow> string" where
  "text_at k fs = map char_of (concat (bytes_at k fs))"

text \<open>Reading one message with the given fields only; anything else in it is an error.\<close>

definition decode :: "nat list \<Rightarrow> ((nat \<times> wire) list \<Rightarrow> 'a option) \<Rightarrow> nat list \<Rightarrow> 'a option" where
  "decode known f bs = (case wire_fields bs bs of
      None \<Rightarrow> None | Some fs \<Rightarrow> if list_all (\<lambda>(n, w). n \<in> set known) fs then f fs else None)"

definition decode_field :: "nat list \<Rightarrow> field_desc option" where
  "decode_field = decode [1, 3, 4, 5, 6, 10] (\<lambda>fs. Some
     \<lparr>fd_name = text_at 1 fs, fd_number = number_at 3 fs, fd_label = number_at 4 fs, fd_type = number_at 5 fs,
      fd_type_name = (if bytes_at 6 fs = [] then None else Some (text_at 6 fs)), fd_json_name = text_at 10 fs\<rparr>)"

definition decode_message :: "nat list \<Rightarrow> message_desc option" where
  "decode_message = decode [1, 2] (\<lambda>fs. map_option (\<lambda>fields. \<lparr>md_name = text_at 1 fs, md_fields = fields\<rparr>)
     (all_some (map decode_field (bytes_at 2 fs))))"

definition decode_value :: "nat list \<Rightarrow> (string \<times> nat) option" where
  "decode_value = decode [1, 2] (\<lambda>fs. Some (text_at 1 fs, number_at 2 fs))"

definition decode_enum :: "nat list \<Rightarrow> enum_desc option" where
  "decode_enum = decode [1, 2] (\<lambda>fs. map_option (\<lambda>vs. \<lparr>ed_name = text_at 1 fs, ed_values = vs\<rparr>)
     (all_some (map decode_value (bytes_at 2 fs))))"

definition decode_file :: "nat list \<Rightarrow> file_desc option" where
  "decode_file = decode [1, 2, 3, 4, 5, 8, 12] (\<lambda>fs.
     case (all_some (map decode_message (bytes_at 4 fs)), all_some (map decode_enum (bytes_at 5 fs)),
           all_some (map (decode [11] (\<lambda>gs. Some (text_at 11 gs))) (bytes_at 8 fs))) of
       (Some ms, Some es, Some [go]) \<Rightarrow> Some
         \<lparr>fi_name = text_at 1 fs, fi_package = text_at 2 fs, fi_dependencies = map (map char_of) (bytes_at 3 fs),
          fi_messages = ms, fi_enums = es, fi_go_package = go, fi_syntax = text_at 12 fs\<rparr>
     | _ \<Rightarrow> None)"

section \<open>The embedded bytes\<close>

definition rawDesc :: "nat list" where
  "rawDesc = [
   10, 31, 111, 112, 101, 114, 97, 116, 111, 114, 47, 118, 49, 97, 108, 112, 104, 97, 49, 47, 104, 101, 108, 109,
   97, 112, 112, 46, 112, 114, 111, 116, 111, 18, 23, 112, 108, 117, 109, 97, 46, 111, 112, 101, 114, 97, 116, 111,
   114, 46, 118, 49, 97, 108, 112, 104, 97, 49, 26, 28, 103, 111, 111, 103, 108, 101, 47, 112, 114, 111, 116, 111,
   98, 117, 102, 47, 115, 116, 114, 117, 99, 116, 46, 112, 114, 111, 116, 111, 26, 31, 103, 111, 111, 103, 108, 101,
   47, 112, 114, 111, 116, 111, 98, 117, 102, 47, 116, 105, 109, 101, 115, 116, 97, 109, 112, 46, 112, 114, 111, 116,
   111, 34, 201, 1, 10, 11, 72, 101, 108, 109, 65, 112, 112, 83, 112, 101, 99, 18, 70, 10, 10, 99, 111, 109,
   112, 111, 110, 101, 110, 116, 115, 24, 1, 32, 3, 40, 11, 50, 38, 46, 112, 108, 117, 109, 97, 46, 111, 112,
   101, 114, 97, 116, 111, 114, 46, 118, 49, 97, 108, 112, 104, 97, 49, 46, 72, 101, 108, 109, 67, 111, 109, 112,
   111, 110, 101, 110, 116, 82, 10, 99, 111, 109, 112, 111, 110, 101, 110, 116, 115, 18, 59, 10, 12, 103, 108, 111,
   98, 97, 108, 86, 97, 108, 117, 101, 115, 24, 2, 32, 1, 40, 11, 50, 23, 46, 103, 111, 111, 103, 108, 101,
   46, 112, 114, 111, 116, 111, 98, 117, 102, 46, 83, 116, 114, 117, 99, 116, 82, 12, 103, 108, 111, 98, 97, 108,
   86, 97, 108, 117, 101, 115, 18, 53, 10, 4, 114, 101, 112, 111, 24, 3, 32, 1, 40, 11, 50, 33, 46, 112,
   108, 117, 109, 97, 46, 111, 112, 101, 114, 97, 116, 111, 114, 46, 118, 49, 97, 108, 112, 104, 97, 49, 46, 72,
   101, 108, 109, 82, 101, 112, 111, 82, 4, 114, 101, 112, 111, 34, 253, 1, 10, 13, 72, 101, 108, 109, 67, 111,
   109, 112, 111, 110, 101, 110, 116, 18, 18, 10, 4, 110, 97, 109, 101, 24, 1, 32, 1, 40, 9, 82, 4, 110,
   97, 109, 101, 18, 20, 10, 5, 99, 104, 97, 114, 116, 24, 2, 32, 1, 40, 9, 82, 5, 99, 104, 97, 114,
   116, 18, 24, 10, 7, 118, 101, 114, 115, 105, 111, 110, 24, 3, 32, 1, 40, 9, 82, 7, 118, 101, 114, 115,
   105, 111, 110, 18, 65, 10, 15, 99, 111, 109, 112, 111, 110, 101, 110, 116, 86, 97, 108, 117, 101, 115, 24, 4,
   32, 1, 40, 11, 50, 23, 46, 103, 111, 111, 103, 108, 101, 46, 112, 114, 111, 116, 111, 98, 117, 102, 46, 83,
   116, 114, 117, 99, 116, 82, 15, 99, 111, 109, 112, 111, 110, 101, 110, 116, 86, 97, 108, 117, 101, 115, 18, 53,
   10, 4, 114, 101, 112, 111, 24, 5, 32, 1, 40, 11, 50, 33, 46, 112, 108, 117, 109, 97, 46, 111, 112, 101,
   114, 97, 116, 111, 114, 46, 118, 49, 97, 108, 112, 104, 97, 49, 46, 72, 101, 108, 109, 82, 101, 112, 111, 82,
   4, 114, 101, 112, 111, 18, 46, 10, 18, 105, 103, 110, 111, 114, 101, 71, 108, 111, 98, 97, 108, 86, 97, 108,
   117, 101, 115, 24, 6, 32, 1, 40, 8, 82, 18, 105, 103, 110, 111, 114, 101, 71, 108, 111, 98, 97, 108, 86,
   97, 108, 117, 101, 115, 34, 48, 10, 8, 72, 101, 108, 109, 82, 101, 112, 111, 18, 18, 10, 4, 110, 97, 109,
   101, 24, 1, 32, 1, 40, 9, 82, 4, 110, 97, 109, 101, 18, 16, 10, 3, 117, 114, 108, 24, 2, 32, 1,
   40, 9, 82, 3, 117, 114, 108, 34, 147, 1, 10, 13, 72, 101, 108, 109, 65, 112, 112, 83, 116, 97, 116, 117,
   115, 18, 52, 10, 5, 112, 104, 97, 115, 101, 24, 1, 32, 1, 40, 14, 50, 30, 46, 112, 108, 117, 109, 97,
   46, 111, 112, 101, 114, 97, 116, 111, 114, 46, 118, 49, 97, 108, 112, 104, 97, 49, 46, 80, 104, 97, 115, 101,
   82, 5, 112, 104, 97, 115, 101, 18, 76, 10, 10, 99, 111, 109, 112, 111, 110, 101, 110, 116, 115, 24, 2, 32,
   3, 40, 11, 50, 44, 46, 112, 108, 117, 109, 97, 46, 111, 112, 101, 114, 97, 116, 111, 114, 46, 118, 49, 97,
   108, 112, 104, 97, 49, 46, 72, 101, 108, 109, 67, 111, 109, 112, 111, 110, 101, 110, 116, 83, 116, 97, 116, 117,
   115, 82, 10, 99, 111, 109, 112, 111, 110, 101, 110, 116, 115, 34, 232, 1, 10, 19, 72, 101, 108, 109, 67, 111,
   109, 112, 111, 110, 101, 110, 116, 83, 116, 97, 116, 117, 115, 18, 18, 10, 4, 110, 97, 109, 101, 24, 1, 32,
   1, 40, 9, 82, 4, 110, 97, 109, 101, 18, 22, 10, 6, 115, 116, 97, 116, 117, 115, 24, 2, 32, 1, 40,
   9, 82, 6, 115, 116, 97, 116, 117, 115, 18, 24, 10, 7, 109, 101, 115, 115, 97, 103, 101, 24, 3, 32, 1,
   40, 9, 82, 7, 109, 101, 115, 115, 97, 103, 101, 18, 24, 10, 7, 118, 101, 114, 115, 105, 111, 110, 24, 4,
   32, 1, 40, 9, 82, 7, 118, 101, 114, 115, 105, 111, 110, 18, 73, 10, 9, 114, 101, 115, 111, 117, 114, 99,
   101, 115, 24, 5, 32, 3, 40, 11, 50, 43, 46, 112, 108, 117, 109, 97, 46, 111, 112, 101, 114, 97, 116, 111,
   114, 46, 118, 49, 97, 108, 112, 104, 97, 49, 46, 72, 101, 108, 109, 82, 101, 115, 111, 117, 114, 99, 101, 83,
   116, 97, 116, 117, 115, 82, 9, 114, 101, 115, 111, 117, 114, 99, 101, 115, 18, 38, 10, 14, 114, 101, 115, 111,
   117, 114, 99, 101, 115, 84, 111, 116, 97, 108, 24, 6, 32, 1, 40, 5, 82, 14, 114, 101, 115, 111, 117, 114,
   99, 101, 115, 84, 111, 116, 97, 108, 34, 122, 10, 18, 72, 101, 108, 109, 82, 101, 115, 111, 117, 114, 99, 101,
   83, 116, 97, 116, 117, 115, 18, 30, 10, 10, 97, 112, 105, 86, 101, 114, 115, 105, 111, 110, 24, 1, 32, 1,
   40, 9, 82, 10, 97, 112, 105, 86, 101, 114, 115, 105, 111, 110, 18, 18, 10, 4, 107, 105, 110, 100, 24, 2,
   32, 1, 40, 9, 82, 4, 107, 105, 110, 100, 18, 18, 10, 4, 110, 97, 109, 101, 24, 3, 32, 1, 40, 9,
   82, 4, 110, 97, 109, 101, 18, 28, 10, 9, 110, 97, 109, 101, 115, 112, 97, 99, 101, 24, 4, 32, 1, 40,
   9, 82, 9, 110, 97, 109, 101, 115, 112, 97, 99, 101, 42, 78, 10, 5, 80, 104, 97, 115, 101, 18, 11, 10,
   7, 85, 78, 75, 78, 79, 87, 78, 16, 0, 18, 15, 10, 11, 82, 69, 67, 79, 78, 67, 73, 76, 73, 78,
   71, 16, 1, 18, 13, 10, 9, 83, 85, 67, 67, 69, 69, 68, 69, 68, 16, 2, 18, 10, 10, 6, 70, 65,
   73, 76, 69, 68, 16, 3, 18, 12, 10, 8, 68, 69, 76, 69, 84, 73, 78, 71, 16, 4, 66, 32, 90, 30,
   112, 108, 117, 109, 97, 46, 105, 111, 47, 97, 112, 105, 47, 111, 112, 101, 114, 97, 116, 111, 114, 47, 118, 49,
   97, 108, 112, 104, 97, 49, 98, 6, 112, 114, 111, 116, 111, 51]"

section \<open>The source of the messages\<close>

datatype proto_type = PString | PBool | PInt32 | PEnum string | PMessage string

datatype proto_field = Single proto_type string nat | Repeated proto_type string nat

record proto_source =
  ps_syntax :: string
  ps_go_package :: string
  ps_package :: string
  ps_imports :: "string list"
  ps_messages :: "(string \<times> proto_field list) list"
  ps_enums :: "(string \<times> (string \<times> nat) list) list"

definition helmapp_proto :: proto_source where
  "helmapp_proto = \<lparr>ps_syntax = ''proto3'', ps_go_package = ''pluma.io/api/operator/v1alpha1'',
     ps_package = ''pluma.operator.v1alpha1'',
     ps_imports = [''google/protobuf/struct.proto'', ''google/protobuf/timestamp.proto''],
     ps_messages = [
      (''HelmAppSpec'', [Repeated (PMessage ''.pluma.operator.v1alpha1.HelmComponent'') ''components'' 1,
         Single (PMessage ''.google.protobuf.Struct'') ''globalValues'' 2,
         Single (PMessage ''.pluma.operator.v1alpha1.HelmRepo'') ''repo'' 3]),
      (''HelmComponent'', [Single PString ''name'' 1, Single PString ''chart'' 2, Single PString ''version'' 3,
         Single (PMessage ''.google.protobuf.Struct'') ''componentValues'' 4,
         Single (PMessage ''.pluma.operator.v1alpha1.HelmRepo'') ''repo'' 5, Single PBool ''ignoreGlobalValues'' 6]),
      (''HelmRepo'', [Single PString ''name'' 1, Single PString ''url'' 2]),
      (''HelmAppStatus'', [Single (PEnum ''.pluma.operator.v1alpha1.Phase'') ''phase'' 1,
         Repeated (PMessage ''.pluma.operator.v1alpha1.HelmComponentStatus'') ''components'' 2]),
      (''HelmComponentStatus'', [Single PString ''name'' 1, Single PString ''status'' 2, Single PString ''message'' 3,
         Single PString ''version'' 4,
         Repeated (PMessage ''.pluma.operator.v1alpha1.HelmResourceStatus'') ''resources'' 5,
         Single PInt32 ''resourcesTotal'' 6]),
      (''HelmResourceStatus'', [Single PString ''apiVersion'' 1, Single PString ''kind'' 2, Single PString ''name'' 3,
         Single PString ''namespace'' 4])],
     ps_enums = [(''Phase'', [(''UNKNOWN'', 0), (''RECONCILING'', 1), (''SUCCEEDED'', 2), (''FAILED'', 3),
         (''DELETING'', 4)])]\<rparr>"

text \<open>The numbers protobuf gives to types and labels. The names of this file are in lower camel case
  already, so the JSON name of a field is its name.\<close>

fun type_number :: "proto_type \<Rightarrow> nat" where
  "type_number PInt32 = 5"
| "type_number PBool = 8"
| "type_number PString = 9"
| "type_number (PMessage n) = 11"
| "type_number (PEnum n) = 14"

fun type_name :: "proto_type \<Rightarrow> string option" where
  "type_name (PMessage n) = Some n"
| "type_name (PEnum n) = Some n"
| "type_name _ = None"

fun field_descriptor :: "proto_field \<Rightarrow> field_desc" where
  "field_descriptor (Single t n k) = \<lparr>fd_name = n, fd_number = k, fd_label = 1, fd_type = type_number t,
     fd_type_name = type_name t, fd_json_name = n\<rparr>"
| "field_descriptor (Repeated t n k) = \<lparr>fd_name = n, fd_number = k, fd_label = 3, fd_type = type_number t,
     fd_type_name = type_name t, fd_json_name = n\<rparr>"

definition file_descriptor :: "string \<Rightarrow> proto_source \<Rightarrow> file_desc" where
  "file_descriptor path s = \<lparr>fi_name = path, fi_package = ps_package s, fi_dependencies = ps_imports s,
     fi_messages = map (\<lambda>(n, fs). \<lparr>md_name = n, md_fields = map field_descriptor fs\<rparr>) (ps_messages s),
     fi_enums = map (\<lambda>(n, vs). \<lparr>ed_name = n, ed_values = vs\<rparr>) (ps_enums s),
     fi_go_package = ps_go_package s, fi_syntax = ps_syntax s\<rparr>"

definition helmapp_descriptor :: file_desc where
  "helmapp_descriptor = file_descriptor ''operator/v1alpha1/helmapp.proto'' helmapp_proto"

section \<open>The tables of the Go file\<close>

text \<open>The protobuf tag of every field of the Go structs, in order.\<close>

definition go_fields :: "(string \<times> string list) list" where
  "go_fields = [
     (''HelmAppSpec'', [''bytes,1,rep,name=components,proto3'', ''bytes,2,opt,name=globalValues,proto3'',
        ''bytes,3,opt,name=repo,proto3'']),
     (''HelmComponent'', [''bytes,1,opt,name=name,proto3'', ''bytes,2,opt,name=chart,proto3'',
        ''bytes,3,opt,name=version,proto3'', ''bytes,4,opt,name=componentValues,proto3'',
        ''bytes,5,opt,name=repo,proto3'', ''varint,6,opt,name=ignoreGlobalValues,proto3'']),
     (''HelmRepo'', [''bytes,1,opt,name=name,proto3'', ''bytes,2,opt,name=url,proto3'']),
     (''HelmAppStatus'', [''varint,1,opt,name=phase,proto3,enum=pluma.operator.v1alpha1.Phase'',
        ''bytes,2,rep,name=components,proto3'']),
     (''HelmComponentStatus'', [''bytes,1,opt,name=name,proto3'', ''bytes,2,opt,name=status,proto3'',
        ''bytes,3,opt,name=message,proto3'', ''bytes,4,opt,name=version,proto3'',
        ''bytes,5,rep,name=resources,proto3'', ''varint,6,opt,name=resourcesTotal,proto3'']),
     (''HelmResourceStatus'', [''bytes,1,opt,name=apiVersion,proto3'', ''bytes,2,opt,name=kind,proto3'',
        ''bytes,3,opt,name=name,proto3'', ''bytes,4,opt,name=namespace,proto3''])]"

definition goTypes :: "string list" where
  "goTypes = [''Phase'', ''HelmAppSpec'', ''HelmComponent'', ''HelmRepo'', ''HelmAppStatus'',
     ''HelmComponentStatus'', ''HelmResourceStatus'', ''structpb.Struct'']"

definition depIdxs :: "nat list" where
  "depIdxs = [2, 7, 3, 7, 3, 0, 5, 6, 8, 8, 8, 8, 0]"

text \<open>What the initialiser hands to \<open>TypeBuilder.Build\<close>, and the package variables it sets.\<close>

record type_builder =
  tb_RawDescriptor :: "nat list"
  tb_NumEnums :: nat
  tb_NumMessages :: nat
  tb_NumExtensions :: nat
  tb_NumServices :: nat
  tb_GoTypes :: "string list"
  tb_DependencyIndexes :: "nat list"

record 'f proto_vars =
  pv_File :: "'f option"
  pv_rawDesc :: "nat list option"
  pv_goTypes :: "string list option"
  pv_depIdxs :: "nat list option"
  pv_Exporters :: "nat list"

definition initial_vars :: "'f proto_vars" where
  "initial_vars = \<lparr>pv_File = None, pv_rawDesc = Some rawDesc, pv_goTypes = Some goTypes,
     pv_depIdxs = Some depIdxs, pv_Exporters = []\<rparr>"

definition proto_init :: "bool \<Rightarrow> (type_builder \<Rightarrow> 'f) \<Rightarrow> 'f proto_vars \<Rightarrow> 'f proto_vars" where
  "proto_init UnsafeEnabled Build vars =
     (if pv_File vars \<noteq> None then vars
      else
        (let vars = (if \<not> UnsafeEnabled then vars\<lparr>pv_Exporters := [0, 1, 2, 3, 4, 5]\<rparr> else vars);
             out = Build \<lparr>tb_RawDescriptor = slice (pv_rawDesc vars), tb_NumEnums = 1, tb_NumMessages = 6,
               tb_NumExtensions = 0, tb_NumServices = 0, tb_GoTypes = slice (pv_goTypes vars),
               tb_DependencyIndexes = slice (pv_depIdxs vars)\<rparr>
         in vars\<lparr>pv_File := Some out, pv_rawDesc := None, pv_goTypes := None, pv_depIdxs := None\<rparr>))"

text \<open>The compressed descriptor: a \<open>sync.Once\<close> and the bytes, compressed by the first caller.\<close>

definition rawDescGZIP :: "(nat list \<Rightarrow> nat list) \<Rightarrow> bool \<times> nat list \<Rightarrow> nat list \<times> bool \<times> nat list" where
  "rawDescGZIP CompressGZIP v = (case v of (once, data) \<Rightarrow>
     (let data = (if \<not> once then CompressGZIP data else data) in (data, True, data)))"

text \<open>The index path of a message in the file, which the \<open>Descriptor\<close> methods return.\<close>

definition Descriptor_path :: "proto_message \<Rightarrow> nat list" where
  "Descriptor_path m = (case m of SpecMsg s \<Rightarrow> [0] | ComponentMsg c \<Rightarrow> [1] | RepoMsg r \<Rightarrow> [2]
     | StatusMsg s \<Rightarrow> [3] | ComponentStatusMsg s \<Rightarrow> [4] | ResourceStatusMsg s \<Rightarrow> [5])"

text \<open>The exporter set for message number \<open>k\<close>: a pointer to one of the private fields of its argument,
  which must be of that message's type.\<close>

datatype private_field = StateField | SizeCacheField | UnknownFieldsField

definition exporter :: "nat \<Rightarrow> proto_message \<Rightarrow> int \<Rightarrow> private_field option outcome" where
  "exporter k v i =
     (if Descriptor_path v \<noteq> [k] then Panicked
      else Returned (if i = 0 then Some StateField else if i = 1 then Some SizeCacheField
        else if i = 2 then Some UnknownFieldsField else None))"

text \<open>The dynamic type of a message.\<close>

definition go_type_of :: "proto_message \<Rightarrow> string" where
  "go_type_of m = (case m of SpecMsg s \<Rightarrow> ''*v1alpha1.HelmAppSpec'' | ComponentMsg c \<Rightarrow> ''*v1alpha1.HelmComponent''
     | RepoMsg r \<Rightarrow> ''*v1alpha1.HelmRepo'' | StatusMsg s \<Rightarrow> ''*v1alpha1.HelmAppStatus''
     | ComponentStatusMsg s \<Rightarrow> ''*v1alpha1.HelmComponentStatus''
     | ResourceStatusMsg s \<Rightarrow> ''*v1alpha1.HelmResourceStatus'')"

section \<open>Agreement\<close>

text \<open>The Go tag of a field, as protoc-gen-go derives it from the descriptor.\<close>

definition go_tag :: "field_desc \<Rightarrow> string" where
  "go_tag f = (if fd_type f \<in> {5, 8, 14} then ''varint'' else ''bytes'') @ '','' @ Itoa (int (fd_number f)) @ '','' @
     (if fd_label f = 3 then ''rep'' else ''opt'') @ '',name='' @ fd_name f @ '',proto3'' @
     (case fd_type_name f of Some n \<Rightarrow> if fd_type f = 14 then '',enum='' @ tl n else [] | None \<Rightarrow> [])"

text \<open>The descriptor name of an entry of \<open>goTypes\<close>.\<close>

definition full_name :: "file_desc \<Rightarrow> string \<Rightarrow> string" where
  "full_name F n = (if n = ''structpb.Struct'' then ''.google.protobuf.Struct'' else ''.'' @ fi_package F @ ''.'' @ n)"

text \<open>The names of the types of the fields that have one, message by message.\<close>

definition field_types :: "file_desc \<Rightarrow> string list" where
  "field_types F = concat (map (\<lambda>m. concat (map (\<lambda>f. case fd_type_name f of None \<Rightarrow> [] | Some n \<Rightarrow> [n])
     (md_fields m))) (fi_messages F))"

definition consistent :: "type_builder \<Rightarrow> file_desc \<Rightarrow> bool" where
  "consistent b F \<longleftrightarrow>
     tb_NumEnums b = length (fi_enums F) \<and> tb_NumMessages b = length (fi_messages F) \<and>
     take (tb_NumEnums b + tb_NumMessages b) (tb_GoTypes b) = map ed_name (fi_enums F) @ map md_name (fi_messages F) \<and>
     (let n = length (field_types F) in
      map (\<lambda>i. full_name F (tb_GoTypes b ! i)) (take n (tb_DependencyIndexes b)) = field_types F \<and>
      list_all (\<lambda>i. i < length (tb_GoTypes b)) (take n (tb_DependencyIndexes b)) \<and>
      drop n (tb_DependencyIndexes b) = [n, n, n, n, 0])"

lemma ascii: "(char_of (numeral n :: nat) :: char) = Char (odd (numeral n :: nat)) (odd (numeral n div 2 :: nat))
    (odd (numeral n div 4 :: nat)) (odd (numeral n div 8 :: nat)) (odd (numeral n div 16 :: nat))
    (odd (numeral n div 32 :: nat)) (odd (numeral n div 64 :: nat)) (odd (numeral n div 128 :: nat))"
  by (simp add: char_of_def bit_iff_odd)

lemmas decode_defs = decode_file_def decode_def decode_message_def decode_enum_def decode_value_def
  decode_field_def text_at_def

lemmas descriptor_defs = helmapp_descriptor_def file_descriptor_def helmapp_proto_def

lemma decode_rawDesc: "decode_file rawDesc = Some helmapp_descriptor"
  by (simp add: decode_defs descriptor_defs rawDesc_def ascii)

lemma tags_agree: "map (\<lambda>m. (md_name m, map go_tag (md_fields m))) (fi_messages helmapp_descriptor) = go_fields"
  by (simp add: descriptor_defs go_fields_def go_tag_def Itoa_def nat_digits.simps digit_char_def
      ascii)

lemma tables_consistent:
  "consistent \<lparr>tb_RawDescriptor = raw, tb_NumEnums = 1, tb_NumMessages = 6, tb_NumExtensions = 0,
     tb_NumServices = 0, tb_GoTypes = goTypes, tb_DependencyIndexes = depIdxs\<rparr> helmapp_descriptor"
  by (simp add: consistent_def descriptor_defs goTypes_def depIdxs_def field_types_def full_name_def Let_def)

section \<open>Properties\<close>

text \<open>C32. The reflection data of the API is that of its source: the bytes the Go file embeds decode to the
  descriptor of helmapp.proto, message by message and field by field; the tables handed to the
  library with them agree with it (the counts, the Go types, and the type of every field that has a
  message or enum type, through its position in the dependency indexes); the tags of the Go structs
  are those of the fields; and the values of the enum are the ones of the two name tables.\<close>

theorem generated_tables_agree:
  "\<exists>b F. pv_File (proto_init unsafe Build initial_vars) = Some (Build b) \<and>
     F = file_descriptor ''operator/v1alpha1/helmapp.proto'' helmapp_proto \<and>
     decode_file (tb_RawDescriptor b) = Some F \<and> consistent b F \<and>
     map (\<lambda>m. (md_name m, map go_tag (md_fields m))) (fi_messages F) = go_fields \<and>
     map ed_name (fi_enums F) = [''Phase''] \<and>
     list_all (\<lambda>(n, k). Phase_name (int k) = Some n \<and> Phase_value n = Some (int k))
       (concat (map ed_values (fi_enums F)))"
proof -
  let ?b = "\<lparr>tb_RawDescriptor = rawDesc, tb_NumEnums = 1, tb_NumMessages = 6, tb_NumExtensions = 0,
     tb_NumServices = 0, tb_GoTypes = goTypes, tb_DependencyIndexes = depIdxs\<rparr>"
  have "pv_File (proto_init unsafe Build initial_vars) = Some (Build ?b)"
    by (simp add: proto_init_def initial_vars_def Let_def)
  moreover have "map ed_name (fi_enums helmapp_descriptor) = [''Phase'']"
    and "list_all (\<lambda>(n, k). Phase_name (int k) = Some n \<and> Phase_value n = Some (int k))
       (concat (map ed_values (fi_enums helmapp_descriptor)))"
    by (simp_all add: descriptor_defs Phase_name_def Phase_value_def)
  ultimately show ?thesis
    using decode_rawDesc tags_agree tables_consistent [of rawDesc]
    by (intro exI [of _ ?b] exI [of _ helmapp_descriptor]) (simp add: helmapp_descriptor_def)
qed

text \<open>The file is built once: after any initialisation another one changes nothing, whatever the first
  one found and however often it is repeated.\<close>

theorem proto_init_once: "proto_init u' Build' (proto_init u Build vars) = proto_init u Build vars"
  by (auto simp: proto_init_def Let_def)

text \<open>The index path a \<open>Descriptor\<close> method returns leads to the message of its receiver's type, and the
  exporter of that index is the one that accepts the receiver.\<close>

theorem descriptor_paths:
  "\<exists>k. Descriptor_path m = [k] \<and> k < length (fi_messages helmapp_descriptor) \<and>
     ''*v1alpha1.'' @ md_name (fi_messages helmapp_descriptor ! k) = go_type_of m \<and>
     (exporter j m i = Panicked \<longleftrightarrow> j \<noteq> k)"
  by (cases m) (simp_all add: Descriptor_path_def exporter_def go_type_of_def descriptor_defs)

text \<open>Every caller gets the same bytes, compressed once.\<close>

theorem gzip_once:
  "rawDescGZIP gz (False, data) = (gz data, True, gz data)"
  "rawDescGZIP gz' (snd (rawDescGZIP gz v)) = rawDescGZIP gz v"
  by (simp_all add: rawDescGZIP_def Let_def split: prod.splits)

end
