(* ===== verification/Message_State.thy ===== *)
theory Message_State
  imports Descriptor
begin

text \<open>
  The reflection methods of the generated messages (helmapp.pb.go): \<open>Reset\<close> and \<open>ProtoReflect\<close> of the six
  message types, which differ in the type and in the index into \<open>msgTypes\<close>; the methods of the enum \<open>Phase\<close>.

  \<^item> A message is its content and the message information its private \<open>state\<close> field holds: nil or the
    address of an entry of \<open>msgTypes\<close>, given by its index.
  \<^item> \<open>protoimpl.UnsafeEnabled\<close> is a parameter; the reflection of a message is the state it was read from,
    or the entry of \<open>msgTypes\<close> it was made by.
\<close>

record message =
  mg_info :: "nat option"
  mg_content :: proto_message

datatype reflection = ByState "nat option" | ByInfo nat

text \<open>The zero value of a message's type.\<close>

definition zero_message :: "proto_message \<Rightarrow> proto_message" where
  "zero_message m = (case m of
      SpecMsg s \<Rightarrow> SpecMsg \<lparr>spec_Components = None, spec_GlobalValues = None, spec_Repo = None\<rparr>
    | ComponentMsg c \<Rightarrow> ComponentMsg \<lparr>hc_Name = [], hc_Chart = [], hc_Version = [], hc_ComponentValues = None,
        hc_Repo = None, hc_IgnoreGlobalValues = False\<rparr>
    | RepoMsg r \<Rightarrow> RepoMsg \<lparr>repo_Name = [], repo_Url = []\<rparr>
    | StatusMsg s \<Rightarrow> StatusMsg \<lparr>st_Phase = Phase_UNKNOWN, st_Components = []\<rparr>
    | ComponentStatusMsg s \<Rightarrow> ComponentStatusMsg \<lparr>hs_Name = [], hs_Status = [], hs_Message = [], hs_Version = [],
        hs_Resources = [], hs_ResourcesTotal = 0\<rparr>
    | ResourceStatusMsg s \<Rightarrow> ResourceStatusMsg \<lparr>hr_ApiVersion = [], hr_Kind = [], hr_Name = [], hr_Namespace = []\<rparr>)"

text \<open>The index of \<open>msgTypes\<close> in the two methods of a type.\<close>

definition msgTypes_index :: "proto_message \<Rightarrow> nat" where
  "msgTypes_index m = (case m of SpecMsg s \<Rightarrow> 0 | ComponentMsg c \<Rightarrow> 1 | RepoMsg r \<Rightarrow> 2
     | StatusMsg s \<Rightarrow> 3 | ComponentStatusMsg s \<Rightarrow> 4 | ResourceStatusMsg s \<Rightarrow> 5)"

definition Reset :: "bool \<Rightarrow> message \<Rightarrow> message" where
  "Reset UnsafeEnabled x =
     (let i = msgTypes_index (mg_content x); x = \<lparr>mg_info = None, mg_content = zero_message (mg_content x)\<rparr>
      in if UnsafeEnabled then x\<lparr>mg_info := Some i\<rparr> else x)"

text \<open>The receiver may be nil, so the index is that of the method.\<close>

definition ProtoReflect :: "bool \<Rightarrow> nat \<Rightarrow> message option \<Rightarrow> reflection \<times> message option" where
  "ProtoReflect UnsafeEnabled mi x =
     (case x of
        Some m \<Rightarrow>
          if UnsafeEnabled then
            (let m = (if mg_info m = None then m\<lparr>mg_info := Some mi\<rparr> else m) in (ByState (mg_info m), Some m))
          else (ByInfo mi, Some m)
      | None \<Rightarrow> (ByInfo mi, None))"

section \<open>Properties\<close>

text \<open>Nothing but these methods writes the state: it is nil or that of the message's own type.\<close>

definition own_state :: "message \<Rightarrow> bool" where
  "own_state m \<longleftrightarrow> mg_info m \<in> {None, Some (msgTypes_index (mg_content m))}"

lemma zero_message_index [simp]: "msgTypes_index (zero_message m) = msgTypes_index m"
  by (cases m) (simp_all add: zero_message_def msgTypes_index_def)

lemma Reset_own_state: "own_state (Reset unsafe m)"
  by (simp add: Reset_def own_state_def Let_def)

lemma ProtoReflect_own_state:
  "own_state m \<Longrightarrow> snd (ProtoReflect unsafe (msgTypes_index (mg_content m)) (Some m)) = Some m' \<Longrightarrow> own_state m'"
  by (auto simp: ProtoReflect_def own_state_def Let_def split: if_splits)

definition reflected_index :: "reflection \<Rightarrow> nat option" where
  "reflected_index r = (case r of ByState s \<Rightarrow> s | ByInfo i \<Rightarrow> Some i)"

text \<open>Reflection tells the truth: whatever was done with a message by these methods before, it is reflected
  as the entry of \<open>msgTypes\<close> whose Go type and whose descriptor are those of its own type; reflecting it
  leaves its content alone, and doing so again changes nothing.\<close>

theorem reflected_as_itself:
  assumes "own_state m" and "ProtoReflect unsafe (msgTypes_index (mg_content m)) (Some m) = (r, Some m')"
  shows "\<exists>i. reflected_index r = Some i \<and> Descriptor_path (mg_content m) = [i] \<and>
      ''*v1alpha1.'' @ goTypes ! Suc i = go_type_of (mg_content m) \<and>
      mg_content m' = mg_content m \<and> ProtoReflect unsafe (msgTypes_index (mg_content m')) (Some m') = (r, Some m')"
proof -
  have "reflected_index r = Some (msgTypes_index (mg_content m))" "mg_content m' = mg_content m"
    "ProtoReflect unsafe (msgTypes_index (mg_content m')) (Some m') = (r, Some m')"
    using assms by (auto simp: ProtoReflect_def own_state_def reflected_index_def Let_def split: if_splits)
  moreover have "Descriptor_path c = [msgTypes_index c]" "''*v1alpha1.'' @ goTypes ! Suc (msgTypes_index c) = go_type_of c" for c
    by (cases c; simp add: Descriptor_path_def msgTypes_index_def goTypes_def go_type_of_def)+
  ultimately show ?thesis by blast
qed

theorem reflected_as_itself_witness:
  "fst (ProtoReflect True 2 (Some (Reset True \<lparr>mg_info = None, mg_content = RepoMsg \<lparr>repo_Name = ''istio'', repo_Url = []\<rparr>\<rparr>))) =
     ByState (Some 2) \<and> ''*v1alpha1.'' @ goTypes ! 3 = ''*v1alpha1.HelmRepo''"
proof -
  let ?m = "Reset True \<lparr>mg_info = None, mg_content = RepoMsg \<lparr>repo_Name = ''istio'', repo_Url = []\<rparr>\<rparr>"
  have run: "ProtoReflect True (msgTypes_index (mg_content ?m)) (Some ?m) = (ByState (Some 2), Some ?m)"
    by (simp add: ProtoReflect_def Reset_def msgTypes_index_def zero_message_def)
  have i: "msgTypes_index (mg_content ?m) = 2" "go_type_of (mg_content ?m) = ''*v1alpha1.HelmRepo''"
    by (simp_all add: Reset_def msgTypes_index_def zero_message_def go_type_of_def)
  from reflected_as_itself [OF Reset_own_state run] show ?thesis
    using run by (auto simp: i reflected_index_def eval_nat_numeral)
qed

section \<open>Enum and text methods\<close>

text \<open>
  The methods of \<open>Phase\<close> and the \<open>String\<close> methods of the messages. \<open>enumTypes\<close> is the array the type builder
  fills with the enum types of the descriptor; the text of an enum value and of a message is made by the
  protobuf runtime, which is a parameter. The heap of \<open>Phase_Enum\<close> is the list of the cells in use.
\<close>

definition Phase_Enum :: "Phase \<Rightarrow> Phase list \<Rightarrow> nat \<times> Phase list" where
  "Phase_Enum x heap = (let p = length heap in (p, heap @ [x]))"

definition Phase_Descriptor :: "enum_desc list \<Rightarrow> enum_desc" where
  "Phase_Descriptor enumTypes = enumTypes ! 0"

definition Phase_Type :: nat where "Phase_Type = 0"

definition Phase_String :: "(enum_desc \<Rightarrow> int \<Rightarrow> string) \<Rightarrow> enum_desc list \<Rightarrow> Phase \<Rightarrow> string" where
  "Phase_String EnumStringOf enumTypes x = EnumStringOf (Phase_Descriptor enumTypes) (Phase_Number x)"

definition Phase_EnumDescriptor ::
    "(nat list \<Rightarrow> nat list) \<Rightarrow> bool \<times> nat list \<Rightarrow> (nat list \<times> nat list) \<times> bool \<times> nat list" where
  "Phase_EnumDescriptor CompressGZIP v = (case rawDescGZIP CompressGZIP v of (data, v) \<Rightarrow> ((data, [0]), v))"

definition Message_String :: "(proto_message \<Rightarrow> string) \<Rightarrow> proto_message \<Rightarrow> string" where
  "Message_String MessageStringOf x = MessageStringOf x"

text \<open>The runtime names an enum value as its descriptor does, and writes a number it does not know in decimal.\<close>

definition names_enum_values :: "(enum_desc \<Rightarrow> int \<Rightarrow> string) \<Rightarrow> bool" where
  "names_enum_values EnumStringOf \<longleftrightarrow> (\<forall>d n. EnumStringOf d n =
     (case find (\<lambda>(s, k). int k = n) (ed_values d) of Some (s, k) \<Rightarrow> s | None \<Rightarrow> Itoa n))"

text \<open>The text of a phase is its name in the tables of the Go file and leads back to it, the enum at the
  returned index path is \<open>Phase\<close>, and a new pointer holds the phase and changes no other cell.\<close>

theorem phase_text_roundtrip:
  assumes "names_enum_values EnumStringOf" and "enumTypes = fi_enums helmapp_descriptor"
  shows "Phase_name (Phase_Number x) = Some (Phase_String EnumStringOf enumTypes x) \<and>
    Phase_value (Phase_String EnumStringOf enumTypes x) = Some (Phase_Number x) \<and>
    ed_name (enumTypes ! Phase_Type) = ''Phase'' \<and>
    enumTypes ! hd (snd (fst (Phase_EnumDescriptor gz v))) = Phase_Descriptor enumTypes"
proof -
  have "Phase_Descriptor enumTypes = \<lparr>ed_name = ''Phase'', ed_values =
      [(''UNKNOWN'', 0), (''RECONCILING'', 1), (''SUCCEEDED'', 2), (''FAILED'', 3), (''DELETING'', 4)]\<rparr>"
    by (simp add: Phase_Descriptor_def assms(2) descriptor_defs)
  then show ?thesis
    using assms(1) by (cases x) (simp_all add: Phase_String_def names_enum_values_def Phase_name_def Phase_value_def
      Phase_Type_def Phase_Descriptor_def Phase_EnumDescriptor_def split: prod.splits)
qed

lemma Phase_Enum_fresh:
  "snd (Phase_Enum x heap) ! fst (Phase_Enum x heap) = x"
  "p < length heap \<Longrightarrow> snd (Phase_Enum x heap) ! p = heap ! p \<and> p \<noteq> fst (Phase_Enum x heap)"
  by (simp_all add: Phase_Enum_def Let_def nth_append)

theorem phase_text_roundtrip_witness:
  "Phase_value (Phase_String (\<lambda>d n. case find (\<lambda>(s, k). int k = n) (ed_values d) of Some (s, k) \<Rightarrow> s | None \<Rightarrow> Itoa n)
     (fi_enums helmapp_descriptor) Phase_FAILED) = Some 3"
proof -
  have "names_enum_values (\<lambda>d n. case find (\<lambda>(s, k). int k = n) (ed_values d) of Some (s, k) \<Rightarrow> s | None \<Rightarrow> Itoa n)"
    by (simp add: names_enum_values_def)
  from phase_text_roundtrip [OF this HOL.refl, of Phase_FAILED] show ?thesis by simp
qed

end
