(* ===== verification/Logging.thy ===== *)
theory Logging
  imports Prelude
begin

text \<open>
  The logging helpers of internal/controller/helmapp.go: the package variable \<open>settings\<close> with
  \<open>newHelmSettings\<close>, and \<open>debug\<close> and \<open>warning\<close>, which Helm is given as its log functions. \<open>fmt.Sprintf\<close> and
  the settings of the Helm command line are parameters; an argument of a format is of any type that
  has the strings.
\<close>

record 'r env_settings =
  es_Debug :: bool
  es_other :: 'r

record 'v fmt_lib =
  fm_Sprintf :: "string \<Rightarrow> 'v list \<Rightarrow> string"
  fm_string :: "string \<Rightarrow> 'v"

datatype log_event = SetFlags string | LogOutput nat string | Stderr string

definition newline :: string where
  "newline = [CHR 0x0A]"

definition newHelmSettings :: "'r env_settings \<Rightarrow> 'r env_settings" where
  "newHelmSettings fresh = (let helmSettings = fresh in helmSettings\<lparr>es_Debug := True\<rparr>)"

definition log_init :: "log_event list" where
  "log_init = [SetFlags ''Lshortfile'']"

definition debug :: "'v fmt_lib \<Rightarrow> 'r env_settings \<Rightarrow> string \<Rightarrow> 'v list \<Rightarrow> log_event list" where
  "debug F settings format v =
     (if es_Debug settings then
        (let format = fm_Sprintf F (''[debug] %s'' @ newline) [fm_string F format]
         in [LogOutput 2 (fm_Sprintf F format v)])
      else [])"

definition warning :: "'v fmt_lib \<Rightarrow> string \<Rightarrow> 'v list \<Rightarrow> log_event list" where
  "warning F format v =
     (let format = fm_Sprintf F (''WARNING: %s'' @ newline) [fm_string F format] in [Stderr (fm_Sprintf F format v)])"

text \<open>A \<open>%s\<close> with a string puts the string in its place.\<close>

definition fmt_laws :: "'v fmt_lib \<Rightarrow> bool" where
  "fmt_laws F \<longleftrightarrow> (\<forall>pre post s. CHR ''%'' \<notin> set pre \<longrightarrow> CHR ''%'' \<notin> set post \<longrightarrow>
     fm_Sprintf F (pre @ ''%s'' @ post) [fm_string F s] = pre @ s @ post)"

text \<open>Helm's debug log is always on: the settings of the package have it set whatever the environment says,
  so every message is written, once, as the format with the prefix and a line break around it.\<close>

theorem debug_is_always_on:
  assumes "fmt_laws F" and "settings = newHelmSettings fresh"
  shows "debug F settings format v = [LogOutput 2 (fm_Sprintf F (''[debug] '' @ format @ newline) v)] \<and>
    es_other settings = es_other fresh"
proof -
  have "fm_Sprintf F (''[debug] '' @ ''%s'' @ newline) [fm_string F format] = ''[debug] '' @ format @ newline"
    using assms(1) unfolding fmt_laws_def by (simp add: newline_def del: append_Cons append.append_Nil)
  then show ?thesis by (simp add: debug_def assms(2) newHelmSettings_def)
qed

text \<open>A formatter that only knows \<open>%s\<close>.\<close>

fun fill :: "string \<Rightarrow> string list \<Rightarrow> string" where
  "fill (c # d # f) (s # ss) = (if [c, d] = ''%s'' then s @ fill f ss else c # fill (d # f) (s # ss))"
| "fill f ss = f"

definition fill_lib :: "string fmt_lib" where
  "fill_lib = \<lparr>fm_Sprintf = fill, fm_string = id\<rparr>"

lemma fill_first: "CHR ''%'' \<notin> set pre \<Longrightarrow> fill (pre @ ''%s'' @ post) (s # ss) = pre @ s @ fill post ss"
proof (induction pre)
  case (Cons c pre)
  then show ?case by (cases pre) auto
qed simp

lemma fill_none: "fill f [] = f"
  by (cases "(f, [] :: string list)" rule: fill.cases) auto

theorem debug_is_always_on_witness:
  "debug fill_lib (newHelmSettings \<lparr>es_Debug = False, es_other = ()\<rparr>) ''%s is ready'' [''demo''] =
   [LogOutput 2 (''[debug] demo is ready'' @ newline)]"
proof -
  have "fmt_laws fill_lib" by (auto simp: fmt_laws_def fill_lib_def fill_first [simplified] fill_none)
  from debug_is_always_on [OF this HOL.refl, of "\<lparr>es_Debug = False, es_other = ()\<rparr>" "''%s is ready''" "[''demo'']"]
  show ?thesis by (simp add: fill_lib_def newline_def)
qed

end
