(* ===== verification/Spec2Isabelle.thy ===== *)
theory Spec2Isabelle
  imports Fleet Failed_Releases Shared_Releases Release_Values Iop_Spec Manager Accessors Fake_Clientset Json_Shims
    Scheme_Registration Message_State Logging
begin

text \<open>
  A verification library for the Pluma operator, a Kubernetes operator that turns an IstioOperator
  into a HelmApp and a HelmApp into Helm releases.

  \<^bold>\<open>The program.\<close> src/cmd/main.go reads the command line, fills the scheme, registers two controllers with
  controller-runtime and starts the manager. The IstioOperator controller (src/internal/istio/iop.go)
  merges an IstioOperator with its profile file, converts the result to a HelmApp and creates or
  updates that HelmApp; when the IstioOperator is deleted it deletes the HelmApp and, once that has been
  accepted, gives the IstioOperator up. The HelmApp controller (src/internal/controller/helmapp.go) installs, upgrades and
  uninstalls one Helm release per component, writes the outcome into the status, and on deletion
  uninstalls the components of the status in reverse. Both hold a finalizer on their object. The rest
  is generated: the API messages with their accessors, deep copies, JSON methods and reflection tables
  (src/apis/operator/v1alpha1), and a client, a fake client, informers and listers (src/apis/client).

  \<^bold>\<open>How code is modelled.\<close> A handler is a program of the state monad over the \<^emph>\<open>trace\<close>, the list of external
  calls made so far (Prelude: \<open>call\<close>, \<open>events_of\<close>, \<open>result_of\<close>). A call appends its event and receives a
  response that is an arbitrary function of the trace and the arguments, so a theorem holds for every
  behaviour of the API server and of Helm that its hypotheses allow, errors and changes from outside
  included. A pointer the code dereferences without a check is a branch to \<open>Panicked\<close>; every error
  return is a value. Pointers that may be nil are options, a Go map is an association list with
  unique keys that may be nil (\<open>gomap\<close>), a float64 is its IEEE bit pattern, an int32 and a duration are
  words. Loops are structural recursions; the loop that deletes from the slice it walks keeps its
  index. Nothing needs fuel but the reader of the embedded descriptor, where the bytes themselves are
  the fuel: a field takes at least two of them.

  \<^bold>\<open>The theories.\<close>
  \<^item> Prelude: the trace logic (\<open>emits\<close>, with its introduction rules), loops over an operation (locales
    \<open>trace_op\<close> and \<open>trace_loop\<close>), association lists as Go maps (locale \<open>entry_store\<close>).
  \<^item> Go_Values, API_Types: dynamic values and \<open>reflect.DeepEqual\<close>; the messages, enum tables and
    accessors of helmapp.pb.go, and google.protobuf.Struct.
  \<^item> Externals: the events and the responses of Kubernetes, Helm and the libraries, with the laws a
    theorem may assume of them. Sample_World: concrete responses that satisfy the laws.
  \<^item> Merge_Values: \<open>MergeValues\<close>, refined to the override of one nested map by another, and with that
    independent of the iteration order of Go maps.
  \<^item> Component_Lifecycle, Component_Spec: \<open>reconcileComponent\<close>, \<open>uninstallComponent\<close>, \<open>hasConfigChanged\<close>,
    \<open>calculateOverallPhase\<close>; which single write a component gets, what it reports.
  \<^item> HelmApp_Controller, HelmApp_Spec: \<open>Reconcile\<close> and \<open>reconcileDelete\<close> of HelmApps; finalizer, orphans,
    status, requeue, deletion order, and the errors the handler makes.
  \<^item> Whole_Releases, Settling, Unsettled, Failed_Releases, Shared_Releases, Release_Values: runs of that handler
    one after the other. With a Helm that stores what it is given one run is enough (\<open>one_run_settles\<close>), but
    a component without values is upgraded for ever, so is a release that two HelmApps want differently, and
    a release that failed is never tried again; the values sent to Helm are well typed.
  \<^item> Iop_Convert, Iop_Controller, Iop_Spec: \<open>convertIopToHelmApp\<close>, \<open>mergeIOPWithProfile\<close>,
    \<open>createOrUpdateHelmApp\<close>, \<open>Reconcile\<close> and \<open>reconcileDelete\<close> of IstioOperators; which components a
    HelmApp gets, ownership by label, finalizer.
  \<^item> Api_Server: what the API server makes of the writes of both controllers (\<open>api_laws\<close>): finalizers, deletion
    marks, the status subresource, resource versions; with a server that replays the trace.
  \<^item> Deletion_Runs: a deletion ends after as many runs as Helm fails calls, and one more.
  \<^item> Teardown: a deleted IstioOperator takes its HelmApp and its releases with it, unless it is created anew too
    early.
  \<^item> Cluster, Fleet: the two controllers together over one server. Cluster has one run of either for one key,
    with the stage it leads to and what it leaves alone (\<open>apart\<close>); Fleet composes the runs for all keys, in
    any order (locale \<open>interleaving\<close>, interpreted on the handlers): IstioOperators that stay and share no
    release are brought about, and the operator comes to rest.
  \<^item> Reconciler: the contract between a controller and its queue (locale \<open>reconciler\<close>), interpreted on
    both handlers.
  \<^item> Manager: the command line, the start of the process and every way it can end.
  \<^item> Typed_Client, Fake_Clientset, Informer_Factory, Lister, Accessors: the requests of the client, the
    actions of the fake, the construction of clientsets, the shared informer factory as a state
    machine (\<open>factory_step\<close>, \<open>reachable_from\<close>), the listers, and the accessors that connect them.
  \<^item> Deep_Copy, Json_Shims, Descriptor, Message_State: deep copies on an explicit heap, the JSON methods,
    the embedded descriptor, which decodes to the source helmapp.proto and agrees with the Go tables,
    and the reflection, enum and text methods of the messages.
  \<^item> Scheme_Registration, Logging: the kinds the schemes of the clients know; the log functions of Helm.
  \<^item> This theory: what holds of the parts together, from an IstioOperator to Helm releases and from the
    command line to the files that are read.

  \<^bold>\<open>Parameters and laws.\<close> Helm, the API server, structpb, jsonpb, YAML, mergo, go-multierror, the file system,
  client-go and controller-runtime are parameters. Their documented behaviour is stated where a theorem
  needs it: \<open>finalizer_laws\<close>, \<open>AsMap_laws\<close>, \<open>AsMap_yields_json\<close>, \<open>NewStruct_laws\<close>, \<open>whole_releases\<close>,
  \<open>helm_store_laws\<close>, \<open>reads_store\<close>, \<open>helm_works\<close>, \<open>helm_finds\<close>, \<open>helm_uninstalls\<close>, \<open>omits_empty_config\<close>,
  \<open>revisions_grow\<close>, \<open>readable_history\<close>, \<open>keeps_showing\<close>, \<open>filed_under\<close>, \<open>takes_status\<close>, \<open>api_laws\<close>,
  \<open>namespaced\<close>, \<open>filed_by_key\<close>, \<open>scheme_laws\<close>, \<open>fmt_laws\<close>, \<open>names_enum_values\<close>. Each is shown to hold of a concrete instance by a witness.

  \<^bold>\<open>Not modelled.\<close> The structured log calls of the handlers. The protobuf runtime itself: reflection, the text of
  a message and of an enum value are calls to it. Goroutines and the work queue inside client-go and
  controller-runtime: a run of a handler is one step here. Each controller runs its handler for one object
  at a time, but the two controllers are two workers, so a run of one may overlap a run of the other; the
  theorems on several runs (Teardown, Cluster, Fleet) take the runs one after the other. Writes on a
  resource version that is out of date have no law: the handlers return the error, whatever it is.
  Charts, manifests, scripts and vendored protos.
\<close>

section \<open>From IstioOperator to Helm releases\<close>

lemma convert_spec:
  assumes "iop_Spec inp = Some spec" and "result_of (convertIopToHelmApp L dir inp) tr = Returned (Inr app)"
  obtains hspec repo where "ha_Spec app = Some hspec" "spec_Repo hspec = Some repo"
  by (rule convert_result [OF assms]) (use that in \<open>simp add: converted_app_def\<close>)


lemma sample_conversion:
  "result_of (convertIopToHelmApp sample_lib ''profiles'' sample_iop) [] =
   Returned (Inr (converted_app sample_iop sample_converted))"
  by (simp add: result_of_def sample_convert)

lemma sample_whole_releases: "whole_releases sample_helm"
  by (auto simp: whole_releases_def whole_release_def sample_helm_def sample_release_def split: if_splits)


definition concerns :: "string list \<Rightarrow> string list \<Rightarrow> event \<Rightarrow> bool" where
  "concerns wanted recorded e = (case e of
      HelmInstall a c v \<Rightarrow> ca_ReleaseName a \<in> set wanted
    | HelmUpgrade a n c v \<Rightarrow> n \<in> set wanted
    | HelmUninstall n \<Rightarrow> n \<noteq> [] \<and> n \<notin> set wanted \<and> n \<in> set recorded
    | _ \<Rightarrow> True)"

text \<open>C27. What the operator writes to Helm for a converted HelmApp: it installs and upgrades only releases
  named after the enabled components of the IstioOperator (its base, istiod and gateways, and the
  nameless CNI and ztunnel components), and uninstalls only releases of the HelmApp's status that
  are no longer among them.\<close>

theorem converted_releases:
  assumes "iop_Spec inp = Some spec"
    and "result_of (convertIopToHelmApp L dir inp) tr = Returned (Inr app)"
    and "result_of (mergeIOPWithProfile L dir inp) tr = Inr iop" and "get_or is_Components None (iop_Spec iop) = Some cs"
    and "ha_Spec stored = ha_Spec app"
  shows "list_all (concerns (expected_names (om_Name (iop_Meta inp)) (om_Name (iop_Meta iop)) cs)
      (case ha_Status stored of None \<Rightarrow> [] | Some st \<Rightarrow> map hs_Name (st_Components st)))
    (events_of (HelmApp_apply L' K H stored) tr')"
proof -
  obtain components where c: "convert_components L iop (iop_version spec)
      (plain_component (buildName (om_Name (iop_Meta inp)) ''base'') ''base'' (iop_version spec) None)
      (plain_component (buildName (om_Name (iop_Meta inp)) ''istiod'') ''istiod'' (iop_version spec) None) =
      Returned (Inr components)" and app: "app = converted_app iop components"
    by (rule convert_result [OF assms(1,2)]) (use assms(3) in auto)
  obtain hspec where h: "ha_Spec app = Some hspec" "spec_Components hspec = Some components"
    by (simp add: app converted_app_def)
  have "map hc_Name components = expected_names (om_Name (iop_Meta inp)) (om_Name (iop_Meta iop)) cs"
    using convert_components_result [OF c] assms(4) by simp
  then have names: "hc_Name ` set components = set (expected_names (om_Name (iop_Meta inp)) (om_Name (iop_Meta iop)) cs)"
    by (metis list.set_map)
  show ?thesis
  proof (rule list.pred_mono_strong [OF events_emits [OF emits_HelmApp_apply]])
    fix e
    assume "e = NewRegistryClient \<or> e = HelmInit (om_Namespace (ha_Meta stored)) \<or>
      (\<exists>a. e = UpdateHelmAppStatus a) \<or> (\<exists>spec. ha_Spec stored = Some spec \<and> app_event stored spec e)"
    then show "concerns (expected_names (om_Name (iop_Meta inp)) (om_Name (iop_Meta iop)) cs)
        (case ha_Status stored of None \<Rightarrow> [] | Some st \<Rightarrow> map hs_Name (st_Components st)) e"
      using assms(5) h(1,2)
      by (cases e) (auto simp: concerns_def app_event_def component_event_def uninstall_event_def orphan_of_def
          names_of_def slice_def action_for_def names [symmetric])
  qed
qed

theorem converted_releases_witness:
  "list_all (concerns (expected_names ''demo'' ''demo'' sample_components) [])
    (events_of (HelmApp_apply sample_lib (sample_kube (\<lambda>_. Inl (NotFound [])) (\<lambda>_. Inl (NotFound [])))
      sample_helm (converted_app sample_iop sample_converted)) [])"
proof -
  have merge: "result_of (mergeIOPWithProfile sample_lib ''profiles'' sample_iop) [] = Inr sample_iop"
    using sample_merge [OF sample_iop_has_spec, of "''profiles''" "[]"] by (simp add: result_of_def)
  have cs: "get_or is_Components None (iop_Spec sample_iop) = Some sample_components"
    by (simp add: sample_iop_def sample_iop_spec_def get_or_def)
  have name: "om_Name (iop_Meta sample_iop) = ''demo''" by (simp add: sample_iop_def sample_meta_def)
  show ?thesis
    using converted_releases [OF sample_iop_has_spec sample_conversion merge cs HOL.refl, of sample_lib]
    unfolding name by (simp add: converted_app_def)
qed

text \<open>C13. The base chart of an IstioOperator never settles unless the IstioOperator or its profile sets
  \<open>values.global\<close>: the conversion gives base no values of its own, so however often the converted
  HelmApp is reconciled, every run installs or upgrades the base release.\<close>

theorem base_release_never_settles:
  assumes "iop_Spec inp = Some spec"
    and "result_of (convertIopToHelmApp L dir inp) tr = Returned (Inr app)"
    and "result_of (mergeIOPWithProfile L dir inp) tr = Inr iop" and "get_or is_Components None (iop_Spec iop) = Some cs"
    and "is_enabled (ics_Base cs)" and "value_at (iop_Spec iop) ''global'' = None"
    and "ha_Spec app = Some hspec" and "keeps_showing K key hspec" and "l_AsMap L' None = Some []"
    and "omits_empty_config H" and "readable_history H" and "helm_works H" and "whole_releases H"
  shows "runs \<le> length (filter (\<lambda>e. helm_write e \<and> release_of e = Some (buildName (om_Name (iop_Meta inp)) ''base''))
    (events_of (for_each (HelmApp_Reconcile L' K H) (replicate runs key)) tr'))"
proof -
  let ?base = "plain_component (buildName (om_Name (iop_Meta inp)) ''base'') ''base'' (iop_version spec) None"
  obtain components where c: "convert_components L iop (iop_version spec) ?base
      (plain_component (buildName (om_Name (iop_Meta inp)) ''istiod'') ''istiod'' (iop_version spec) None) =
      Returned (Inr components)" and app: "app = converted_app iop components"
    by (rule convert_result [OF assms(1,2)]) (use assms(3) in auto)
  have hspec: "slice (spec_Components hspec) = components" "spec_GlobalValues hspec = None"
    "\<exists>repo. spec_Repo hspec = Some repo"
    using assms(6,7) by (auto simp: app converted_app_def)
  then obtain repo where repo: "spec_Repo hspec = Some repo" by blast
  have "component_values L' hspec ?base = Some []"
    by (simp add: component_values_def plain_component_def hspec(2) assms(9) Let_def MergeValues.simps)
  moreover have "?base \<in> set (slice (spec_Components hspec))"
    unfolding hspec(1) by (rule convert_components_base [OF c assms(4,5)])
  moreover have "hc_Name ?base = buildName (om_Name (iop_Meta inp)) ''base''" by (simp add: plain_component_def)
  ultimately show ?thesis
    using valueless_never_settles [OF assms(10-13,8) repo, of ?base L' runs tr'] by (simp only:)
qed

definition storing_kube :: kube_api where
  "storing_kube = demo_kube ((converted_app sample_iop sample_converted)\<lparr>
     ha_Meta := sample_meta\<lparr>om_Finalizers := [HelmAppFinalizer]\<rparr>\<rparr>)"

theorem base_release_never_settles_witness:
  "7 \<le> length (filter (\<lambda>e. helm_write e \<and> release_of e = Some ''iop-demo-base'')
    (events_of (for_each (HelmApp_Reconcile sample_lib storing_kube replay_helm)
       (replicate 7 (''default'', ''demo''))) []))"
proof -
  have merge: "result_of (mergeIOPWithProfile sample_lib ''profiles'' sample_iop) [] = Inr sample_iop"
    using sample_merge [OF sample_iop_has_spec, of "''profiles''" "[]"] by (simp add: result_of_def)
  have cs: "get_or is_Components None (iop_Spec sample_iop) = Some sample_components"
    by (simp add: sample_iop_def sample_iop_spec_def get_or_def)
  have base: "is_enabled (ics_Base sample_components)" by (simp add: sample_components_def is_enabled_def)
  have global: "value_at (iop_Spec sample_iop) ''global'' = None"
    by (simp add: sample_iop_def sample_iop_spec_def value_at_def)
  obtain hspec where h: "ha_Spec (converted_app sample_iop sample_converted) = Some hspec"
    by (simp add: converted_app_def)
  have server: "keeps_showing storing_kube (''default'', ''demo'') hspec"
    using h by (simp add: keeps_showing_def storing_kube_def sample_kube_def sample_meta_def is_deleting_def)
  have nil: "l_AsMap sample_lib None = Some []" by (simp add: sample_lib_def sample_AsMap_def)
  have name: "buildName (om_Name (iop_Meta sample_iop)) ''base'' = ''iop-demo-base''"
    by (simp add: sample_iop_def sample_meta_def buildName_def)
  show ?thesis
    using base_release_never_settles [OF sample_iop_has_spec sample_conversion merge cs base global h server nil
        replay_unsettled_laws replay_works replay_whole_releases, of 7 "[]"]
    unfolding name .
qed

text \<open>Every file read is a YAML file below a directory.\<close>

definition reads_below :: "string \<Rightarrow> event \<Rightarrow> bool" where
  "reads_below dir e \<longleftrightarrow> (case e of ReadFile p \<Rightarrow> \<exists>name. p = dir @ ''/'' @ name @ ''.yaml'' | _ \<Rightarrow> True)"



end
